(* ===== verification/Prelude.thy ===== *)
theory Prelude
  imports
    Main
    "HOL-Library.Word"
    "HOL-Library.Finite_Map"
    "HOL-Library.Char_ord"
    "HOL-Library.List_Lexorder"
    "HOL-Library.Multiset"
begin

text \<open>
  Shared vocabulary of the development: instants and durations of Go's \<open>time\<close> package,
  64-bit signed arithmetic, Go maps as finite maps, and the generic lemmas on them that the
  component theories use.
\<close>

section \<open>Collections of lemmas\<close>

named_theorems frame_simps \<open>which fields of a state an operation leaves alone\<close>

section \<open>Time\<close>

text \<open>
  A \<open>time.Time\<close> is the number of nanoseconds since the zero time (1 January of year 1, UTC), a
  \<open>time.Duration\<close> a number of nanoseconds. \<open>time.Time\<close> keeps 64-bit seconds beside the
  nanoseconds, so that adding any 64-bit duration to a date of this era cannot leave its range:
  instants are unbounded integers here. \<open>UTC()\<close> changes the location only and is the identity.
\<close>

type_synonym time = int
type_synonym duration = int

definition is_zero :: "time \<Rightarrow> bool" where
  "is_zero t \<longleftrightarrow> t = 0"

definition time_after :: "time \<Rightarrow> time \<Rightarrow> bool" where
  "time_after t u \<longleftrightarrow> t > u"

definition time_before :: "time \<Rightarrow> time \<Rightarrow> bool" where
  "time_before t u \<longleftrightarrow> t < u"

definition time_add :: "time \<Rightarrow> duration \<Rightarrow> time" where
  "time_add t d = t + d"

lemmas time_simps [simp] = is_zero_def time_after_def time_before_def time_add_def

definition nanosecond :: duration where "nanosecond = 1"
definition second :: duration where "second = 1000000000"
definition minute :: duration where "minute = 60 * second"
definition hour :: duration where "hour = 60 * minute"

lemmas duration_units [simp] = nanosecond_def second_def minute_def hour_def

section \<open>64-bit signed integers\<close>

text \<open>\<open>int\<close> and \<open>int64\<close> wrap around in two's complement.\<close>

definition wrap64 :: "int \<Rightarrow> int" where
  "wrap64 x = (x + 2 ^ 63) mod 2 ^ 64 - 2 ^ 63"

definition max_int64 :: int where
  "max_int64 = 2 ^ 63 - 1"

definition int64_range :: "int \<Rightarrow> bool" where
  "int64_range x \<longleftrightarrow> - (2 ^ 63) \<le> x \<and> x < 2 ^ 63"

lemma wrap64_range [simp]: "int64_range (wrap64 x)"
proof -
  have "0 \<le> (x + 2 ^ 63) mod 2 ^ 64" "(x + 2 ^ 63) mod 2 ^ 64 < 2 ^ 64" by simp_all
  then show ?thesis by (simp add: wrap64_def int64_range_def)
qed

lemma wrap64_id: "int64_range x \<Longrightarrow> wrap64 x = x"
  by (simp add: wrap64_def int64_range_def)

lemma wrap64_overflow: "wrap64 (max_int64 + 1) = - (2 ^ 63)"
  by (simp add: wrap64_def max_int64_def)

section \<open>Go maps\<close>

text \<open>A Go map is a finite map; \<open>len\<close> is the number of its keys.\<close>

definition fmsize :: "('k, 'v) fmap \<Rightarrow> nat" where
  "fmsize m = fcard (fmdom m)"

lemma fmsize_empty [simp]: "fmsize fmempty = 0"
  by (simp add: fmsize_def)

lemma fmsize_upd: "fmsize (fmupd k v m) = (if fmlookup m k = None then Suc (fmsize m) else fmsize m)"
  by (auto simp: fmsize_def fcard_finsert_if fmlookup_dom_iff)

lemma fmap_eqI: "(\<And>k. fmlookup m k = fmlookup n k) \<Longrightarrow> m = n"
  by (rule fmap_ext)

lemma fmsize_distinct: "set ks = fset (fmdom m) \<Longrightarrow> distinct ks \<Longrightarrow> fmsize m = length ks"
  by (metis distinct_card fcard.rep_eq fmsize_def)

section \<open>Lists\<close>

lemma map_of_filter_key: "map_of (filter (\<lambda>x. fst x \<noteq> k) xs) k' = (if k' = k then None else map_of xs k')"
  by (induction xs) auto

text \<open>Moving an element to the front of a duplicate-free list.\<close>

definition to_front :: "'a \<Rightarrow> 'a list \<Rightarrow> 'a list" where
  "to_front x xs = x # removeAll x xs"

lemma set_to_front [simp]: "x \<in> set xs \<Longrightarrow> set (to_front x xs) = set xs"
  by (auto simp: to_front_def)

lemma distinct_to_front [simp]: "distinct xs \<Longrightarrow> distinct (to_front x xs)"
  by (simp add: to_front_def distinct_removeAll)

lemma distinct_map_unique:
  "distinct (map f xs) \<Longrightarrow> x \<in> set xs \<Longrightarrow> y \<in> set xs \<Longrightarrow> f x = f y \<Longrightarrow> x = y"
  by (auto simp: distinct_map inj_on_def)

lemma sum_list_remove:
  fixes f :: "'a \<Rightarrow> int"
  assumes "x \<in> set xs" and "distinct xs"
  shows "sum_list (map f (removeAll x xs)) = sum_list (map f xs) - f x"
  using assms by (induction xs) (auto simp: removeAll_id)

lemma sum_list_upd:
  fixes f :: "'a \<Rightarrow> int"
  assumes "x \<in> set xs" and "distinct xs"
  shows "sum_list (map (f(x := v)) xs) = sum_list (map f xs) - f x + v"
  using assms
proof (induction xs)
  case (Cons y ys)
  have "sum_list (map (f(x := v)) ys) = sum_list (map f ys)" if "x \<notin> set ys"
    using that by (intro arg_cong [where f = sum_list]) auto
  with Cons show ?case by (cases "x = y") (simp_all add: fun_upd_def)
qed simp

lemma sorted_perm_unique:
  fixes xs ys :: "'a::linorder list"
  assumes "sorted xs" and "sorted ys" and "mset xs = mset ys"
  shows "xs = ys"
  using assms by (metis properties_for_sort)

end
