(* ===== verification/Go_Lib.thy ===== *)
theory Go_Lib
  imports Prelude
begin

unbundle bit_operations_syntax

text \<open>
  What the program uses of Go's standard library: the functions of \<open>strings\<close>, \<open>strconv\<close>,
  \<open>encoding/hex\<close> and \<open>net/url\<close> that its components call. A Go string is a sequence of bytes,
  here a list of characters (a character is one byte). The functions whose tables or algorithms
  are not written out (case mapping of non-ASCII runes, the URL parser, SHA-256, the JSON codec)
  are the fields of the record \<open>golib\<close>, an argument of every definition that uses them.
\<close>

abbreviation newline :: string where "newline \<equiv> [CHR 0x0A]"
abbreviation double_quote :: string where "double_quote \<equiv> [CHR 0x22]"

section \<open>The library functions taken as arguments\<close>

datatype json =
    JNull
  | JBool bool
  | JNum string
  | JStr string
  | JArr "json list"
  | JObj "(string \<times> json) list"

text \<open>
  The fields of \<open>url.URL\<close>. \<open>url_user\<close> is \<open>User\<close>: \<open>None\<close> for the nil pointer, otherwise the text
  its \<open>String\<close> method prints.
\<close>

record url =
  url_scheme :: string
  url_opaque :: string
  url_user :: "string option"
  url_host :: string
  url_path :: string
  url_raw_path :: string
  url_omit_host :: bool
  url_force_query :: bool
  url_raw_query :: string
  url_fragment :: string
  url_raw_fragment :: string

text \<open>
  \<open>lib_lower\<close> is \<open>strings.ToLower\<close> on a string with a byte outside ASCII, \<open>lib_equal_fold\<close>
  \<open>strings.EqualFold\<close> when one of its arguments has such a byte, \<open>lib_parse\<close> is \<open>url.Parse\<close> (\<open>None\<close> for an error), \<open>lib_sha256\<close> the 32 digest bytes, \<open>lib_json_valid\<close>
  \<open>json.Valid\<close>, \<open>lib_json_decode\<close> \<open>json.Unmarshal\<close> into an \<open>any\<close>, \<open>lib_json_encode\<close>
  \<open>json.Marshal\<close>.
\<close>

record golib =
  lib_lower :: "string \<Rightarrow> string"
  lib_equal_fold :: "string \<Rightarrow> string \<Rightarrow> bool"
  lib_parse :: "string \<Rightarrow> url option"
  lib_sha256 :: "string \<Rightarrow> string"
  lib_json_valid :: "string \<Rightarrow> bool"
  lib_json_decode :: "string \<Rightarrow> json option"
  lib_json_encode :: "json \<Rightarrow> string option"

section \<open>Strings\<close>

definition byte :: "char \<Rightarrow> nat" where
  "byte c = of_char c"

lemma byte_char_of: "n < 256 \<Longrightarrow> byte (char_of n) = n"
  by (simp add: byte_def)

definition is_ascii :: "char \<Rightarrow> bool" where
  "is_ascii c \<longleftrightarrow> byte c < 128"

definition is_upper :: "char \<Rightarrow> bool" where
  "is_upper c \<longleftrightarrow> 65 \<le> byte c \<and> byte c \<le> 90"

definition is_lower :: "char \<Rightarrow> bool" where
  "is_lower c \<longleftrightarrow> 97 \<le> byte c \<and> byte c \<le> 122"

definition is_digit :: "char \<Rightarrow> bool" where
  "is_digit c \<longleftrightarrow> 48 \<le> byte c \<and> byte c \<le> 57"

definition ascii_lower :: "char \<Rightarrow> char" where
  "ascii_lower c = (if is_upper c then char_of (byte c + 32) else c)"

text \<open>\<open>strings.ToLower\<close>: bytewise on ASCII strings, by the Unicode table otherwise.\<close>

definition to_lower :: "golib \<Rightarrow> string \<Rightarrow> string" where
  "to_lower L s = (if list_all is_ascii s then map ascii_lower s else lib_lower L s)"

text \<open>\<open>strings.EqualFold\<close>.\<close>

definition equal_fold :: "golib \<Rightarrow> string \<Rightarrow> string \<Rightarrow> bool" where
  "equal_fold L s t \<longleftrightarrow>
     (if list_all is_ascii s \<and> list_all is_ascii t then map ascii_lower s = map ascii_lower t
      else lib_equal_fold L s t)"

text \<open>The UTF-8 encodings of the runes with Unicode's White_Space property.\<close>

definition space_runes :: "string list" where
  "space_runes =
     map (\<lambda>b. [char_of b]) [9, 10, 11, 12, 13, 32 :: nat] @
     map (map char_of)
       ([[194, 133], [194, 160], [225, 154, 128]] @
        map (\<lambda>b. [226, 128, b]) [128 ..< 139] @
        [[226, 128, 168], [226, 128, 169], [226, 128, 175], [226, 129, 159],
         [227, 128, 128 :: nat]])"

definition strip_rune :: "string list \<Rightarrow> string \<Rightarrow> string option" where
  "strip_rune rs s =
     map_option (\<lambda>r. drop (length r) s) (find (\<lambda>r. r \<noteq> [] \<and> take (length r) s = r) rs)"

lemma strip_rune_length: "strip_rune rs s = Some t \<Longrightarrow> length t < length s"
  by (cases s) (auto simp: strip_rune_def find_Some_iff)

function strip_runes :: "string list \<Rightarrow> string \<Rightarrow> string" where
  "strip_runes rs s = (case strip_rune rs s of None \<Rightarrow> s | Some t \<Rightarrow> strip_runes rs t)"
  by pat_completeness auto
termination
  by (relation "measure (\<lambda>(rs, s). length s)") (auto dest: strip_rune_length)

declare strip_runes.simps [simp del]

text \<open>\<open>strings.TrimSpace\<close>.\<close>

definition trim_space :: "string \<Rightarrow> string" where
  "trim_space s = rev (strip_runes (map rev space_runes) (rev (strip_runes space_runes s)))"

definition is_space_byte :: "char \<Rightarrow> bool" where
  "is_space_byte c \<longleftrightarrow> byte c \<in> {9 .. 13} \<or> byte c = 32 \<or> 128 \<le> byte c"

lemma space_runes_bytes: "r \<in> set space_runes \<Longrightarrow> r \<noteq> [] \<and> list_all is_space_byte r"
  by (auto simp: space_runes_def is_space_byte_def byte_def take_bit_eq_mod)

lemma strip_runes_plain:
  assumes "\<And>r. r \<in> set rs \<Longrightarrow> r \<noteq> [] \<and> list_all is_space_byte r" and "s = [] \<or> \<not> is_space_byte (hd s)"
  shows "strip_runes rs s = s"
proof -
  have "take (length r) s \<noteq> r" if "r \<in> set rs" for r
    using assms(1) [OF that] assms(2) by (cases r; cases s) auto
  then have "strip_rune rs s = None" by (auto simp: strip_rune_def find_None_iff)
  then show ?thesis by (subst strip_runes.simps) simp
qed

text \<open>A text that starts and ends with an ASCII byte other than space has nothing to trim.\<close>

lemma trim_space_plain:
  assumes "s = [] \<or> \<not> is_space_byte (hd s) \<and> \<not> is_space_byte (last s)"
  shows "trim_space s = s"
proof -
  have "strip_runes space_runes s = s"
    by (rule strip_runes_plain) (use space_runes_bytes assms in auto)
  moreover have "strip_runes (map rev space_runes) (rev s) = rev s"
    by (rule strip_runes_plain) (use space_runes_bytes assms in \<open>auto simp: list_all_iff hd_rev\<close>)
  ultimately show ?thesis by (simp add: trim_space_def)
qed

lemma trim_space_empty [simp]: "trim_space [] = []"
  by (rule trim_space_plain) simp

text \<open>Trimming is idempotent, and an ASCII text that is trimmed is plain.\<close>

lemma strip_runes_done: "strip_rune rs (strip_runes rs s) = None"
proof (induction rs s rule: strip_runes.induct)
  case (1 rs s)
  then show ?case by (subst strip_runes.simps) (auto split: option.splits)
qed

lemma strip_runes_suffix: "\<exists>p. s = p @ strip_runes rs s"
proof (induction rs s rule: strip_runes.induct)
  case (1 rs s)
  show ?case
  proof (cases "strip_rune rs s")
    case (Some t)
    then have "\<exists>n. t = drop n s" by (auto simp: strip_rune_def)
    moreover obtain p where "t = p @ strip_runes rs t" using 1 Some by blast
    ultimately have "\<exists>p. s = p @ strip_runes rs t" by (metis append_assoc append_take_drop_id)
    with Some show ?thesis by (subst strip_runes.simps) simp
  qed (subst strip_runes.simps, simp)
qed

lemma strip_rune_prefix: "strip_rune rs (s @ t) = None \<Longrightarrow> strip_rune rs s = None"
proof -
  assume a: "strip_rune rs (s @ t) = None"
  have "take (length r) s \<noteq> r" if "r \<in> set rs" "r \<noteq> []" for r
  proof
    assume "take (length r) s = r"
    then have "take (length r) (s @ t) = r" by (metis append_eq_append_conv2 length_take min_def take_all_iff take_append append_Nil2 diff_is_0_eq' nat_le_linear take0)
    then show False using a that by (auto simp: strip_rune_def find_None_iff)
  qed
  then show ?thesis by (auto simp: strip_rune_def find_None_iff)
qed

lemma trim_space_ends:
  "strip_rune space_runes (trim_space s) = None \<and> strip_rune (map rev space_runes) (rev (trim_space s)) = None"
proof -
  define l where "l = strip_runes space_runes s"
  obtain p where "rev l = p @ strip_runes (map rev space_runes) (rev l)" using strip_runes_suffix by blast
  then have "l = trim_space s @ rev p" unfolding trim_space_def l_def by (metis rev_append rev_rev_ident)
  moreover have "strip_rune space_runes l = None" by (simp add: l_def strip_runes_done)
  ultimately show ?thesis
    using strip_rune_prefix [of space_runes "trim_space s"] by (simp add: trim_space_def strip_runes_done)
qed

lemma trim_space_idem [simp]: "trim_space (trim_space s) = trim_space s"
proof -
  have keep: "strip_rune rs t = None \<Longrightarrow> strip_runes rs t = t" for rs t by (subst strip_runes.simps) simp
  show ?thesis
    by (subst (1) trim_space_def) (simp add: keep trim_space_ends)
qed

lemma trim_space_part: "set (trim_space s) \<subseteq> set s"
proof -
  have sub: "set (strip_runes rs t) \<subseteq> set t" for rs t
    using strip_runes_suffix [of t rs] by (metis set_append sup.cobounded2)
  show ?thesis
    using sub [of "map rev space_runes" "rev (strip_runes space_runes s)"] sub [of space_runes s]
    by (simp add: trim_space_def)
qed

lemma trimmed_ascii_plain:
  assumes "trim_space s = s" and "list_all is_ascii s" and "s \<noteq> []"
  shows "\<not> is_space_byte (hd s) \<and> \<not> is_space_byte (last s)"
proof -
  have byte_eq: "[c] \<in> set space_runes" if "is_space_byte c" "is_ascii c" for c
  proof -
    have "byte c \<in> {9, 10, 11, 12, 13, 32}" using that by (auto simp: is_space_byte_def is_ascii_def)
    then have "c \<in> char_of ` {9, 10, 11, 12, 13, 32 :: nat}" unfolding byte_def by (metis char_of_char image_eqI)
    then show ?thesis by (auto simp: space_runes_def)
  qed
  have none: "[hd t] \<notin> set rs" if "strip_rune rs t = None" "t \<noteq> []" for rs t
    using that by (cases t) (auto simp: strip_rune_def find_None_iff)
  have "[hd s] \<notin> set space_runes" "[hd (rev s)] \<notin> set (map rev space_runes)"
    using trim_space_ends [of s] assms(1,3) none [of _ s] none [of _ "rev s"] by (simp, metis rev_is_Nil_conv)
  moreover have "is_ascii (hd s)" "is_ascii (last s)"
    using assms(2,3) by (auto simp: list_all_iff)
  moreover have "[last s] \<in> set (map rev space_runes)" if "[last s] \<in> set space_runes"
    using image_eqI [of "[last s]" rev "[last s]"] that by simp
  ultimately show ?thesis using byte_eq assms(3) by (metis hd_rev)
qed

text \<open>\<open>strings.Contains\<close> of one byte, \<open>strings.Cut\<close> and \<open>strings.Split\<close> at one byte.\<close>

definition contains_byte :: "char \<Rightarrow> string \<Rightarrow> bool" where
  "contains_byte c s \<longleftrightarrow> c \<in> set s"

definition cut :: "char \<Rightarrow> string \<Rightarrow> string \<times> string" where
  "cut c s = (takeWhile (\<lambda>x. x \<noteq> c) s, tl (dropWhile (\<lambda>x. x \<noteq> c) s))"

fun split :: "char \<Rightarrow> string \<Rightarrow> string list" where
  "split c [] = [[]]"
| "split c (x # xs) =
     (if x = c then [] # split c xs
      else (case split c xs of [] \<Rightarrow> [[x]] | p # ps \<Rightarrow> (x # p) # ps))"

lemma split_nonempty [simp]: "split c s \<noteq> []"
  by (induction s) (auto split: list.splits)

section \<open>Numbers and digests\<close>

text \<open>\<open>strconv.Atoi\<close> on the 64-bit target: an optional sign, then decimal digits only.\<close>

definition digit_val :: "char \<Rightarrow> int" where
  "digit_val c = int (byte c) - 48"

definition digits_val :: "string \<Rightarrow> int" where
  "digits_val s = foldl (\<lambda>n c. 10 * n + digit_val c) 0 s"

definition atoi :: "string \<Rightarrow> int option" where
  "atoi s =
     (let neg = (s \<noteq> [] \<and> hd s = CHR ''-'');
          ds = (if s \<noteq> [] \<and> (hd s = CHR ''-'' \<or> hd s = CHR ''+'') then tl s else s);
          n = (if neg then - digits_val ds else digits_val ds)
      in if ds \<noteq> [] \<and> list_all is_digit ds \<and> int64_range n then Some n else None)"

text \<open>\<open>hex.EncodeToString\<close>.\<close>

definition hex_digit :: "nat \<Rightarrow> char" where
  "hex_digit n = (if n < 10 then char_of (48 + n) else char_of (87 + n))"

definition hex_encode :: "string \<Rightarrow> string" where
  "hex_encode s = concat (map (\<lambda>c. [hex_digit (byte c div 16), hex_digit (byte c mod 16)]) s)"

end
