(* ===== verification/Cache_Policy.thy ===== *)
theory Cache_Policy
  imports Go_Lib
begin

text \<open>
  Package \<open>internal/cache\<close>: the cache record, the policy knobs with their defaults, and the two
  predicates of \<open>state.go\<close> that select keys for background revalidation. A \<open>float64\<close> is an
  exact rational or one of the three special values.
\<close>

datatype float64 = Finite rat | Pos_Inf | Neg_Inf | Not_A_Number

text \<open>
  Multiplication by a positive power of two (exact unless it overflows) and the conversion to
  \<open>int64\<close>, which truncates towards zero. Go leaves the result for a value out of range to the
  implementation: the model is that of amd64, where it is the least \<open>int64\<close> (arm64 saturates instead).
\<close>

definition float_scale :: "float64 \<Rightarrow> nat \<Rightarrow> float64" where
  "float_scale x n = (case x of Finite q \<Rightarrow> Finite (q * 2 ^ n) | y \<Rightarrow> y)"

definition rat_trunc :: "rat \<Rightarrow> int" where
  "rat_trunc q = (if q < 0 then - \<lfloor>- q\<rfloor> else \<lfloor>q\<rfloor>)"

definition float_to_int64 :: "float64 \<Rightarrow> int" where
  "float_to_int64 x =
     (case x of Finite q \<Rightarrow> if int64_range (rat_trunc q) then rat_trunc q else - (2 ^ 63)
      | _ \<Rightarrow> - (2 ^ 63))"

section \<open>Record and policy\<close>

record cache_record =
  payload :: string
  etag :: string
  rec_url :: string
  fetched_at :: time
  last_hit_at :: time
  last_checked_at :: time
  expires_at :: time
  source_status :: int

definition empty_record :: cache_record where
  "empty_record = \<lparr>payload = [], etag = [], rec_url = [], fetched_at = 0, last_hit_at = 0,
     last_checked_at = 0, expires_at = 0, source_status = 0\<rparr>"

text \<open>What \<open>CacheStore.Get\<close> returns: the record, the hit flag and an error.\<close>

type_synonym lookup_result = "cache_record \<times> bool \<times> string option"

record policy =
  hard_ttl :: duration
  negative_ttl :: duration
  revalidate_interval :: duration
  revalidate_lookback :: duration
  revalidate_workers :: int
  revalidate_per_worker_rps :: int
  refresh_queue_size :: int
  l1_max_gb :: float64
  max_upstream_response_bytes :: int
  shutdown_timeout :: duration

definition default_policy :: policy where
  "default_policy = \<lparr>hard_ttl = 24 * hour, negative_ttl = 5 * minute,
     revalidate_interval = minute, revalidate_lookback = 7 * 24 * hour,
     revalidate_workers = 2, revalidate_per_worker_rps = 1, refresh_queue_size = 256,
     l1_max_gb = Finite 1, max_upstream_response_bytes = 10 * 1024 * 1024,
     shutdown_timeout = 2 * second\<rparr>"

section \<open>Revalidation state\<close>

definition is_revalidation_eligible :: "time \<Rightarrow> time \<Rightarrow> duration \<Rightarrow> bool" where
  "is_revalidation_eligible last_hit now lookback \<longleftrightarrow>
     \<not> time_before last_hit (time_add now (- lookback))"

definition is_revalidation_due :: "time \<Rightarrow> time \<Rightarrow> duration \<Rightarrow> bool" where
  "is_revalidation_due last_checked now interval \<longleftrightarrow>
     \<not> time_after (time_add last_checked interval) now"

text \<open>Both predicates compare the age of an instant with a window.\<close>

lemma due_iff_age: "is_revalidation_due t now i \<longleftrightarrow> i \<le> now - t"
  by (auto simp: is_revalidation_due_def)

lemma eligible_iff_age: "is_revalidation_eligible t now l \<longleftrightarrow> now - t \<le> l"
  by (auto simp: is_revalidation_eligible_def)

end
