(* ===== verification/L1_Cache.thy ===== *)
theory L1_Cache
  imports Cache_Policy
begin

text \<open>
  Package \<open>internal/cache/l1\<close>: the byte-bounded LRU cache (\<open>cache.go\<close>) and the adapter that the
  service sees (\<open>store.go\<close>), with an abstract LRU list as its specification and the interface
  \<open>bounded_store\<close> that clients rely on. The operations hold the cache's mutex from the first
  read to the last write, so each is one atomic step.
\<close>

section \<open>State\<close>

text \<open>
  \<open>recency\<close> is the \<open>container/list\<close> of the code, front first. A list element is a pointer
  identity (a number, allocated from \<open>l1_next\<close>) and its value; the code pushes keys only, so the
  type assertion on the value always succeeds.
\<close>

record l1_entry =
  entry_record :: cache_record
  entry_size :: int
  entry_element :: nat

record l1_cache =
  l1_entries :: "(string, l1_entry) fmap"
  l1_recency :: "(nat \<times> string) list"
  l1_next :: nat
  l1_usage :: int
  l1_max :: int

definition record_metadata_overhead_bytes :: int where
  "record_metadata_overhead_bytes = 256"

definition default_usage_bytes :: int where
  "default_usage_bytes = float_to_int64 (float_scale (l1_max_gb default_policy) 30)"

definition new_cache_with_max_bytes :: "int \<Rightarrow> l1_cache" where
  "new_cache_with_max_bytes max_bytes =
     \<lparr>l1_entries = fmempty, l1_recency = [], l1_next = 0, l1_usage = 0,
      l1_max = (if max_bytes \<le> 0 then default_usage_bytes else max_bytes)\<rparr>"

definition new_cache_with_max_gb :: "float64 \<Rightarrow> l1_cache" where
  "new_cache_with_max_gb max_gb = new_cache_with_max_bytes (float_to_int64 (float_scale max_gb 30))"

definition new_cache :: l1_cache where
  "new_cache = new_cache_with_max_gb (l1_max_gb default_policy)"

section \<open>Operations\<close>

text \<open>\<open>cloneRecord\<close> copies the payload; values are immutable in the model.\<close>

definition clone_record :: "cache_record \<Rightarrow> cache_record" where
  "clone_record r = r\<lparr>payload := [] @ payload r\<rparr>"

definition estimate_entry_usage :: "string \<Rightarrow> cache_record \<Rightarrow> int" where
  "estimate_entry_usage key r =
     int (length key + length (payload r) + length (etag r) + length (rec_url r)) +
     record_metadata_overhead_bytes"

definition move_to_front :: "nat \<Rightarrow> (nat \<times> string) list \<Rightarrow> (nat \<times> string) list" where
  "move_to_front i xs =
     (case find (\<lambda>x. fst x = i) xs of
        None \<Rightarrow> xs
      | Some x \<Rightarrow> x # filter (\<lambda>y. fst y \<noteq> i) xs)"

definition cache_get :: "l1_cache option \<Rightarrow> string \<Rightarrow> (cache_record \<times> bool) \<times> l1_cache option" where
  "cache_get c key =
     (case c of
        None \<Rightarrow> ((empty_record, False), c)
      | Some s \<Rightarrow>
          if key = [] then ((empty_record, False), c)
          else (case fmlookup (l1_entries s) key of
                  None \<Rightarrow> ((empty_record, False), c)
                | Some stored \<Rightarrow>
                    ((clone_record (entry_record stored), True),
                     Some (s\<lparr>l1_recency := move_to_front (entry_element stored) (l1_recency s)\<rparr>))))"

definition cache_get_readonly :: "l1_cache option \<Rightarrow> string \<Rightarrow> (cache_record \<times> bool) \<times> l1_cache option" where
  "cache_get_readonly c key =
     (case c of
        None \<Rightarrow> ((empty_record, False), c)
      | Some s \<Rightarrow>
          if key = [] then ((empty_record, False), c)
          else (case fmlookup (l1_entries s) key of
                  None \<Rightarrow> ((empty_record, False), c)
                | Some stored \<Rightarrow>
                    ((entry_record stored, True),
                     Some (s\<lparr>l1_recency := move_to_front (entry_element stored) (l1_recency s)\<rparr>))))"

text \<open>
  \<open>evictToBudgetLocked\<close>: the loop removes the back of the list until the usage fits or the list
  is empty.
\<close>

function evict_to_budget :: "l1_cache \<Rightarrow> l1_cache" where
  "evict_to_budget s =
     (if l1_usage s > l1_max s \<and> l1_recency s \<noteq> [] then
        (let key = snd (last (l1_recency s));
             s1 = s\<lparr>l1_recency := butlast (l1_recency s)\<rparr>
         in (case fmlookup (l1_entries s1) key of
               None \<Rightarrow> evict_to_budget s1
             | Some existing \<Rightarrow>
                 (let u = l1_usage s1 - entry_size existing
                  in evict_to_budget
                       (s1\<lparr>l1_entries := fmdrop key (l1_entries s1),
                           l1_usage := (if u < 0 then 0 else u)\<rparr>))))
      else s)"
  by pat_completeness auto
termination
  by (relation "measure (\<lambda>s. length (l1_recency s))") auto

declare evict_to_budget.simps [simp del]

definition cache_set :: "l1_cache option \<Rightarrow> string \<Rightarrow> cache_record \<Rightarrow> l1_cache option" where
  "cache_set c key r =
     (case c of
        None \<Rightarrow> None
      | Some s \<Rightarrow>
          if key = [] then c
          else
            (let cloned = clone_record r;
                 size = estimate_entry_usage key cloned
             in (case fmlookup (l1_entries s) key of
                   Some existing \<Rightarrow>
                     Some (evict_to_budget
                       (s\<lparr>l1_usage := l1_usage s - entry_size existing + size,
                          l1_entries := fmupd key
                            (existing\<lparr>entry_record := cloned, entry_size := size\<rparr>) (l1_entries s),
                          l1_recency := move_to_front (entry_element existing) (l1_recency s)\<rparr>))
                 | None \<Rightarrow>
                     Some (evict_to_budget
                       (s\<lparr>l1_recency := (l1_next s, key) # l1_recency s,
                          l1_next := Suc (l1_next s),
                          l1_entries := fmupd key
                            \<lparr>entry_record = cloned, entry_size = size, entry_element = l1_next s\<rparr>
                            (l1_entries s),
                          l1_usage := l1_usage s + size\<rparr>)))))"

definition estimated_usage_bytes :: "l1_cache option \<Rightarrow> int" where
  "estimated_usage_bytes c = (case c of None \<Rightarrow> 0 | Some s \<Rightarrow> l1_usage s)"

definition cache_len :: "l1_cache option \<Rightarrow> nat" where
  "cache_len c = (case c of None \<Rightarrow> 0 | Some s \<Rightarrow> fmsize (l1_entries s))"

section \<open>The store adapter\<close>

text \<open>
  A store is a pointer to a struct that holds a cache pointer: \<open>None\<close> for the nil store,
  \<open>Some None\<close> for a store over a nil cache. Each method returns the record, the hit flag and a
  nil error.
\<close>

type_synonym l1_store = "l1_cache option option"

definition new_store :: "l1_cache option \<Rightarrow> l1_store" where
  "new_store c = Some c"

definition store_get :: "l1_store \<Rightarrow> string \<Rightarrow> lookup_result \<times> l1_store" where
  "store_get s key =
     (case s of
        None \<Rightarrow> ((empty_record, False, None), s)
      | Some None \<Rightarrow> ((empty_record, False, None), s)
      | Some c \<Rightarrow> (case cache_get c key of ((r, hit), c') \<Rightarrow> ((r, hit, None), Some c')))"

definition store_get_readonly :: "l1_store \<Rightarrow> string \<Rightarrow> lookup_result \<times> l1_store" where
  "store_get_readonly s key =
     (case s of
        None \<Rightarrow> ((empty_record, False, None), s)
      | Some None \<Rightarrow> ((empty_record, False, None), s)
      | Some c \<Rightarrow> (case cache_get_readonly c key of ((r, hit), c') \<Rightarrow> ((r, hit, None), Some c')))"

definition store_set :: "l1_store \<Rightarrow> string \<Rightarrow> cache_record \<Rightarrow> (bool \<times> string option) \<times> l1_store" where
  "store_set s key r =
     (case s of
        None \<Rightarrow> ((False, None), s)
      | Some None \<Rightarrow> ((False, None), s)
      | Some c \<Rightarrow> ((True, None), Some (cache_set c key r)))"

end
