(* ===== verification/Store_Interface.thy ===== *)
theory Store_Interface
  imports Cache_Policy
begin

text \<open>
  The interface \<open>CacheStore\<close> of the version service as a contract. A store may forget any key at
  any time it is written (eviction), but never invents a record and never mixes up keys. What its
  clients conclude from that about every sequence of calls is proved here once.
\<close>

section \<open>Calls\<close>

datatype store_call = CallGet string | CallSet string cache_record

fun run_calls ::
  "('s \<Rightarrow> string \<Rightarrow> lookup_result \<times> 's) \<Rightarrow>
   ('s \<Rightarrow> string \<Rightarrow> cache_record \<Rightarrow> (bool \<times> string option) \<times> 's) \<Rightarrow>
   's \<Rightarrow> store_call list \<Rightarrow> 's" where
  "run_calls get put s [] = s"
| "run_calls get put s (CallGet k # cs) = run_calls get put (snd (get s k)) cs"
| "run_calls get put s (CallSet k r # cs) = run_calls get put (snd (put s k r)) cs"

text \<open>The record most recently written under a key, if any call wrote it.\<close>

fun last_written :: "store_call list \<Rightarrow> string \<Rightarrow> cache_record option \<Rightarrow> cache_record option" where
  "last_written [] k old = old"
| "last_written (CallGet k' # cs) k old = last_written cs k old"
| "last_written (CallSet k' r # cs) k old = last_written cs k (if k' = k then Some r else old)"

lemma last_written_old:
  "(\<forall>old. last_written cs k old = old) \<or> (\<exists>r. \<forall>old. last_written cs k old = Some r)"
proof (induction cs)
  case (Cons c cs)
  then show ?case by (cases c) auto
qed simp

section \<open>The contract\<close>

locale bounded_store =
  fixes get :: "'s \<Rightarrow> string \<Rightarrow> lookup_result \<times> 's"
    and put :: "'s \<Rightarrow> string \<Rightarrow> cache_record \<Rightarrow> (bool \<times> string option) \<times> 's"
    and peek :: "'s \<Rightarrow> string \<Rightarrow> cache_record option"
    and inv :: "'s \<Rightarrow> bool"
  assumes get_inv: "inv s \<Longrightarrow> inv (snd (get s k))"
    and set_inv: "inv s \<Longrightarrow> inv (snd (put s k r))"
    and get_result: "inv s \<Longrightarrow> fst (get s k) =
      (case peek s k of None \<Rightarrow> (empty_record, False, None) | Some r \<Rightarrow> (r, True, None))"
    and get_peek: "inv s \<Longrightarrow> peek (snd (get s k)) = peek s"
    and set_peek: "inv s \<Longrightarrow>
      peek (snd (put s k r)) k' \<in> {None, if k' = k then Some r else peek s k'}"
begin

lemma run_inv: "inv s \<Longrightarrow> inv (run_calls get put s cs)"
proof (induction cs arbitrary: s)
  case (Cons c cs)
  then show ?case by (cases c) (auto simp: get_inv set_inv)
qed simp

lemma run_peek: "inv s \<Longrightarrow> peek (run_calls get put s cs) k \<in> {None, last_written cs k (peek s k)}"
proof (induction cs arbitrary: s)
  case (Cons c cs)
  show ?case
  proof (cases c)
    case (CallGet k')
    then show ?thesis
      using Cons.IH [of "snd (get s k')"] Cons.prems by (simp add: get_inv get_peek)
  next
    case (CallSet k' r)
    have new: "peek (snd (put s k' r)) k \<in> {None, if k = k' then Some r else peek s k}"
      using Cons.prems by (rule set_peek)
    have IH: "peek (run_calls get put (snd (put s k' r)) cs) k \<in>
        {None, last_written cs k (peek (snd (put s k' r)) k)}"
      using Cons.prems by (intro Cons.IH set_inv)
    show ?thesis
      using new IH last_written_old [of cs k] CallSet by (auto split: if_splits)
  qed
qed simp

end

text \<open>A store that keeps what it is given when it fits.\<close>

locale capacity_store = bounded_store +
  fixes fits :: "'s \<Rightarrow> string \<Rightarrow> cache_record \<Rightarrow> bool"
  assumes get_fits: "inv s \<Longrightarrow> fits (snd (get s k)) = fits s"
    and set_fits: "inv s \<Longrightarrow> fits (snd (put s k r)) = fits s"
    and set_keeps: "inv s \<Longrightarrow> k \<noteq> [] \<Longrightarrow> fits s k r \<Longrightarrow> peek (snd (put s k r)) k = Some r"
begin

lemma read_back: "inv s \<Longrightarrow> k \<noteq> [] \<Longrightarrow> fits s k r \<Longrightarrow>
    fst (get (snd (put s k r)) k) = (r, True, None)"
  by (simp add: get_result set_inv set_keeps)

end

end
