(* ===== verification/L1_Lru.thy ===== *)
theory L1_Lru
  imports L1_Cache Store_Interface
begin

text \<open>
  Correctness of the L1 cache: its representation invariant, the abstract LRU list it refines,
  and the effect of each operation on the keys, the records and the usage.
\<close>

section \<open>Representation invariant\<close>

definition lru_keys :: "l1_cache \<Rightarrow> string list" where
  "lru_keys s = map snd (l1_recency s)"

definition record_of :: "l1_cache \<Rightarrow> string \<Rightarrow> cache_record option" where
  "record_of s k = map_option entry_record (fmlookup (l1_entries s) k)"

definition size_of :: "l1_cache \<Rightarrow> string \<Rightarrow> int" where
  "size_of s k = (case fmlookup (l1_entries s) k of None \<Rightarrow> 0 | Some e \<Rightarrow> entry_size e)"

definition l1_wf :: "l1_cache \<Rightarrow> bool" where
  "l1_wf s \<longleftrightarrow>
     distinct (map fst (l1_recency s)) \<and> distinct (lru_keys s) \<and>
     set (lru_keys s) = fset (fmdom (l1_entries s)) \<and>
     (\<forall>k e. fmlookup (l1_entries s) k = Some e \<longrightarrow>
        (entry_element e, k) \<in> set (l1_recency s) \<and>
        entry_size e = estimate_entry_usage k (entry_record e) \<and> k \<noteq> []) \<and>
     (\<forall>x \<in> set (l1_recency s). fst x < l1_next s) \<and>
     l1_usage s = sum_list (map (size_of s) (lru_keys s))"

definition l1_inv :: "l1_cache \<Rightarrow> bool" where
  "l1_inv s \<longleftrightarrow> l1_wf s \<and> l1_usage s \<le> l1_max s \<and> 0 < l1_max s"

lemma wf_distinct_keys: "l1_wf s \<Longrightarrow> distinct (map snd (l1_recency s))"
  unfolding l1_wf_def lru_keys_def by blast

lemma estimate_pos: "0 < estimate_entry_usage k r"
  by (simp add: estimate_entry_usage_def record_metadata_overhead_bytes_def)

lemma clone_record_id [simp]: "clone_record r = r"
  by (simp add: clone_record_def)

lemma record_of_dom: "l1_wf s \<Longrightarrow> record_of s k \<noteq> None \<longleftrightarrow> k \<in> set (lru_keys s)"
  by (auto simp: l1_wf_def record_of_def fmlookup_dom_iff)

lemma record_of_None: "l1_wf s \<Longrightarrow> record_of s k = None \<longleftrightarrow> k \<notin> set (lru_keys s)"
  using record_of_dom by blast

lemma size_of_record: "l1_wf s \<Longrightarrow>
    size_of s k = (case record_of s k of None \<Rightarrow> 0 | Some r \<Rightarrow> estimate_entry_usage k r)"
  by (auto simp: l1_wf_def record_of_def size_of_def split: option.splits)

lemma size_of_nonneg: "l1_wf s \<Longrightarrow> 0 \<le> size_of s k"
  by (auto simp: size_of_record less_imp_le [OF estimate_pos] split: option.splits)

lemma size_of_key: "l1_wf s \<Longrightarrow> k \<in> set (lru_keys s) \<Longrightarrow> 0 < size_of s k"
  using record_of_dom [of s k] by (auto simp: size_of_record estimate_pos split: option.splits)

lemma usage_nonneg: "l1_wf s \<Longrightarrow> 0 \<le> l1_usage s"
  by (auto simp: l1_wf_def size_of_nonneg intro!: sum_list_nonneg)

lemma cache_len_keys: "l1_wf s \<Longrightarrow> cache_len (Some s) = length (lru_keys s)"
  by (simp add: cache_len_def l1_wf_def fmsize_distinct)

section \<open>Moving to the front\<close>

lemma move_to_front_pair:
  assumes "(i, k) \<in> set xs" and "distinct (map fst xs)" and "distinct (map snd xs)"
  shows "move_to_front i xs = (i, k) # filter (\<lambda>y. snd y \<noteq> k) xs"
proof -
  have same: "fst y = i \<longleftrightarrow> snd y = k" if "y \<in> set xs" for y
    using that assms by (metis eq_key_imp_eq_value prod.collapse distinct_map inj_on_def fst_conv snd_conv)
  have "find (\<lambda>x. fst x = i) xs = Some (i, k)"
  proof (cases "find (\<lambda>x. fst x = i) xs")
    case None
    with assms(1) show ?thesis by (force simp: find_None_iff)
  next
    case (Some x)
    then have "x \<in> set xs" "fst x = i" by (auto simp: find_Some_iff)
    with same [of x] Some show ?thesis by (metis prod.collapse)
  qed
  moreover have "filter (\<lambda>y. fst y \<noteq> i) xs = filter (\<lambda>y. snd y \<noteq> k) xs"
    by (rule filter_cong) (simp_all add: same)
  ultimately show ?thesis by (simp add: move_to_front_def)
qed

lemma map_snd_filter: "map snd (filter (\<lambda>y. snd y \<noteq> k) xs) = removeAll k (map snd xs)"
  by (induction xs) auto

lemma distinct_fst_filter: "distinct (map fst xs) \<Longrightarrow> distinct (map fst (filter P xs))"
  by (induction xs) auto

lemma wf_entry:
  assumes "l1_wf s" and "fmlookup (l1_entries s) k = Some e"
  shows "move_to_front (entry_element e) (l1_recency s)
           = (entry_element e, k) # filter (\<lambda>y. snd y \<noteq> k) (l1_recency s)"
    and "k \<in> set (lru_keys s)"
proof -
  from assms show "move_to_front (entry_element e) (l1_recency s)
           = (entry_element e, k) # filter (\<lambda>y. snd y \<noteq> k) (l1_recency s)"
    by (intro move_to_front_pair) (auto simp: l1_wf_def lru_keys_def)
  from assms show "k \<in> set (lru_keys s)"
    by (auto simp: l1_wf_def fmlookup_dom_iff)
qed

text \<open>A hit only reorders the recency list.\<close>

definition touch :: "l1_cache \<Rightarrow> string \<Rightarrow> l1_cache" where
  "touch s k = (case fmlookup (l1_entries s) k of
      None \<Rightarrow> s
    | Some e \<Rightarrow> s\<lparr>l1_recency := move_to_front (entry_element e) (l1_recency s)\<rparr>)"

lemma touch_entries [simp]: "l1_entries (touch s k) = l1_entries s"
  and touch_usage [simp]: "l1_usage (touch s k) = l1_usage s"
  and touch_max [simp]: "l1_max (touch s k) = l1_max s"
  by (simp_all add: touch_def split: option.splits)

lemma touch_record [simp]: "record_of (touch s k) = record_of s"
  by (rule ext) (simp add: record_of_def)

lemma touch_keys:
  "l1_wf s \<Longrightarrow> lru_keys (touch s k) =
     (if k \<in> set (lru_keys s) then to_front k (lru_keys s) else lru_keys s)"
  by (auto simp: touch_def lru_keys_def wf_entry(1) map_snd_filter to_front_def l1_wf_def
      fmlookup_dom_iff split: option.splits)

lemma sum_to_front:
  fixes f :: "'a \<Rightarrow> int"
  shows "x \<in> set xs \<Longrightarrow> distinct xs \<Longrightarrow> sum_list (map f (to_front x xs)) = sum_list (map f xs)"
  by (simp add: to_front_def sum_list_remove)

lemma touch_wf:
  assumes wf: "l1_wf s"
  shows "l1_wf (touch s k)"
proof (cases "fmlookup (l1_entries s) k")
  case None
  with wf show ?thesis by (simp add: touch_def)
next
  case (Some e)
  have k: "k \<in> set (lru_keys s)" by (rule wf_entry(2) [OF wf Some])
  have rec: "l1_recency (touch s k) = (entry_element e, k) # filter (\<lambda>y. snd y \<noteq> k) (l1_recency s)"
    using Some by (simp add: touch_def wf_entry(1) [OF wf])
  have keys: "lru_keys (touch s k) = to_front k (lru_keys s)"
    using k by (simp add: touch_keys wf)
  have size: "size_of (touch s k) = size_of s"
    by (rule ext) (simp add: size_of_def)
  have mem: "(entry_element e, k) \<in> set (l1_recency s)"
    using wf Some by (simp add: l1_wf_def)
  have fst_in: "entry_element e \<notin> fst ` set (filter (\<lambda>y. snd y \<noteq> k) (l1_recency s))"
    using wf mem eq_key_imp_eq_value by (fastforce simp: l1_wf_def)
  have uniq: "y = (entry_element e, k)" if "y \<in> set (l1_recency s)" and "snd y = k" for y
    by (rule distinct_map_unique [OF wf_distinct_keys [OF wf]]) (simp_all add: that mem)
  have "set (l1_recency (touch s k)) = set (l1_recency s)"
    using mem unfolding rec by (auto dest: uniq)
  moreover have "l1_next (touch s k) = l1_next s"
    by (simp add: touch_def split: option.splits)
  ultimately show ?thesis
    using wf k fst_in by (auto simp: l1_wf_def keys size rec distinct_fst_filter sum_to_front)
qed

lemma cache_get_some:
  "cache_get (Some s) k =
     (if k = [] then ((empty_record, False), Some s)
      else (case record_of s k of
              None \<Rightarrow> ((empty_record, False), Some s)
            | Some r \<Rightarrow> ((r, True), Some (touch s k))))"
  by (auto simp: cache_get_def record_of_def touch_def split: option.splits)

lemma cache_get_readonly_eq: "cache_get_readonly = cache_get"
  by (intro ext) (simp add: cache_get_def cache_get_readonly_def split: option.splits)

section \<open>Upsert and eviction\<close>

text \<open>The state \<open>Set\<close> reaches before the eviction loop, on both of its branches.\<close>

definition upsert :: "l1_cache \<Rightarrow> string \<Rightarrow> cache_record \<Rightarrow> l1_cache" where
  "upsert s k r =
     (case fmlookup (l1_entries s) k of
        Some e \<Rightarrow>
          touch (s\<lparr>l1_usage := l1_usage s - entry_size e + estimate_entry_usage k r,
                   l1_entries := fmupd k
                     (e\<lparr>entry_record := r, entry_size := estimate_entry_usage k r\<rparr>) (l1_entries s)\<rparr>) k
      | None \<Rightarrow>
          s\<lparr>l1_recency := (l1_next s, k) # l1_recency s,
            l1_next := Suc (l1_next s),
            l1_entries := fmupd k \<lparr>entry_record = r, entry_size = estimate_entry_usage k r,
                                   entry_element = l1_next s\<rparr> (l1_entries s),
            l1_usage := l1_usage s + estimate_entry_usage k r\<rparr>)"

lemma cache_set_some:
  "k \<noteq> [] \<Longrightarrow> cache_set (Some s) k r = Some (evict_to_budget (upsert s k r))"
  by (simp add: cache_set_def upsert_def touch_def Let_def split: option.splits)

lemma upsert_record: "record_of (upsert s k r) = (record_of s)(k := Some r)"
  by (rule ext) (simp add: upsert_def record_of_def split: option.splits)

lemma upsert_max [simp]: "l1_max (upsert s k r) = l1_max s"
  by (simp add: upsert_def split: option.splits)

lemma upsert_usage:
  "l1_usage (upsert s k r) = l1_usage s - size_of s k + estimate_entry_usage k r"
  by (simp add: upsert_def size_of_def split: option.splits)

lemma upsert_wf_keys:
  assumes wf: "l1_wf s" and k: "k \<noteq> []"
  shows "l1_wf (upsert s k r) \<and> lru_keys (upsert s k r) = to_front k (lru_keys s)"
proof (cases "fmlookup (l1_entries s) k")
  case None
  then have new: "k \<notin> set (lru_keys s)" using wf by (auto simp: l1_wf_def fmlookup_dom_iff)
  have keys: "lru_keys (upsert s k r) = k # lru_keys s"
    using None by (simp add: upsert_def lru_keys_def)
  have size: "size_of (upsert s k r) k' = (if k' = k then estimate_entry_usage k r else size_of s k')"
    for k' using None by (simp add: upsert_def size_of_def)
  have sizes: "map (size_of (upsert s k r)) (lru_keys s) = map (size_of s) (lru_keys s)"
    using new by (auto simp: size)
  have "l1_usage (upsert s k r) = sum_list (map (size_of (upsert s k r)) (k # lru_keys s))"
    using None wf unfolding list.map sizes by (simp add: size) (simp add: upsert_def l1_wf_def)
  moreover have "distinct (map fst (l1_recency (upsert s k r)))"
    using None wf by (auto simp: upsert_def l1_wf_def)
  moreover have "\<forall>k' e. fmlookup (l1_entries (upsert s k r)) k' = Some e \<longrightarrow>
        (entry_element e, k') \<in> set (l1_recency (upsert s k r)) \<and>
        entry_size e = estimate_entry_usage k' (entry_record e) \<and> k' \<noteq> []"
    using None wf k by (auto simp: upsert_def l1_wf_def)
  moreover have "\<forall>x \<in> set (l1_recency (upsert s k r)). fst x < l1_next (upsert s k r)"
    using None wf by (auto simp: upsert_def l1_wf_def less_Suc_eq)
  moreover have "set (k # lru_keys s) = fset (fmdom (l1_entries (upsert s k r)))"
    using None wf by (simp add: upsert_def l1_wf_def)
  ultimately show ?thesis
    using wf new by (simp add: l1_wf_def keys to_front_def)
next
  case (Some e)
  define t where "t = s\<lparr>l1_usage := l1_usage s - entry_size e + estimate_entry_usage k r,
      l1_entries := fmupd k (e\<lparr>entry_record := r, entry_size := estimate_entry_usage k r\<rparr>)
        (l1_entries s)\<rparr>"
  have keys: "lru_keys t = lru_keys s" by (simp add: t_def lru_keys_def)
  have k_in: "k \<in> set (lru_keys s)" by (rule wf_entry(2) [OF wf Some])
  have size: "size_of t = (size_of s)(k := estimate_entry_usage k r)"
    by (rule ext) (simp add: t_def size_of_def)
  have "sum_list (map (size_of t) (lru_keys s)) =
        sum_list (map (size_of s) (lru_keys s)) - size_of s k + estimate_entry_usage k r"
    using k_in wf by (simp add: size sum_list_upd l1_wf_def)
  moreover have "size_of s k = entry_size e" using Some by (simp add: size_of_def)
  ultimately have "l1_wf t"
    using wf Some k_in k by (auto simp: l1_wf_def keys) (auto simp: t_def split: if_splits)
  moreover have "upsert s k r = touch t k" using Some by (simp add: upsert_def t_def)
  ultimately show ?thesis using k_in by (simp add: touch_wf touch_keys keys)
qed

lemmas upsert_wf = upsert_wf_keys [THEN conjunct1]
lemmas upsert_keys = upsert_wf_keys [THEN conjunct2]

text \<open>One turn of the eviction loop: the least recently used key leaves.\<close>

definition drop_back :: "l1_cache \<Rightarrow> l1_cache" where
  "drop_back s = (let k = snd (last (l1_recency s)) in
     s\<lparr>l1_recency := butlast (l1_recency s), l1_entries := fmdrop k (l1_entries s),
       l1_usage := l1_usage s - size_of s k\<rparr>)"

lemma drop_back_step:
  assumes wf: "l1_wf s" and keys: "lru_keys s = ks @ [k]"
  shows "l1_wf (drop_back s)" and "lru_keys (drop_back s) = ks"
    and "record_of (drop_back s) = (record_of s)(k := None)"
    and "l1_usage (drop_back s) = l1_usage s - size_of s k"
proof -
  from keys obtain xs i where rcy: "l1_recency s = xs @ [(i, k)]" and ks: "ks = map snd xs"
    by (auto simp: lru_keys_def map_eq_append_conv)
  have db: "drop_back s = s\<lparr>l1_recency := xs, l1_entries := fmdrop k (l1_entries s),
      l1_usage := l1_usage s - size_of s k\<rparr>"
    by (simp add: drop_back_def rcy)
  show keys': "lru_keys (drop_back s) = ks" by (simp add: db lru_keys_def ks)
  from db show "record_of (drop_back s) = (record_of s)(k := None)"
    by (auto simp: record_of_def)
  from db show usage: "l1_usage (drop_back s) = l1_usage s - size_of s k" by simp
  have nk: "k \<notin> set ks" using wf keys by (auto simp: l1_wf_def)
  have "size_of (drop_back s) = (size_of s)(k := 0)"
    by (auto simp: db size_of_def)
  then have "map (size_of (drop_back s)) ks = map (size_of s) ks" using nk by auto
  moreover have "l1_usage s = sum_list (map (size_of s) ks) + size_of s k"
    using wf keys by (simp add: l1_wf_def)
  ultimately have "l1_usage (drop_back s) = sum_list (map (size_of (drop_back s)) ks)"
    by (simp only: usage add_diff_cancel_right')
  moreover have "\<forall>k' e. fmlookup (l1_entries (drop_back s)) k' = Some e \<longrightarrow>
        (entry_element e, k') \<in> set (l1_recency (drop_back s)) \<and>
        entry_size e = estimate_entry_usage k' (entry_record e) \<and> k' \<noteq> []"
    using wf by (auto simp: db l1_wf_def rcy)
  moreover have "set ks = fset (fmdom (l1_entries (drop_back s)))"
    using wf nk keys by (auto simp: db l1_wf_def)
  ultimately show "l1_wf (drop_back s)"
    using wf nk keys by (simp add: l1_wf_def keys') (simp add: db rcy)
qed

section \<open>The abstract LRU list\<close>

text \<open>
  The specification: an association list, most recently used first. Trimming keeps the longest
  prefix whose weight fits the budget.
\<close>

type_synonym lru = "(string \<times> cache_record) list"

definition lru_weight :: "lru \<Rightarrow> int" where
  "lru_weight xs = sum_list (map (\<lambda>(k, r). estimate_entry_usage k r) xs)"

fun lru_trim :: "int \<Rightarrow> lru \<Rightarrow> lru" where
  "lru_trim m [] = []"
| "lru_trim m ((k, r) # xs) =
     (if estimate_entry_usage k r \<le> m
      then (k, r) # lru_trim (m - estimate_entry_usage k r) xs else [])"

definition lru_touch :: "string \<Rightarrow> lru \<Rightarrow> lru" where
  "lru_touch k xs =
     (case map_of xs k of None \<Rightarrow> xs | Some r \<Rightarrow> (k, r) # filter (\<lambda>x. fst x \<noteq> k) xs)"

definition lru_set :: "int \<Rightarrow> string \<Rightarrow> cache_record \<Rightarrow> lru \<Rightarrow> lru" where
  "lru_set m k r xs = lru_trim m ((k, r) # filter (\<lambda>x. fst x \<noteq> k) xs)"

lemma lru_weight_simps [simp]:
  "lru_weight [] = 0"
  "lru_weight ((k, r) # xs) = estimate_entry_usage k r + lru_weight xs"
  "lru_weight (xs @ ys) = lru_weight xs + lru_weight ys"
  by (simp_all add: lru_weight_def)

lemma lru_weight_nonneg: "0 \<le> lru_weight xs"
  by (induction xs) (auto simp: less_imp_le [OF estimate_pos] add_nonneg_nonneg)

lemma lru_trim_fits: "lru_weight xs \<le> m \<Longrightarrow> lru_trim m xs = xs"
proof (induction m xs rule: lru_trim.induct)
  case (2 m k r xs)
  then show ?case using lru_weight_nonneg [of xs] by simp
qed simp

lemma lru_trim_weight: "0 \<le> m \<Longrightarrow> lru_weight (lru_trim m xs) \<le> m"
  by (induction m xs rule: lru_trim.induct) auto

lemma lru_trim_snoc: "m < lru_weight (xs @ [x]) \<Longrightarrow> lru_trim m (xs @ [x]) = lru_trim m xs"
proof (induction m xs rule: lru_trim.induct)
  case (1 m)
  then show ?case by (cases x) simp
qed auto

lemma lru_trim_prefix: "\<exists>ys. xs = lru_trim m xs @ ys"
  by (induction m xs rule: lru_trim.induct) auto

lemma lru_trim_maximal:
  assumes "xs = ys @ zs" and "lru_weight ys \<le> m"
  shows "\<exists>ws. lru_trim m xs = ys @ ws"
  using assms
proof (induction m xs arbitrary: ys rule: lru_trim.induct)
  case (2 m k r xs)
  show ?case
  proof (cases ys)
    case (Cons y ys')
    with "2.prems" have "xs = ys' @ zs" "y = (k, r)" "lru_weight ys' \<le> m - estimate_entry_usage k r"
      "estimate_entry_usage k r \<le> m"
      using lru_weight_nonneg [of ys'] by auto
    with "2.IH" [of ys'] Cons show ?thesis by auto
  qed simp
qed simp

section \<open>Refinement\<close>

definition abs_cache :: "l1_cache \<Rightarrow> lru" where
  "abs_cache s = map (\<lambda>k. (k, the (record_of s k))) (lru_keys s)"

lemma abs_keys: "map fst (abs_cache s) = lru_keys s"
  by (simp add: abs_cache_def comp_def)

lemma abs_weight: "l1_wf s \<Longrightarrow> lru_weight (abs_cache s) = l1_usage s"
proof -
  assume wf: "l1_wf s"
  have "map (\<lambda>k. estimate_entry_usage k (the (record_of s k))) (lru_keys s) =
        map (size_of s) (lru_keys s)"
    by (rule map_cong) (auto simp: size_of_record [OF wf] split: option.splits
      dest: record_of_dom [OF wf, THEN iffD2])
  moreover have "l1_usage s = sum_list (map (size_of s) (lru_keys s))"
    using wf by (simp only: l1_wf_def)
  ultimately show ?thesis by (simp add: lru_weight_def abs_cache_def comp_def del: map_eq_conv)
qed

lemma map_of_pairs: "map_of (map (\<lambda>k. (k, f k)) ks) k = (if k \<in> set ks then Some (f k) else None)"
  by (induction ks) auto

lemma abs_lookup: "l1_wf s \<Longrightarrow> map_of (abs_cache s) k = record_of s k"
  using record_of_dom [of s k] by (auto simp: abs_cache_def map_of_pairs)

lemma filter_pairs: "filter (\<lambda>x. fst x \<noteq> k) (map (\<lambda>k. (k, f k)) ks) = map (\<lambda>k. (k, f k)) (removeAll k ks)"
  by (induction ks) auto

lemma abs_touch: "l1_wf s \<Longrightarrow> abs_cache (touch s k) = lru_touch k (abs_cache s)"
  using record_of_None [of s k]
  by (auto simp: lru_touch_def abs_lookup split: option.splits)
     (auto simp: abs_cache_def touch_keys to_front_def filter_pairs)

lemma abs_upsert:
  "l1_wf s \<Longrightarrow> k \<noteq> [] \<Longrightarrow>
   abs_cache (upsert s k r) = (k, r) # filter (\<lambda>x. fst x \<noteq> k) (abs_cache s)"
  by (simp add: abs_cache_def upsert_keys upsert_record to_front_def filter_pairs)

lemma abs_drop_back:
  assumes wf: "l1_wf s" and keys: "lru_keys s = ks @ [k]"
  shows "abs_cache s = abs_cache (drop_back s) @ [(k, the (record_of s k))]"
proof -
  have "k \<notin> set ks" using wf keys by (simp add: l1_wf_def)
  then show ?thesis by (auto simp: abs_cache_def keys drop_back_step [OF wf keys])
qed

lemma evict_unfold:
  assumes wf: "l1_wf s"
  shows "evict_to_budget s =
    (if l1_max s < l1_usage s \<and> lru_keys s \<noteq> [] then evict_to_budget (drop_back s) else s)"
proof (cases "l1_max s < l1_usage s \<and> lru_keys s \<noteq> []")
  case True
  then obtain ks k where keys: "lru_keys s = ks @ [k]" by (cases "lru_keys s" rule: rev_cases) auto
  then have k: "snd (last (l1_recency s)) = k" and ne: "l1_recency s \<noteq> []"
    by (auto simp: lru_keys_def map_eq_append_conv)
  from keys wf obtain e where e: "fmlookup (l1_entries s) k = Some e"
    using record_of_dom [OF wf, of k] by (auto simp: record_of_def)
  then have size: "size_of s k = entry_size e" by (simp add: size_of_def)
  have "0 \<le> l1_usage s - entry_size e"
    using usage_nonneg [OF drop_back_step(1) [OF wf keys]]
    by (simp add: drop_back_step(4) [OF wf keys] size)
  then show ?thesis
    using True k e ne size by (subst evict_to_budget.simps) (simp add: drop_back_def Let_def)
next
  case False
  then show ?thesis by (subst evict_to_budget.simps) (auto simp: lru_keys_def)
qed

lemma drop_back_max [simp]: "l1_max (drop_back s) = l1_max s"
  by (simp add: drop_back_def Let_def)

lemma evict_correct:
  "l1_wf s \<Longrightarrow> 0 < l1_max s \<Longrightarrow>
   l1_inv (evict_to_budget s) \<and> l1_max (evict_to_budget s) = l1_max s \<and>
   abs_cache (evict_to_budget s) = lru_trim (l1_max s) (abs_cache s)"
proof (induction "length (lru_keys s)" arbitrary: s rule: less_induct)
  case less
  note wf = less.prems(1) and unf = evict_unfold [OF less.prems(1)]
  show ?case
  proof (cases "l1_max s < l1_usage s")
    case True
    have "lru_keys s \<noteq> []" using True less.prems by (auto simp: l1_wf_def)
    then obtain ks k where keys: "lru_keys s = ks @ [k]" by (cases "lru_keys s" rule: rev_cases) auto
    note db = drop_back_step [OF wf keys]
    have "lru_trim (l1_max s) (abs_cache s) = lru_trim (l1_max s) (abs_cache (drop_back s))"
      using True abs_weight [OF wf] unfolding abs_drop_back [OF wf keys]
      by (intro lru_trim_snoc) simp
    then show ?thesis
      using less.hyps [of "drop_back s"] db(1,2) less.prems True keys unf by simp
  next
    case False
    then show ?thesis
      using unf less.prems abs_weight [OF wf] by (simp add: l1_inv_def lru_trim_fits)
  qed
qed

lemma set_refines:
  assumes "l1_inv s" and "k \<noteq> []"
  shows "\<exists>t. cache_set (Some s) k r = Some t \<and> l1_inv t \<and> l1_max t = l1_max s \<and>
             abs_cache t = lru_set (l1_max s) k r (abs_cache s)"
  using assms evict_correct [of "upsert s k r"]
  by (simp add: cache_set_some l1_inv_def upsert_wf abs_upsert lru_set_def)

lemma new_cache_inv: "l1_inv (new_cache_with_max_bytes m)"
  by (simp add: new_cache_with_max_bytes_def l1_inv_def l1_wf_def lru_keys_def default_usage_bytes_def
      default_policy_def float_scale_def float_to_int64_def rat_trunc_def int64_range_def)

section \<open>The store behind the service's interface\<close>

definition store_inv :: "l1_store \<Rightarrow> bool" where
  "store_inv s = (case s of Some (Some c) \<Rightarrow> l1_inv c | _ \<Rightarrow> True)"

definition store_peek :: "l1_store \<Rightarrow> string \<Rightarrow> cache_record option" where
  "store_peek s k = (case s of Some (Some c) \<Rightarrow> record_of c k | _ \<Rightarrow> None)"

text \<open>A record fits when its own weight is within the budget.\<close>

definition store_fits :: "l1_store \<Rightarrow> string \<Rightarrow> cache_record \<Rightarrow> bool" where
  "store_fits s k r =
     (case s of Some (Some c) \<Rightarrow> estimate_entry_usage k r \<le> l1_max c | _ \<Rightarrow> False)"

lemma record_of_empty_key: "l1_wf s \<Longrightarrow> record_of s [] = None"
  by (auto simp: l1_wf_def record_of_def)

lemma touch_inv: "l1_inv s \<Longrightarrow> l1_inv (touch s k)"
  by (simp add: l1_inv_def touch_wf)

lemma set_record:
  assumes inv: "l1_inv s" and k: "k \<noteq> []" and t: "cache_set (Some s) k r = Some t"
  shows "record_of t k' \<in> {None, if k' = k then Some r else record_of s k'}"
    and "record_of t k = (if estimate_entry_usage k r \<le> l1_max s then Some r else None)"
proof -
  have t: "l1_inv t" "abs_cache t = lru_set (l1_max s) k r (abs_cache s)"
    using set_refines [OF inv k, of r] t by auto
  have rec: "record_of t x = map_of (lru_trim (l1_max s) ((k, r) # filter (\<lambda>x. fst x \<noteq> k) (abs_cache s))) x" for x
    using t abs_lookup [of t x] by (simp add: l1_inv_def lru_set_def)
  obtain ys where ys: "(k, r) # filter (\<lambda>x. fst x \<noteq> k) (abs_cache s) =
      lru_trim (l1_max s) ((k, r) # filter (\<lambda>x. fst x \<noteq> k) (abs_cache s)) @ ys"
    using lru_trim_prefix by blast
  have "map_of ((k, r) # filter (\<lambda>x. fst x \<noteq> k) (abs_cache s)) k' =
      (if k' = k then Some r else record_of s k')"
    using inv by (auto simp: l1_inv_def map_of_filter_key abs_lookup)
  then show "record_of t k' \<in> {None, if k' = k then Some r else record_of s k'}"
    unfolding rec by (subst (asm) ys) (auto simp: map_add_def split: option.splits)
  show "record_of t k = (if estimate_entry_usage k r \<le> l1_max s then Some r else None)"
    by (simp add: rec)
qed

lemma store_set_inv: "store_inv s \<Longrightarrow> store_inv (snd (store_set s k r))"
proof -
  assume inv: "store_inv s"
  show ?thesis
  proof (cases "\<exists>c. s = Some (Some c) \<and> k \<noteq> []")
    case True
    then obtain c where s: "s = Some (Some c)" and k: "k \<noteq> []" by auto
    have "l1_inv c" using inv s by (simp add: store_inv_def)
    from set_refines [OF this k, of r] s show ?thesis
      by (auto simp: store_inv_def store_set_def)
  next
    case False
    then show ?thesis using inv
      by (auto simp: store_inv_def store_set_def cache_set_def split: option.splits)
  qed
qed

lemma store_set_peek:
  assumes inv: "store_inv s"
  shows "store_peek (snd (store_set s k r)) k' \<in> {None, if k' = k then Some r else store_peek s k'}"
    and "k \<noteq> [] \<Longrightarrow> store_fits s k r \<Longrightarrow> store_peek (snd (store_set s k r)) k = Some r"
    and "store_fits (snd (store_set s k r)) = store_fits s"
proof -
  have "store_peek (snd (store_set s k r)) k' \<in> {None, if k' = k then Some r else store_peek s k'} \<and>
    (store_fits s k r \<longrightarrow> k \<noteq> [] \<longrightarrow> store_peek (snd (store_set s k r)) k = Some r) \<and>
    store_fits (snd (store_set s k r)) = store_fits s"
  proof (cases "\<exists>c. s = Some (Some c) \<and> k \<noteq> []")
    case True
    then obtain c where s: "s = Some (Some c)" and k: "k \<noteq> []" by auto
    have c: "l1_inv c" using inv s by (simp add: store_inv_def)
    obtain t where t: "cache_set (Some c) k r = Some t" "l1_max t = l1_max c"
      using set_refines [OF c k] by blast
    then show ?thesis
      using s set_record(1) [OF c k t(1), of k'] set_record(2) [OF c k t(1)]
      by (cases "k' = k") (simp_all add: store_peek_def store_set_def store_fits_def fun_eq_iff)
  next
    case False
    then show ?thesis using inv
      by (auto simp: store_peek_def store_set_def cache_set_def store_fits_def store_inv_def
          l1_inv_def record_of_empty_key split: option.splits)
  qed
  then show "store_peek (snd (store_set s k r)) k' \<in> {None, if k' = k then Some r else store_peek s k'}"
    and "k \<noteq> [] \<Longrightarrow> store_fits s k r \<Longrightarrow> store_peek (snd (store_set s k r)) k = Some r"
    and "store_fits (snd (store_set s k r)) = store_fits s" by blast+
qed

lemma store_get_eq:
  assumes "store_inv s"
  shows "store_get s k =
    ((case store_peek s k of None \<Rightarrow> (empty_record, False, None) | Some r \<Rightarrow> (r, True, None)),
     (case s of Some (Some c) \<Rightarrow> Some (Some (touch c k)) | _ \<Rightarrow> s))"
proof (cases "\<exists>c. s = Some (Some c)")
  case True
  then obtain c where s: "s = Some (Some c)" by auto
  have "l1_wf c" using assms s by (simp add: store_inv_def l1_inv_def)
  from record_of_empty_key [OF this] s show ?thesis
    by (auto simp: store_get_def store_peek_def cache_get_some touch_def record_of_def
        split: option.splits)
next
  case False
  then show ?thesis by (auto simp: store_get_def store_peek_def split: option.splits)
qed

lemma store_get_readonly_eq: "store_get_readonly = store_get"
  by (intro ext) (simp add: store_get_def store_get_readonly_def cache_get_readonly_eq
      split: option.splits)

lemma store_get_frame:
  assumes "store_inv s"
  shows "store_inv (snd (store_get s k))" and "store_peek (snd (store_get s k)) = store_peek s"
    and "store_fits (snd (store_get s k)) = store_fits s"
  using assms unfolding store_get_eq [OF assms]
  by (auto simp: store_inv_def store_peek_def store_fits_def touch_inv fun_eq_iff split: option.splits)

interpretation l1: capacity_store store_get store_set store_peek store_inv store_fits
proof unfold_locales
  fix s k
  assume inv: "store_inv s"
  show "fst (store_get s k) =
      (case store_peek s k of None \<Rightarrow> (empty_record, False, None) | Some r \<Rightarrow> (r, True, None))"
    by (simp add: store_get_eq [OF inv])
qed (fact store_get_frame store_set_inv store_set_peek)+

end
