(* ===== verification/L1_Properties.thy ===== *)
theory L1_Properties
  imports L1_Lru
begin

text \<open>
  What the L1 cache promises, over every sequence of calls from a new cache: the accounting and the
  budget, the refinement of an abstract LRU list, the choice of what is evicted, and what a lookup
  can return.
\<close>

section \<open>Runs\<close>

definition l1_after :: "int \<Rightarrow> store_call list \<Rightarrow> l1_store" where
  "l1_after m cs = run_calls store_get store_set (new_store (Some (new_cache_with_max_bytes m))) cs"

text \<open>The abstract list after one call.\<close>

fun lru_call :: "int \<Rightarrow> store_call \<Rightarrow> lru \<Rightarrow> lru" where
  "lru_call m (CallGet k) xs = lru_touch k xs"
| "lru_call m (CallSet k r) xs = (if k = [] then xs else lru_set m k r xs)"

lemma new_store_inv: "store_inv (new_store (Some (new_cache_with_max_bytes m)))"
  by (simp add: store_inv_def new_store_def new_cache_inv)

lemma cache_set_empty_key: "cache_set (Some s) [] r = Some s"
  by (simp add: cache_set_def)

lemma run_refines:
  assumes "l1_inv s"
  shows "\<exists>c. run_calls store_get store_set (Some (Some s)) cs = Some (Some c) \<and> l1_inv c \<and>
           l1_max c = l1_max s \<and> abs_cache c = fold (lru_call (l1_max s)) cs (abs_cache s)"
  using assms
proof (induction cs arbitrary: s)
  case (Cons x cs)
  have wf: "l1_wf s" using Cons.prems by (simp add: l1_inv_def)
  show ?case
  proof (cases x)
    case (CallGet k)
    have "snd (store_get (Some (Some s)) k) = Some (Some (touch s k))"
      using Cons.prems by (simp add: store_get_eq store_inv_def)
    then show ?thesis
      using Cons.IH [OF touch_inv [OF Cons.prems], of k] CallGet
      by (simp add: abs_touch wf)
  next
    case (CallSet k r)
    show ?thesis
    proof (cases "k = []")
      case True
      then show ?thesis
        using Cons.IH [OF Cons.prems] CallSet by (simp add: store_set_def cache_set_empty_key)
    next
      case False
      then obtain t where "cache_set (Some s) k r = Some t" "l1_inv t" "l1_max t = l1_max s"
          "abs_cache t = lru_set (l1_max s) k r (abs_cache s)"
        using set_refines [OF Cons.prems, of k r] by blast
      then show ?thesis
        using Cons.IH [of t] CallSet False by (simp add: store_set_def)
    qed
  qed
qed simp

lemma l1_after_refines:
  "\<exists>c. l1_after m cs = Some (Some c) \<and> l1_inv c \<and> l1_max c = l1_max (new_cache_with_max_bytes m) \<and>
     abs_cache c = fold (lru_call (l1_max c)) cs []"
  using run_refines [OF new_cache_inv, of m cs]
  by (auto simp: l1_after_def new_store_def abs_cache_def lru_keys_def new_cache_with_max_bytes_def)

section \<open>Properties\<close>

text \<open>
  C6. After any calls on a new cache, \<open>usageBytes\<close> is the sum of the estimates of the records held
  and within the budget, every key is held once, and \<open>Len\<close> counts the keys of the recency list,
  which are exactly the keys a lookup finds.
\<close>

theorem l1_accounting:
  "\<exists>c. l1_after m cs = Some (Some c) \<and>
     estimated_usage_bytes (Some c) = (\<Sum>k\<leftarrow>lru_keys c. estimate_entry_usage k (the (record_of c k))) \<and>
     0 \<le> estimated_usage_bytes (Some c) \<and> estimated_usage_bytes (Some c) \<le> l1_max c \<and>
     l1_max c = (if m \<le> 0 then default_usage_bytes else m) \<and>
     distinct (lru_keys c) \<and> cache_len (Some c) = length (lru_keys c) \<and>
     (\<forall>k. k \<in> set (lru_keys c) \<longleftrightarrow> record_of c k \<noteq> None)"
proof -
  obtain c where c: "l1_after m cs = Some (Some c)" "l1_inv c" "l1_max c = l1_max (new_cache_with_max_bytes m)"
    using l1_after_refines by blast
  then have wf: "l1_wf c" by (simp add: l1_inv_def)
  have "l1_usage c = (\<Sum>k\<leftarrow>lru_keys c. estimate_entry_usage k (the (record_of c k)))"
    using abs_weight [OF wf] by (simp add: lru_weight_def abs_cache_def comp_def)
  moreover have "distinct (lru_keys c)" using wf by (simp add: l1_wf_def)
  moreover have "l1_max c = (if m \<le> 0 then default_usage_bytes else m)"
    using c(3) by (simp add: new_cache_with_max_bytes_def)
  ultimately show ?thesis
    using c(1) usage_nonneg [OF wf] cache_len_keys [OF wf] record_of_dom [OF wf] c(2)
    unfolding l1_inv_def estimated_usage_bytes_def by (intro exI [of _ c]) simp
qed

text \<open>
  C5. The cache is an LRU list: after any calls its recency list with the records is what the
  abstract list gives, where a lookup moves the key it finds to the front and a write puts the
  record at the front and then keeps what fits.
\<close>

theorem l1_refines_lru:
  "\<exists>c. l1_after m cs = Some (Some c) \<and>
     map (\<lambda>k. (k, the (record_of c k))) (lru_keys c) =
       fold (lru_call (if m \<le> 0 then default_usage_bytes else m)) cs []"
  using l1_after_refines [of m cs] by (auto simp: abs_cache_def new_cache_with_max_bytes_def)

text \<open>
  A write keeps the longest prefix of the recency list (the new record first) that fits the
  budget: what remains is within the budget, and with the next record it would not be.
\<close>

theorem l1_evicts_least:
  assumes "l1_inv s" and "k \<noteq> []"
  shows "\<exists>t dropped. cache_set (Some s) k r = Some t \<and>
     (k, r) # filter (\<lambda>x. fst x \<noteq> k) (abs_cache s) = abs_cache t @ dropped \<and>
     lru_weight (abs_cache t) \<le> l1_max s \<and>
     (\<forall>x xs. dropped = x # xs \<longrightarrow> l1_max s < lru_weight (abs_cache t @ [x]))"
proof -
  obtain t where t: "cache_set (Some s) k r = Some t" "abs_cache t = lru_set (l1_max s) k r (abs_cache s)"
    using set_refines [OF assms, of r] by blast
  let ?xs = "(k, r) # filter (\<lambda>x. fst x \<noteq> k) (abs_cache s)"
  obtain dropped where d: "?xs = abs_cache t @ dropped"
    using lru_trim_prefix [of ?xs "l1_max s"] t(2) by (auto simp: lru_set_def simp del: lru_trim.simps)
  have "l1_max s < lru_weight (abs_cache t @ [x])" if "dropped = x # xs" for x xs
  proof (rule ccontr)
    assume "\<not> ?thesis"
    moreover have "?xs = (abs_cache t @ [x]) @ xs" using d that by simp
    ultimately obtain ws where "lru_trim (l1_max s) ?xs = (abs_cache t @ [x]) @ ws"
      using lru_trim_maximal [of ?xs "abs_cache t @ [x]" xs "l1_max s"] by (metis not_less)
    then show False using t(2) by (simp add: lru_set_def del: lru_trim.simps)
  qed
  moreover have "lru_weight (abs_cache t) \<le> l1_max s"
    using lru_trim_weight [of "l1_max s" ?xs] t(2) assms(1)
    by (simp add: lru_set_def l1_inv_def del: lru_trim.simps)
  ultimately show ?thesis using t(1) d by blast
qed

text \<open>
  A record that is larger than the whole budget is not kept and empties the cache: the loop
  evicts every other key before it.
\<close>

theorem l1_oversized_set_flushes:
  assumes "l1_inv s" and "k \<noteq> []" and "l1_max s < estimate_entry_usage k r"
  shows "\<exists>t. cache_set (Some s) k r = Some t \<and> lru_keys t = [] \<and> l1_usage t = 0 \<and>
           (\<forall>k'. record_of t k' = None)"
proof -
  obtain t where t: "cache_set (Some s) k r = Some t" "l1_inv t"
      "abs_cache t = lru_set (l1_max s) k r (abs_cache s)"
    using set_refines [OF assms(1,2), of r] by blast
  have "abs_cache t = []" using t(3) assms(3) by (simp add: lru_set_def)
  then have "lru_keys t = []" by (simp add: abs_cache_def)
  then show ?thesis using t by (auto simp: l1_inv_def l1_wf_def record_of_None)
qed

text \<open>
  A lookup never invents or mixes up records: after any calls it is a miss, or it returns the
  record most recently written under its key.
\<close>

theorem l1_get_last_written:
  "fst (store_get (l1_after m cs) k) \<in>
     {(empty_record, False, None),
      (case last_written cs k None of None \<Rightarrow> (empty_record, False, None) | Some r \<Rightarrow> (r, True, None))}"
proof -
  have inv: "store_inv (l1_after m cs)"
    unfolding l1_after_def by (rule l1.run_inv [OF new_store_inv])
  have "store_peek (new_store (Some (new_cache_with_max_bytes m))) k = None"
    by (simp add: store_peek_def new_store_def record_of_def new_cache_with_max_bytes_def)
  then have "store_peek (l1_after m cs) k \<in> {None, last_written cs k None}"
    using l1.run_peek [OF new_store_inv, of m cs k] by (simp add: l1_after_def)
  then show ?thesis using l1.get_result [OF inv] by (auto split: option.splits)
qed

text \<open>
  The arithmetic of a write does not wrap: when the budget and the new record together stay
  within \<open>int64\<close>, both intermediate sums of \<open>Set\<close> computed with wrap-around are the exact usage
  before eviction.
\<close>

theorem l1_usage_no_overflow:
  assumes "l1_inv s" and "l1_max s + estimate_entry_usage k r < 2 ^ 63"
  shows "wrap64 (wrap64 (l1_usage s - size_of s k) + estimate_entry_usage k r) = l1_usage (upsert s k r)"
proof -
  have wf: "l1_wf s" and u: "l1_usage s \<le> l1_max s" using assms(1) by (simp_all add: l1_inv_def)
  have "size_of s k \<le> l1_usage s"
  proof (cases "k \<in> set (lru_keys s)")
    case True
    have "0 \<le> sum_list (map (size_of s) (removeAll k (lru_keys s)))"
      using size_of_nonneg [OF wf] by (intro sum_list_nonneg) auto
    then show ?thesis using wf sum_list_remove [OF True, of "size_of s"] by (simp add: l1_wf_def)
  next
    case False
    then show ?thesis using wf usage_nonneg [OF wf] by (simp add: size_of_record record_of_None [OF wf, THEN iffD2])
  qed
  with u assms(2) estimate_pos [of k r] size_of_nonneg [OF wf, of k]
  have "int64_range (l1_usage s - size_of s k)"
    "int64_range (l1_usage s - size_of s k + estimate_entry_usage k r)"
    by (simp_all add: int64_range_def)
  then show ?thesis by (simp add: wrap64_id upsert_usage)
qed

section \<open>Witnesses\<close>

definition small_record :: "string \<Rightarrow> cache_record" where
  "small_record p = empty_record\<lparr>payload := p\<rparr>"

lemma l1_evicts_least_witness:
  "\<exists>t dropped. cache_set (Some (new_cache_with_max_bytes 600)) ''a'' (small_record ''x'') = Some t \<and>
     [(''a'', small_record ''x'')] = abs_cache t @ dropped \<and>
     lru_weight (abs_cache t) \<le> 600 \<and>
     (\<forall>x xs. dropped = x # xs \<longrightarrow> 600 < lru_weight (abs_cache t @ [x]))"
  using l1_evicts_least [OF new_cache_inv [of 600], of "''a''" "small_record ''x''"]
  by (simp add: new_cache_with_max_bytes_def abs_cache_def lru_keys_def)

lemma l1_oversized_set_flushes_witness:
  "\<exists>t. cache_set (Some (new_cache_with_max_bytes 256)) ''a'' (small_record ''x'') = Some t \<and>
     lru_keys t = [] \<and> l1_usage t = 0 \<and> (\<forall>k'. record_of t k' = None)"
  by (rule l1_oversized_set_flushes [OF new_cache_inv])
    (simp_all add: new_cache_with_max_bytes_def estimate_entry_usage_def small_record_def
      empty_record_def record_metadata_overhead_bytes_def)

lemma l1_usage_no_overflow_witness:
  "wrap64 (wrap64 (l1_usage (new_cache_with_max_bytes 600) - size_of (new_cache_with_max_bytes 600) ''a'')
     + estimate_entry_usage ''a'' (small_record ''x'')) =
   l1_usage (upsert (new_cache_with_max_bytes 600) ''a'' (small_record ''x''))"
  by (rule l1_usage_no_overflow [OF new_cache_inv])
    (simp add: new_cache_with_max_bytes_def estimate_entry_usage_def small_record_def
      empty_record_def record_metadata_overhead_bytes_def)

end
