(* ===== verification/Go_Url.thy ===== *)
theory Go_Url
  imports Go_Lib
begin

text \<open>
  The methods of \<open>net/url\<close> that the program calls on a parsed URL: \<open>Hostname\<close>, \<open>Port\<close>,
  \<open>String\<close>, \<open>Query\<close> and \<open>Values.Encode\<close>, with the percent-encoding they share. The parser
  itself is the argument \<open>lib_parse\<close>. A limit on the number of query parameters, which some
  releases of the library apply, is not modelled.
\<close>

section \<open>Percent-encoding\<close>

datatype encoding = EncPath | EncHost | EncQuery | EncFragment

definition is_alnum :: "char \<Rightarrow> bool" where
  "is_alnum c \<longleftrightarrow> is_lower c \<or> is_upper c \<or> is_digit c"

definition should_escape :: "encoding \<Rightarrow> char \<Rightarrow> bool" where
  "should_escape mode c \<longleftrightarrow>
     (if is_alnum c then False
      else if mode = EncHost \<and> (c \<in> set ''!$&()*+,;=:[]<>'' \<or> byte c = 39 \<or> byte c = 34) then False
      else if c \<in> set ''-_.~'' then False
      else if c \<in> set ''$&+,/:;=?@'' \<and> mode = EncPath then c = CHR ''?''
      else if c \<in> set ''$&+,/:;=?@'' \<and> mode = EncQuery then True
      else if c \<in> set ''$&+,/:;=?@'' \<and> mode = EncFragment then False
      else if mode = EncFragment \<and> c \<in> set ''!()*'' then False
      else True)"

definition upper_hex :: "nat \<Rightarrow> char" where
  "upper_hex n = (if n < 10 then char_of (48 + n) else char_of (55 + n))"

definition escape_byte :: "encoding \<Rightarrow> char \<Rightarrow> string" where
  "escape_byte mode c =
     (if mode = EncQuery \<and> c = CHR '' '' then ''+''
      else if should_escape mode c
      then [CHR ''%'', upper_hex (byte c div 16), upper_hex (byte c mod 16)]
      else [c])"

definition escape :: "encoding \<Rightarrow> string \<Rightarrow> string" where
  "escape mode s = concat (map (escape_byte mode) s)"

definition is_hex :: "char \<Rightarrow> bool" where
  "is_hex c \<longleftrightarrow> is_digit c \<or> (97 \<le> byte c \<and> byte c \<le> 102) \<or> (65 \<le> byte c \<and> byte c \<le> 70)"

definition unhex :: "char \<Rightarrow> nat" where
  "unhex c =
     (if is_digit c then byte c - 48
      else if 97 \<le> byte c \<and> byte c \<le> 102 then byte c - 87
      else byte c - 55)"

text \<open>\<open>unescape\<close> outside hosts: \<open>None\<close> for a malformed percent sequence.\<close>

fun unescape :: "encoding \<Rightarrow> string \<Rightarrow> string option" where
  "unescape mode [] = Some []"
| "unescape mode (c # cs) =
     (if c = CHR ''%'' then
        (case cs of
           a # b # rest \<Rightarrow>
             if is_hex a \<and> is_hex b
             then map_option (Cons (char_of (16 * unhex a + unhex b))) (unescape mode rest)
             else None
         | _ \<Rightarrow> None)
      else map_option
             (Cons (if c = CHR ''+'' \<and> mode = EncQuery then CHR '' '' else c))
             (unescape mode cs))"

section \<open>Host and port\<close>

text \<open>Splitting at the last colon of the text.\<close>

definition cut_last :: "char \<Rightarrow> string \<Rightarrow> (string \<times> string) option" where
  "cut_last c s =
     (if c \<in> set s
      then let r = rev s
           in Some (rev (tl (dropWhile (\<lambda>x. x \<noteq> c) r)), rev (takeWhile (\<lambda>x. x \<noteq> c) r))
      else None)"

definition strip_brackets :: "string \<Rightarrow> string" where
  "strip_brackets h =
     (if h \<noteq> [] \<and> hd h = CHR ''['' \<and> last h = CHR '']'' then butlast (tl h) else h)"

definition split_host_port :: "string \<Rightarrow> string \<times> string" where
  "split_host_port hp =
     (case cut_last (CHR '':'') hp of
        Some (h, p) \<Rightarrow> if list_all is_digit p then (strip_brackets h, p) else (strip_brackets hp, [])
      | None \<Rightarrow> (strip_brackets hp, []))"

definition url_hostname :: "url \<Rightarrow> string" where
  "url_hostname u = fst (split_host_port (url_host u))"

definition url_port :: "url \<Rightarrow> string" where
  "url_port u = snd (split_host_port (url_host u))"

section \<open>Printing a URL\<close>

definition valid_encoded_path :: "string \<Rightarrow> bool" where
  "valid_encoded_path s \<longleftrightarrow>
     list_all (\<lambda>c. c \<in> set ''!$&()*+,;=:@[]%'' \<or> byte c = 39 \<or> \<not> should_escape EncPath c) s"

definition escaped_path :: "url \<Rightarrow> string" where
  "escaped_path u =
     (if url_raw_path u \<noteq> [] \<and> valid_encoded_path (url_raw_path u) \<and>
         unescape EncPath (url_raw_path u) = Some (url_path u)
      then url_raw_path u
      else if url_path u = ''*'' then ''*''
      else escape EncPath (url_path u))"

definition valid_encoded_fragment :: "string \<Rightarrow> bool" where
  "valid_encoded_fragment s \<longleftrightarrow>
     list_all (\<lambda>c. c \<in> set ''!$&()*+,;=:@[]%'' \<or> byte c = 39 \<or> \<not> should_escape EncFragment c) s"

definition escaped_fragment :: "url \<Rightarrow> string" where
  "escaped_fragment u =
     (if url_raw_fragment u \<noteq> [] \<and> valid_encoded_fragment (url_raw_fragment u) \<and>
         unescape EncFragment (url_raw_fragment u) = Some (url_fragment u)
      then url_raw_fragment u
      else escape EncFragment (url_fragment u))"

definition url_authority :: "url \<Rightarrow> string" where
  "url_authority u =
     (if url_scheme u = [] \<and> url_host u = [] \<and> url_user u = None then []
      else if url_omit_host u \<and> url_host u = [] \<and> url_user u = None then []
      else (if url_host u \<noteq> [] \<or> url_path u \<noteq> [] \<or> url_user u \<noteq> None then ''//'' else []) @
           (case url_user u of None \<Rightarrow> [] | Some ui \<Rightarrow> ui @ ''@'') @
           (if url_host u \<noteq> [] then escape EncHost (url_host u) else []))"

definition url_string :: "url \<Rightarrow> string" where
  "url_string u =
     (let pre = (if url_scheme u \<noteq> [] then url_scheme u @ '':'' else []);
          path = escaped_path u;
          auth = url_authority u;
          slash = (if path \<noteq> [] \<and> hd path \<noteq> CHR ''/'' \<and> url_host u \<noteq> [] then ''/'' else []);
          dot = (if pre @ auth @ slash = [] \<and> contains_byte (CHR '':'') (fst (cut (CHR ''/'') path))
                 then ''./'' else [])
      in pre @
         (if url_opaque u \<noteq> [] then url_opaque u else auth @ slash @ dot @ path) @
         (if url_force_query u \<or> url_raw_query u \<noteq> [] then ''?'' @ url_raw_query u else []) @
         (if url_fragment u \<noteq> [] then ''#'' @ escaped_fragment u else []))"

section \<open>Query parameters\<close>

text \<open>
  \<open>url.Values\<close> maps a parameter name to its values in the order of the query. A piece that
  holds a semicolon or a malformed escape is dropped: \<open>Query\<close> discards the error.
\<close>

type_synonym query_values = "(string, string list) fmap"

definition parse_piece :: "string \<Rightarrow> (string \<times> string) option" where
  "parse_piece piece =
     (if contains_byte (CHR '';'') piece then None
      else if piece = [] then None
      else (case cut (CHR ''='') piece of
              (k, v) \<Rightarrow>
                (case unescape EncQuery k of
                   None \<Rightarrow> None
                 | Some k' \<Rightarrow>
                     (case unescape EncQuery v of None \<Rightarrow> None | Some v' \<Rightarrow> Some (k', v')))))"

definition add_value :: "query_values \<Rightarrow> string \<Rightarrow> string \<Rightarrow> query_values" where
  "add_value m k v =
     fmupd k ((case fmlookup m k of None \<Rightarrow> [] | Some vs \<Rightarrow> vs) @ [v]) m"

definition add_piece :: "query_values \<Rightarrow> string \<Rightarrow> query_values" where
  "add_piece m piece =
     (case parse_piece piece of None \<Rightarrow> m | Some (k, v) \<Rightarrow> add_value m k v)"

definition parse_query :: "string \<Rightarrow> query_values" where
  "parse_query q = foldl add_piece fmempty (split (CHR ''&'') q)"

definition query_escape :: "string \<Rightarrow> string" where
  "query_escape = escape EncQuery"

definition encode_pairs :: "query_values \<Rightarrow> string list" where
  "encode_pairs m =
     concat (map (\<lambda>k. map (\<lambda>v. query_escape k @ ''='' @ query_escape v)
                        (case fmlookup m k of None \<Rightarrow> [] | Some vs \<Rightarrow> vs))
                 (sorted_list_of_fset (fmdom m)))"

fun join :: "char \<Rightarrow> string list \<Rightarrow> string" where
  "join c [] = []"
| "join c [p] = p"
| "join c (p # ps) = p @ c # join c ps"

definition encode_query :: "query_values \<Rightarrow> string" where
  "encode_query m = join (CHR ''&'') (encode_pairs m)"

end
