(* ===== verification/Query_Codec.thy ===== *)
theory Query_Codec
  imports Go_Url
begin

text \<open>
  The query codec of \<open>net/url\<close>: which values a query string gives each parameter, and that parsing
  an encoded value map gives the map back.
\<close>

section \<open>The values of a parameter\<close>

text \<open>The values a piece list gives a parameter, in order.\<close>

fun values_of :: "string list \<Rightarrow> string \<Rightarrow> string list" where
  "values_of [] k = []"
| "values_of (p # ps) k =
     (case parse_piece p of
        None \<Rightarrow> values_of ps k
      | Some (k', v) \<Rightarrow> if k' = k then v # values_of ps k else values_of ps k)"

lemma foldl_add_piece:
  "fmlookup (foldl add_piece m ps) k =
     (case fmlookup m k of
        None \<Rightarrow> if values_of ps k = [] then None else Some (values_of ps k)
      | Some vs \<Rightarrow> Some (vs @ values_of ps k))"
proof (induction ps arbitrary: m)
  case Nil
  then show ?case by (simp split: option.splits)
next
  case (Cons p ps)
  show ?case
  proof (cases "parse_piece p")
    case None
    then have "add_piece m p = m" by (simp add: add_piece_def)
    with None Cons [of m] show ?thesis by (simp split: option.splits)
  next
    case (Some kv)
    obtain k' v where "kv = (k', v)" by (cases kv)
    with Some Cons [of "add_value m k' v"] show ?thesis
      by (auto simp: add_piece_def add_value_def split: option.splits)
  qed
qed

lemma parse_query_lookup:
  "fmlookup (parse_query q) k =
     (let vs = values_of (split (CHR ''&'') q) k in if vs = [] then None else Some vs)"
  by (simp add: parse_query_def foldl_add_piece Let_def)

lemma mset_values_of:
  "mset (values_of ps k) =
     (\<Sum>p \<in># mset ps. case parse_piece p of None \<Rightarrow> {#}
        | Some (k', v) \<Rightarrow> if k' = k then {#v#} else {#})"
  by (induction ps) (auto split: option.splits)

section \<open>Splitting at a separator\<close>

lemma sort_empty_iff: "sort xs = [] \<longleftrightarrow> xs = []"
  by (metis length_0_conv length_sort)

lemma split_append: "split c (q @ c # p) = split c q @ split c p"
  by (induction q) (auto split: list.splits)

lemma split_single: "c \<notin> set p \<Longrightarrow> split c p = [p]"
  by (induction p) auto

section \<open>Encoding and parsing back\<close>

lemma byte_less: "byte c < 256"
  by (simp add: byte_def)

lemma char_of_byte: "char_of (byte c) = c"
  by (simp add: byte_def)

lemma unhex_upper_hex: "n < 16 \<Longrightarrow> is_hex (upper_hex n) \<and> unhex (upper_hex n) = n"
  by (auto simp: is_hex_def unhex_def upper_hex_def is_digit_def byte_char_of)

lemma escape_byte_cases:
  "escape_byte EncQuery c = ''+'' \<and> c = CHR '' '' \<or>
   escape_byte EncQuery c = [CHR ''%'', upper_hex (byte c div 16), upper_hex (byte c mod 16)] \<or>
   escape_byte EncQuery c = [c] \<and> c \<noteq> CHR ''%'' \<and> c \<noteq> CHR ''+''"
proof -
  have "should_escape EncQuery (CHR ''%'')" "should_escape EncQuery (CHR ''+'')"
    by (simp_all add: should_escape_def is_alnum_def is_lower_def is_upper_def is_digit_def byte_def)
  then show ?thesis by (auto simp: escape_byte_def)
qed

lemma unescape_escape_byte:
  "unescape EncQuery (escape_byte EncQuery c @ s) = map_option (Cons c) (unescape EncQuery s)"
proof -
  have "char_of (16 * (byte c div 16) + byte c mod 16) = c" by (simp add: char_of_byte)
  moreover have "byte c div 16 < 16" using byte_less [of c] by linarith
  ultimately show ?thesis
    using escape_byte_cases [of c] unhex_upper_hex [of "byte c div 16"] unhex_upper_hex [of "byte c mod 16"]
    by auto
qed

lemma unescape_escape: "unescape EncQuery (query_escape s) = Some s"
  unfolding query_escape_def escape_def
proof (induction s)
  case (Cons c s)
  then show ?case using unescape_escape_byte [of c "concat (map (escape_byte EncQuery) s)"] by simp
qed simp

text \<open>The separators never occur in an escaped text.\<close>

lemma upper_hex_plain: "n < 16 \<Longrightarrow> upper_hex n \<notin> set ''&;=''"
  by (auto simp: upper_hex_def char_of_eq_iff byte_def take_bit_eq_mod)

lemma escape_byte_plain: "x \<in> set (escape_byte EncQuery c) \<Longrightarrow> x \<notin> set ''&;=''"
proof -
  assume x: "x \<in> set (escape_byte EncQuery c)"
  have sep: "should_escape EncQuery c" if "c \<in> set ''&;=''"
    using that by (auto simp: should_escape_def is_alnum_def is_lower_def is_upper_def is_digit_def byte_def)
  have "byte c div 16 < 16" using byte_less [of c] by linarith
  then have "upper_hex (byte c div 16) \<notin> set ''&;=''" "upper_hex (byte c mod 16) \<notin> set ''&;=''"
    by (intro upper_hex_plain; simp)+
  then show ?thesis
    using x sep unfolding escape_byte_def by (auto split: if_splits)
qed

lemma separators_escaped: "x \<in> set (query_escape s) \<Longrightarrow> x \<notin> set ''&;=''"
  unfolding query_escape_def escape_def using escape_byte_plain by fastforce

definition query_pair :: "string \<Rightarrow> string \<Rightarrow> string" where
  "query_pair k v = query_escape k @ ''='' @ query_escape v"

lemma query_pair_clean: "x \<in> set (query_pair k v) \<Longrightarrow> x \<notin> set ''&;''"
  using separators_escaped [of x k] separators_escaped [of x v] by (auto simp: query_pair_def)

lemma cut_query_pair: "cut (CHR ''='') (query_pair k v) = (query_escape k, query_escape v)"
proof -
  have "\<And>x. x \<in> set (query_escape k) \<Longrightarrow> x \<noteq> CHR ''=''" using separators_escaped [of _ k] by auto
  then show ?thesis
    by (simp add: cut_def query_pair_def takeWhile_append2 dropWhile_append2)
qed

lemma parse_query_pair: "parse_piece (query_pair k v) = Some (k, v)"
proof -
  have "\<not> contains_byte (CHR '';'') (query_pair k v)"
    using query_pair_clean [of "CHR '';''" k v] by (auto simp: contains_byte_def)
  moreover have "query_pair k v \<noteq> []" by (simp add: query_pair_def)
  ultimately show ?thesis by (simp add: parse_piece_def cut_query_pair unescape_escape)
qed

lemma split_join: "ps \<noteq> [] \<Longrightarrow> (\<And>p. p \<in> set ps \<Longrightarrow> c \<notin> set p) \<Longrightarrow> split c (join c ps) = ps"
  by (induction c ps rule: join.induct) (simp_all add: split_single split_append)

lemma values_of_append: "values_of (ps @ qs) k = values_of ps k @ values_of qs k"
  by (induction ps) (auto split: option.splits)

lemma values_of_pairs: "values_of (map (query_pair k') vs) k = (if k' = k then vs else [])"
  by (induction vs) (auto simp: parse_query_pair)

lemma values_of_concat:
  "distinct ks \<Longrightarrow> values_of (concat (map (\<lambda>k. map (query_pair k) (f k)) ks)) k =
     (if k \<in> set ks then f k else [])"
  by (induction ks) (auto simp: values_of_append values_of_pairs)

lemma encode_pairs_alt:
  "encode_pairs m = concat (map (\<lambda>k. map (query_pair k) (case fmlookup m k of None \<Rightarrow> [] | Some vs \<Rightarrow> vs))
     (sorted_list_of_fset (fmdom m)))"
  by (simp add: encode_pairs_def query_pair_def [abs_def])

lemma parse_encode:
  assumes "\<And>k vs. fmlookup m k = Some vs \<Longrightarrow> vs \<noteq> []"
  shows "parse_query (encode_query m) = m"
proof -
  have clean: "CHR ''&'' \<notin> set p" if "p \<in> set (encode_pairs m)" for p
    using that query_pair_clean [of "CHR ''&''"] by (auto simp: encode_pairs_alt)
  have vals: "values_of (encode_pairs m) k = (case fmlookup m k of None \<Rightarrow> [] | Some vs \<Rightarrow> vs)" for k
    by (auto simp: encode_pairs_alt values_of_concat sorted_list_of_fset.rep_eq fmlookup_dom_iff split: option.splits)
  have "values_of (split (CHR ''&'') (encode_query m)) k = values_of (encode_pairs m) k" for k
  proof (cases "encode_pairs m = []")
    case False
    then show ?thesis using clean by (simp add: encode_query_def split_join)
  qed (simp add: encode_query_def parse_piece_def)
  then show ?thesis
    using assms by (intro fmap_ext) (auto simp: parse_query_lookup vals Let_def split: option.splits)
qed

end
