(* ===== verification/Cache_Key.thy ===== *)
theory Cache_Key
  imports Query_Codec
begin

text \<open>
  \<open>internal/cache/key.go\<close>: canonical form of a URL and the cache key derived from it. The key is a
  version prefix and the digest of the printed canonical URL.
\<close>

section \<open>Definitions\<close>

datatype key_error = ErrCacheURLRequired | ErrCacheURLInvalid

definition cache_key_version_prefix :: string where
  "cache_key_version_prefix = ''v1:''"

definition format_host :: "string \<Rightarrow> string" where
  "format_host host = (if contains_byte (CHR '':'') host then ''['' @ host @ '']'' else host)"

text \<open>\<open>net.JoinHostPort\<close>.\<close>

definition join_host_port :: "string \<Rightarrow> string \<Rightarrow> string" where
  "join_host_port host port =
     (if contains_byte (CHR '':'') host then ''['' @ host @ '']:'' @ port else host @ '':'' @ port)"

definition normalize_host :: "golib \<Rightarrow> string \<Rightarrow> string \<Rightarrow> string \<Rightarrow> string" where
  "normalize_host L scheme hostname port =
     (let host = to_lower L hostname
      in if port = [] then format_host host
         else if (scheme = ''https'' \<and> port = ''443'') \<or> (scheme = ''http'' \<and> port = ''80'')
         then format_host host
         else join_host_port host port)"

text \<open>The copy of the URL that \<open>normalizeParsedURL\<close> edits before it prints it.\<close>

definition canonical_query :: "string \<Rightarrow> string" where
  "canonical_query q = encode_query (fmmap sort (parse_query q))"

definition normalized_url :: "golib \<Rightarrow> url \<Rightarrow> url" where
  "normalized_url L u =
     (let scheme = to_lower L (url_scheme u);
          p = u\<lparr>url_scheme := scheme\<rparr>
      in p\<lparr>url_host := normalize_host L scheme (url_hostname p) (url_port p),
           url_fragment := [],
           url_path := (if url_path p = [] then ''/'' else url_path p),
           url_raw_query := canonical_query (url_raw_query p)\<rparr>)"

definition normalize_parsed_url :: "golib \<Rightarrow> url \<Rightarrow> string" where
  "normalize_parsed_url L u = url_string (normalized_url L u)"

definition normalize_url :: "golib \<Rightarrow> string \<Rightarrow> key_error + string" where
  "normalize_url L raw =
     (let trimmed = trim_space raw
      in if trimmed = [] then Inl ErrCacheURLRequired
         else (case lib_parse L trimmed of
                 None \<Rightarrow> Inl ErrCacheURLInvalid
               | Some u \<Rightarrow>
                   if url_scheme u = [] \<or> url_host u = [] then Inl ErrCacheURLInvalid
                   else Inr (normalize_parsed_url L u)))"

definition key_from_normalized_url :: "golib \<Rightarrow> string \<Rightarrow> string" where
  "key_from_normalized_url L normalized =
     cache_key_version_prefix @ hex_encode (lib_sha256 L normalized)"

definition key_from_url :: "golib \<Rightarrow> string \<Rightarrow> key_error + string" where
  "key_from_url L raw =
     (case normalize_url L raw of
        Inl e \<Rightarrow> Inl e
      | Inr normalized \<Rightarrow> Inr (key_from_normalized_url L normalized))"

definition key_from_parsed_url :: "golib \<Rightarrow> url option \<Rightarrow> key_error + string" where
  "key_from_parsed_url L u =
     (case u of
        None \<Rightarrow> Inl ErrCacheURLInvalid
      | Some u \<Rightarrow>
          if url_scheme u = [] \<or> url_host u = [] then Inl ErrCacheURLInvalid
          else Inr (key_from_normalized_url L (normalize_parsed_url L u)))"

section \<open>The canonical query\<close>

lemma canonical_query_perm:
  assumes "mset (split (CHR ''&'') q) = mset (split (CHR ''&'') q')"
  shows "canonical_query q = canonical_query q'"
proof -
  have vs: "mset (values_of (split (CHR ''&'') q) k) = mset (values_of (split (CHR ''&'') q') k)" for k
    by (simp only: mset_values_of assms)
  then have "sort (values_of (split (CHR ''&'') q) k) = sort (values_of (split (CHR ''&'') q') k)" for k
    by (intro sorted_perm_unique) simp_all
  moreover have "values_of (split (CHR ''&'') q) k = [] \<longleftrightarrow> values_of (split (CHR ''&'') q') k = []" for k
    using vs [of k] by (metis mset_zero_iff)
  ultimately have "fmmap sort (parse_query q) = fmmap sort (parse_query q')"
    by (intro fmap_ext) (simp add: parse_query_lookup Let_def)
  then show ?thesis by (simp add: canonical_query_def)
qed

lemma canonical_query_drop:
  assumes "CHR ''&'' \<notin> set p" and "parse_piece p = None"
  shows "canonical_query (q @ CHR ''&'' # p) = canonical_query q"
  using assms by (simp add: canonical_query_def parse_query_def split_append split_single add_piece_def)

lemma canonical_query_idem: "canonical_query (canonical_query q) = canonical_query q"
proof -
  have "parse_query (canonical_query q) = fmmap sort (parse_query q)"
    unfolding canonical_query_def
    by (rule parse_encode) (auto simp: parse_query_lookup Let_def sort_empty_iff split: if_splits)
  moreover have "sort (sort vs) = sort vs" for vs :: "string list"
    by (simp add: sorted_sort_id)
  ultimately show ?thesis by (simp add: canonical_query_def fmap.map_comp comp_def)
qed
section \<open>The canonical host\<close>

definition effective_port :: "string \<Rightarrow> string \<Rightarrow> string" where
  "effective_port scheme port =
     (if (scheme = ''https'' \<and> port = ''443'') \<or> (scheme = ''http'' \<and> port = ''80'')
      then [] else port)"

lemma normalize_host_effective:
  "normalize_host L scheme h port =
     (if effective_port scheme port = [] then format_host (to_lower L h)
      else join_host_port (to_lower L h) (effective_port scheme port))"
  by (auto simp: normalize_host_def effective_port_def Let_def)

lemma strip_brackets_plain: "CHR ''['' \<notin> set h \<Longrightarrow> strip_brackets h = h"
  by (cases h) (auto simp: strip_brackets_def)

lemma strip_brackets_bracketed: "strip_brackets (CHR ''['' # h @ '']'') = h"
  by (simp add: strip_brackets_def)

lemma cut_last_append: "c \<notin> set p \<Longrightarrow> cut_last c (h @ c # p) = Some (h, p)"
  by (simp add: cut_last_def Let_def takeWhile_append2 dropWhile_append2 takeWhile_eq_all_conv [THEN iffD2]
      takeWhile_append dropWhile_append)

lemma digits_no_colon: "list_all is_digit p \<Longrightarrow> CHR '':'' \<notin> set p"
  by (auto simp: list_all_iff is_digit_def byte_def)

lemma split_join_host_port:
  assumes "CHR ''['' \<notin> set h" and "list_all is_digit p"
  shows "split_host_port (join_host_port h p) = (h, p)"
proof -
  note nc = digits_no_colon [OF assms(2)]
  show ?thesis
  proof (cases "contains_byte (CHR '':'') h")
    case True
    have "cut_last (CHR '':'') (CHR ''['' # h @ '']:'' @ p) = Some (CHR ''['' # h @ '']'', p)"
      using cut_last_append [OF nc, of "CHR ''['' # h @ '']''"] by simp
    with True assms(2) show ?thesis
      by (simp add: split_host_port_def join_host_port_def strip_brackets_bracketed)
  next
    case False
    then show ?thesis
      using cut_last_append [OF nc, of h] assms
      by (simp add: split_host_port_def join_host_port_def strip_brackets_plain)
  qed
qed

lemma split_format_host:
  assumes "CHR ''['' \<notin> set h"
  shows "split_host_port (format_host h) = (h, [])"
proof (cases "CHR '':'' \<in> set h")
  case True
  then obtain a b where h: "h = a @ CHR '':'' # b" "CHR '':'' \<notin> set b"
    by (metis split_list_last)
  then have "cut_last (CHR '':'') (CHR ''['' # h @ '']'') = Some (CHR ''['' # a, b @ '']'')"
    using cut_last_append [of "CHR '':''" "b @ '']''" "CHR ''['' # a"] by simp
  moreover have "\<not> is_digit (CHR '']'')" by (simp add: is_digit_def byte_def)
  ultimately show ?thesis
    using True by (simp add: split_host_port_def format_host_def contains_byte_def
        strip_brackets_bracketed)
next
  case False
  then show ?thesis
    by (simp add: split_host_port_def format_host_def contains_byte_def cut_last_def
        strip_brackets_plain assms)
qed

lemma port_digits: "list_all is_digit (url_port u)"
  by (auto simp: url_port_def split_host_port_def split: option.splits)

lemma ascii_lower_idem: "ascii_lower (ascii_lower c) = ascii_lower c"
  by (auto simp: ascii_lower_def is_upper_def byte_char_of)

lemma ascii_lower_ascii: "is_ascii c \<Longrightarrow> is_ascii (ascii_lower c)"
  by (auto simp: ascii_lower_def is_ascii_def is_upper_def byte_char_of)

lemma to_lower_idem:
  assumes "list_all is_ascii s"
  shows "to_lower L (to_lower L s) = to_lower L s"
proof -
  have "list_all is_ascii (map ascii_lower s)"
    using assms by (simp add: list_all_iff ascii_lower_ascii)
  with assms show ?thesis by (simp add: to_lower_def ascii_lower_idem)
qed

lemma byte_ascii_lower: "byte (ascii_lower c) = (if is_upper c then byte c + 32 else byte c)"
  by (simp add: ascii_lower_def is_upper_def byte_char_of)

lemma to_lower_plain:
  assumes "list_all is_ascii s" and "CHR ''['' \<notin> set s"
  shows "CHR ''['' \<notin> set (to_lower L s)"
proof -
  have bracket: "byte (CHR ''['') = 91" by (simp add: byte_def)
  have low: "ascii_lower c \<noteq> CHR ''[''" if c: "c \<noteq> CHR ''[''" for c
  proof
    assume eq: "ascii_lower c = CHR ''[''"
    then have "byte (ascii_lower c) = 91" by (simp only: bracket)
    then have "\<not> is_upper c" by (auto simp: byte_ascii_lower is_upper_def)
    then show False using eq c by (simp add: ascii_lower_def)
  qed
  have "CHR ''['' \<notin> ascii_lower ` set s"
  proof
    assume "CHR ''['' \<in> ascii_lower ` set s"
    then obtain c where "c \<in> set s" "ascii_lower c = CHR ''[''" by (metis imageE)
    then show False using low [of c] assms(2) by metis
  qed
  then show ?thesis using assms(1) by (simp add: to_lower_def)
qed

lemma split_normalize_host:
  assumes "list_all is_ascii h" and "CHR ''['' \<notin> set h" and "list_all is_digit p"
  shows "split_host_port (normalize_host L s h p) = (to_lower L h, effective_port s p)"
proof -
  have "list_all is_digit (effective_port s p)" using assms(3) by (simp add: effective_port_def)
  with assms to_lower_plain show ?thesis
    by (simp add: normalize_host_effective split_join_host_port split_format_host)
qed

end
