(* ===== verification/Key_Properties.thy ===== *)
theory Key_Properties
  imports Cache_Key
begin

text \<open>
  What cache keys identify: their shape, the spellings of a URL that share a key, the stability of the
  canonical form, and two different URLs that collide.
\<close>

section \<open>Lemmas\<close>

lemma length_hex_encode: "length (hex_encode s) = 2 * length s"
  by (induction s) (simp_all add: hex_encode_def)

definition hex_digits :: string where
  "hex_digits = ''0123456789abcdef''"

lemma hex_digit_in: "n < 16 \<Longrightarrow> hex_digit n \<in> set hex_digits"
proof -
  have "\<forall>n \<in> set [0 ..< 16]. hex_digit n \<in> set hex_digits" by code_simp
  then show "n < 16 \<Longrightarrow> hex_digit n \<in> set hex_digits" by simp
qed

lemma hex_encode_digits: "set (hex_encode s) \<subseteq> set hex_digits"
proof -
  have "byte c div 16 < 16" for c
    by (simp add: byte_def less_mult_imp_div_less)
  then show ?thesis by (auto simp: hex_encode_def intro: hex_digit_in)
qed

lemma normalized_host:
  "url_host (normalized_url L u) =
     (let scheme = to_lower L (url_scheme u) in normalize_host L scheme (url_hostname u) (url_port u))"
  by (simp add: normalized_url_def Let_def url_hostname_def url_port_def)

lemma normalized_path: "url_path (normalized_url L u) = (if url_path u = [] then ''/'' else url_path u)"
  by (simp add: normalized_url_def Let_def)

text \<open>Where the query stands in a printed URL.\<close>

definition url_front :: "url \<Rightarrow> string" where
  "url_front u = url_string (u\<lparr>url_raw_query := [], url_force_query := False, url_fragment := []\<rparr>)"

lemma url_string_query:
  "url_string u = url_front u @
     (if url_force_query u \<or> url_raw_query u \<noteq> [] then ''?'' @ url_raw_query u else []) @
     (if url_fragment u \<noteq> [] then ''#'' @ escaped_fragment u else [])"
proof -
  let ?v = "u\<lparr>url_raw_query := [], url_force_query := False, url_fragment := []\<rparr>"
  have "escaped_path ?v = escaped_path u" "url_authority ?v = url_authority u"
    by (simp_all add: escaped_path_def url_authority_def)
  then show ?thesis by (simp add: url_front_def url_string_def Let_def del: append_assoc)
qed

lemma url_front_query: "url_front (u\<lparr>url_raw_query := q\<rparr>) = url_front u"
  by (simp add: url_front_def)

lemma escaped_fragment_query: "escaped_fragment (u\<lparr>url_raw_query := q\<rparr>) = escaped_fragment u"
  by (simp add: escaped_fragment_def)

lemma url_string_fragment:
  "url_fragment u = [] \<Longrightarrow> url_string (u\<lparr>url_raw_fragment := f\<rparr>) = url_string u"
  by (simp add: url_string_def escaped_path_def url_authority_def Let_def)

lemma normalized_raw_fragment:
  "normalized_url L (u\<lparr>url_fragment := f, url_raw_fragment := g\<rparr>) = (normalized_url L u)\<lparr>url_raw_fragment := g\<rparr>"
  by (simp add: normalized_url_def Let_def url_hostname_def url_port_def)

section \<open>Properties\<close>

text \<open>
  A key is the version prefix followed by 64 lower-case hexadecimal digits, when the digest has
  its documented 32 bytes.
\<close>

theorem key_format:
  assumes "key_from_parsed_url L u = Inr k" and "\<And>s. length (lib_sha256 L s) = 32"
  shows "\<exists>d. k = ''v1:'' @ d \<and> length d = 64 \<and> set d \<subseteq> set ''0123456789abcdef''"
  using assms hex_encode_digits length_hex_encode
  by (auto simp: key_from_parsed_url_def key_from_normalized_url_def cache_key_version_prefix_def
      hex_digits_def split: option.splits if_splits)

text \<open>
  C24. Spellings of one URL share a key: letter case of scheme and host, an explicit default port, an
  empty path for \<open>/\<close>, the order of the query's pieces and the fragment make no difference.
\<close>

theorem key_ignores_spelling:
  assumes "url_scheme u \<noteq> []" "url_scheme v \<noteq> []" "url_host u \<noteq> []" "url_host v \<noteq> []"
    and scheme: "to_lower L (url_scheme u) = to_lower L (url_scheme v)"
    and host: "to_lower L (url_hostname u) = to_lower L (url_hostname v)"
    and port: "effective_port (to_lower L (url_scheme u)) (url_port u) =
      effective_port (to_lower L (url_scheme u)) (url_port v)"
    and path: "(if url_path u = [] then ''/'' else url_path u) = (if url_path v = [] then ''/'' else url_path v)"
    and query: "mset (split (CHR ''&'') (url_raw_query u)) = mset (split (CHR ''&'') (url_raw_query v))"
    and same: "url_opaque u = url_opaque v" "url_user u = url_user v" "url_raw_path u = url_raw_path v"
      "url_omit_host u = url_omit_host v" "url_force_query u = url_force_query v"
  shows "key_from_parsed_url L (Some u) = key_from_parsed_url L (Some v)"
proof -
  let ?v = "(normalized_url L v)\<lparr>url_raw_fragment := url_raw_fragment u\<rparr>"
  have "url_host (normalized_url L u) = url_host (normalized_url L v)"
    unfolding normalized_host Let_def normalize_host_effective by (simp add: scheme [symmetric] host port)
  moreover have "url_path (normalized_url L u) = url_path (normalized_url L v)"
    unfolding normalized_path by (rule path)
  moreover have "url_raw_query (normalized_url L u) = url_raw_query (normalized_url L v)"
    using canonical_query_perm [OF query] by (simp add: normalized_url_def Let_def)
  ultimately have "normalized_url L u = ?v"
    using same scheme by (intro url.equality) (simp_all add: normalized_url_def Let_def)
  then have "normalize_parsed_url L u = normalize_parsed_url L v"
    by (simp add: normalize_parsed_url_def url_string_fragment normalized_url_def Let_def)
  then show ?thesis using assms(1-4) by (simp add: key_from_parsed_url_def)
qed

text \<open>
  The canonical form is stable: normalizing it again changes nothing, for an ASCII scheme and an
  ASCII host name without an opening bracket.
\<close>

theorem normalized_url_idempotent:
  assumes "list_all is_ascii (url_scheme u)" and "list_all is_ascii (url_hostname u)"
    and "CHR ''['' \<notin> set (url_hostname u)"
  shows "normalized_url L (normalized_url L u) = normalized_url L u"
proof -
  let ?s = "to_lower L (url_scheme u)" and ?n = "normalized_url L u"
  have split: "split_host_port (url_host ?n) = (to_lower L (url_hostname u), effective_port ?s (url_port u))"
    unfolding normalized_host Let_def using split_normalize_host [OF assms(2,3) port_digits] .
  have low: "to_lower L ?s = ?s" "to_lower L (to_lower L (url_hostname u)) = to_lower L (url_hostname u)"
    using to_lower_idem assms by blast+
  have n: "url_scheme ?n = ?s" by (simp add: normalized_url_def Let_def)
  have eff: "effective_port ?s (effective_port ?s (url_port u)) = effective_port ?s (url_port u)"
    by (simp add: effective_port_def)
  have "url_host (normalized_url L ?n) = url_host ?n"
    unfolding normalized_host [of L ?n] n Let_def low
    by (simp add: url_hostname_def [of ?n] url_port_def [of ?n] split normalize_host_effective low eff)
      (simp add: normalized_host Let_def normalize_host_effective)
  then show ?thesis
    by (intro url.equality)
      (simp_all add: n low normalized_url_def [of L ?n] Let_def,
       simp_all add: normalized_url_def Let_def canonical_query_idem)
qed

text \<open>
  C40. Two different URLs can share a key: a piece of the query that holds a semicolon or a malformed
  percent escape is dropped from the key although it is sent upstream.
\<close>

theorem key_collision_on_dropped_piece:
  assumes "CHR ''&'' \<notin> set p" and "parse_piece p = None"
  shows "key_from_parsed_url L (Some (u\<lparr>url_raw_query := q @ CHR ''&'' # p\<rparr>)) =
       key_from_parsed_url L (Some (u\<lparr>url_raw_query := q\<rparr>)) \<and>
     url_string (u\<lparr>url_raw_query := q @ CHR ''&'' # p\<rparr>) \<noteq> url_string (u\<lparr>url_raw_query := q\<rparr>)"
proof -
  have "normalized_url L (u\<lparr>url_raw_query := q @ CHR ''&'' # p\<rparr>) = normalized_url L (u\<lparr>url_raw_query := q\<rparr>)"
    using canonical_query_drop [OF assms, of q]
    by (simp add: normalized_url_def Let_def url_hostname_def url_port_def)
  moreover have "length (url_string (u\<lparr>url_raw_query := q\<rparr>)) <
      length (url_string (u\<lparr>url_raw_query := q @ CHR ''&'' # p\<rparr>))"
    by (simp add: url_string_query url_front_query escaped_fragment_query)
  ultimately show ?thesis
    by (auto simp: key_from_parsed_url_def normalize_parsed_url_def)
qed

section \<open>Witnesses\<close>

definition sample_lib :: golib where
  "sample_lib = \<lparr>lib_lower = id, lib_equal_fold = (=), lib_parse = (\<lambda>_. None),
     lib_sha256 = (\<lambda>_. replicate 32 (CHR ''a'')), lib_json_valid = (\<lambda>_. True),
     lib_json_decode = (\<lambda>_. None), lib_json_encode = (\<lambda>_. Some ''{}'')\<rparr>"

definition sample_url :: "string \<Rightarrow> string \<Rightarrow> string \<Rightarrow> url" where
  "sample_url host path query =
     \<lparr>url_scheme = ''https'', url_opaque = [], url_user = None, url_host = host, url_path = path,
      url_raw_path = [], url_omit_host = False, url_force_query = False, url_raw_query = query,
      url_fragment = [], url_raw_fragment = []\<rparr>"

lemma key_format_witness:
  "\<exists>d. key_from_normalized_url sample_lib ''x'' = ''v1:'' @ d \<and> length d = 64 \<and>
     set d \<subseteq> set ''0123456789abcdef''"
proof -
  have "key_from_parsed_url sample_lib (Some (sample_url ''h'' ''/'' [])) =
      Inr (key_from_normalized_url sample_lib ''x'')"
    by (simp add: key_from_parsed_url_def sample_url_def key_from_normalized_url_def sample_lib_def)
  from key_format [OF this] show ?thesis by (simp add: sample_lib_def)
qed

lemma key_ignores_spelling_witness:
  "key_from_parsed_url sample_lib (Some (sample_url ''API.github.com:443'' [] ''b=2&a=1'')) =
   key_from_parsed_url sample_lib (Some (sample_url ''api.github.com'' ''/'' ''a=1&b=2''))"
  by (rule key_ignores_spelling) (simp_all add: sample_url_def, (code_simp)+)

lemma normalized_url_idempotent_witness:
  "normalized_url sample_lib (normalized_url sample_lib (sample_url ''API.github.com:443'' [] ''b=2&a=1'')) =
   normalized_url sample_lib (sample_url ''API.github.com:443'' [] ''b=2&a=1'')"
  by (rule normalized_url_idempotent) code_simp+

lemma key_collision_on_dropped_piece_witness:
  "key_from_parsed_url sample_lib (Some (sample_url ''h'' ''/'' ''a=1&b=%zz'')) =
     key_from_parsed_url sample_lib (Some (sample_url ''h'' ''/'' ''a=1'')) \<and>
   url_string (sample_url ''h'' ''/'' ''a=1&b=%zz'') \<noteq> url_string (sample_url ''h'' ''/'' ''a=1'')"
proof -
  have "CHR ''&'' \<notin> set ''b=%zz''" "parse_piece ''b=%zz'' = None" by code_simp+
  from key_collision_on_dropped_piece [OF this, where L = sample_lib and u = "sample_url ''h'' ''/'' []" and q = "''a=1''"]
  show ?thesis by (simp add: sample_url_def)
qed

end
