(* ===== verification/Url_Validator.thy ===== *)
theory Url_Validator
  imports Go_Url
begin

text \<open>
  Package \<open>internal/security\<close> (\<open>url_validator.go\<close>): validation of the requested URL and the host
  allowlist.
\<close>

datatype url_error =
    ErrURLRequired
  | ErrInvalidURL
  | ErrHTTPSOnly
  | ErrUpstreamHostNotAllowed
  | ErrURLUserinfoNotAllowed
  | ErrHTTPSPortOnly

fun url_error_text :: "url_error \<Rightarrow> string" where
  "url_error_text ErrURLRequired = ''url parameter is required''"
| "url_error_text ErrInvalidURL = ''url parameter is invalid''"
| "url_error_text ErrHTTPSOnly = ''url scheme must be https''"
| "url_error_text ErrUpstreamHostNotAllowed = ''upstream host is not allowlisted''"
| "url_error_text ErrURLUserinfoNotAllowed = ''url userinfo is not allowed''"
| "url_error_text ErrHTTPSPortOnly = ''url port must be 443''"

definition parse_https_url :: "golib \<Rightarrow> string \<Rightarrow> url_error + url" where
  "parse_https_url L raw =
     (let raw = trim_space raw
      in if raw = [] then Inl ErrURLRequired
         else
           (case lib_parse L raw of
              None \<Rightarrow> Inl ErrInvalidURL
            | Some u \<Rightarrow>
                if url_scheme u = [] \<or> url_host u = [] then Inl ErrInvalidURL
                else if \<not> equal_fold L (url_scheme u) ''https'' then Inl ErrHTTPSOnly
                else if url_user u \<noteq> None then Inl ErrURLUserinfoNotAllowed
                else if url_port u \<noteq> [] \<and> url_port u \<noteq> ''443'' then Inl ErrHTTPSPortOnly
                else Inr u))"

fun any_allowed :: "golib \<Rightarrow> string \<Rightarrow> string list \<Rightarrow> bool" where
  "any_allowed L host [] = False"
| "any_allowed L host (allowed # rest) =
     (if host = to_lower L (trim_space allowed) then True else any_allowed L host rest)"

definition host_allowed :: "golib \<Rightarrow> string \<Rightarrow> string list \<Rightarrow> bool" where
  "host_allowed L host allowed_hosts =
     (let host = to_lower L (trim_space host)
      in if host = [] then False else any_allowed L host allowed_hosts)"

definition parse_https_url_with_allowlist ::
  "golib \<Rightarrow> string \<Rightarrow> string list \<Rightarrow> url_error + url" where
  "parse_https_url_with_allowlist L raw allowed_hosts =
     (case parse_https_url L raw of
        Inl e \<Rightarrow> Inl e
      | Inr u \<Rightarrow>
          if allowed_hosts \<noteq> [] \<and> \<not> host_allowed L (url_hostname u) allowed_hosts
          then Inl ErrUpstreamHostNotAllowed else Inr u)"

section \<open>What is accepted\<close>

lemma any_allowed_iff: "any_allowed L h hs \<longleftrightarrow> (\<exists>a \<in> set hs. h = to_lower L (trim_space a))"
  by (induction hs) auto

lemma host_allowed_iff:
  "host_allowed L host hs \<longleftrightarrow>
     to_lower L (trim_space host) \<noteq> [] \<and>
     to_lower L (trim_space host) \<in> (\<lambda>a. to_lower L (trim_space a)) ` set hs"
  by (auto simp: host_allowed_def any_allowed_iff Let_def)

text \<open>The conditions a validated URL meets, whatever parser is plugged in.\<close>

definition safe_url :: "golib \<Rightarrow> url \<Rightarrow> bool" where
  "safe_url L u \<longleftrightarrow>
     url_scheme u \<noteq> [] \<and> url_host u \<noteq> [] \<and> equal_fold L (url_scheme u) ''https'' \<and>
     url_user u = None \<and> url_port u \<in> {[], ''443''}"

lemma parse_https_url_Inr:
  "parse_https_url L raw = Inr u \<longleftrightarrow>
     trim_space raw \<noteq> [] \<and> lib_parse L (trim_space raw) = Some u \<and> safe_url L u"
  by (auto simp: parse_https_url_def safe_url_def Let_def split: option.splits)

end
