(* ===== verification/Token_Provider.thy ===== *)
theory Token_Provider
  imports Go_Lib
begin

text \<open>
  \<open>internal/upstream/github/token_provider.go\<close>: rotation through the configured tokens, with a
  remaining-quota threshold and a cooldown after rate-limited responses. The index is the code's
  wrapping 64-bit counter. A clock argument gives the time of the \<open>k\<close>-th reading that one call makes.
\<close>

section \<open>Definitions\<close>

definition default_rate_limit_cooldown :: duration where
  "default_rate_limit_cooldown = minute"

record token_provider =
  tp_tokens :: "string list"
  tp_token_set :: "string fset"
  tp_next_index :: "64 word"
  tp_threshold :: int
  tp_cooldown_duration :: duration
  tp_remaining :: "(string, int) fmap"
  tp_cooldown_until :: "(string, time) fmap"

fun add_tokens :: "token_provider \<Rightarrow> string list \<Rightarrow> token_provider" where
  "add_tokens p [] = p"
| "add_tokens p (token # rest) =
     (if token = [] then add_tokens p rest
      else if token |\<in>| tp_token_set p then add_tokens p rest
      else add_tokens (p\<lparr>tp_tokens := tp_tokens p @ [token],
                         tp_token_set := finsert token (tp_token_set p)\<rparr>) rest)"

definition new_token_provider :: "string list \<Rightarrow> int \<Rightarrow> duration \<Rightarrow> token_provider" where
  "new_token_provider tokens threshold cooldown =
     add_tokens \<lparr>tp_tokens = [], tp_token_set = {||}, tp_next_index = 0, tp_threshold = threshold,
       tp_cooldown_duration = cooldown, tp_remaining = fmempty, tp_cooldown_until = fmempty\<rparr> tokens"

definition new_round_robin_token_provider :: "string list \<Rightarrow> token_provider" where
  "new_round_robin_token_provider tokens = new_token_provider tokens 0 default_rate_limit_cooldown"

definition new_threshold_token_provider :: "string list \<Rightarrow> int \<Rightarrow> token_provider" where
  "new_threshold_token_provider tokens threshold =
     new_token_provider tokens threshold default_rate_limit_cooldown"

definition is_in_cooldown :: "token_provider \<Rightarrow> time \<Rightarrow> string \<Rightarrow> bool" where
  "is_in_cooldown p now token =
     (case fmlookup (tp_cooldown_until p) token of None \<Rightarrow> False | Some until \<Rightarrow> time_before now until)"

definition is_preferred :: "token_provider \<Rightarrow> time \<Rightarrow> string \<Rightarrow> bool" where
  "is_preferred p now token =
     (if is_in_cooldown p now token then False
      else if tp_threshold p \<le> 0 then True
      else (case fmlookup (tp_remaining p) token of
              None \<Rightarrow> True
            | Some remaining \<Rightarrow> remaining \<ge> tp_threshold p))"

definition rotated :: "token_provider \<Rightarrow> nat \<Rightarrow> nat \<Rightarrow> string" where
  "rotated p index offset = tp_tokens p ! ((index + offset) mod length (tp_tokens p))"

definition choose_token :: "token_provider \<Rightarrow> (nat \<Rightarrow> time) \<Rightarrow> nat \<Rightarrow> string" where
  "choose_token p clock index =
     (let n = length (tp_tokens p)
      in case find (\<lambda>offset. is_preferred p (clock offset) (rotated p index offset)) [0 ..< n] of
           Some offset \<Rightarrow> rotated p index offset
         | None \<Rightarrow>
             (case find (\<lambda>offset. \<not> is_in_cooldown p (clock (n + offset)) (rotated p index offset))
                     [0 ..< n] of
                Some offset \<Rightarrow> rotated p index offset
              | None \<Rightarrow> tp_tokens p ! index))"

definition next_token :: "token_provider option \<Rightarrow> (nat \<Rightarrow> time) \<Rightarrow> string \<times> token_provider option" where
  "next_token tp clock =
     (case tp of
        None \<Rightarrow> ([], tp)
      | Some p \<Rightarrow>
          if tp_tokens p = [] then ([], tp)
          else
            (let counter = tp_next_index p + 1;
                 index = unat (counter - 1) mod length (tp_tokens p)
             in (choose_token p clock index, Some (p\<lparr>tp_next_index := counter\<rparr>))))"

definition has_token :: "token_provider \<Rightarrow> string \<Rightarrow> bool" where
  "has_token p token \<longleftrightarrow> token |\<in>| tp_token_set p"

definition observe_token_remaining ::
  "token_provider option \<Rightarrow> string \<Rightarrow> int \<Rightarrow> token_provider option" where
  "observe_token_remaining tp token remaining =
     (case tp of
        None \<Rightarrow> None
      | Some p \<Rightarrow>
          if token = [] \<or> \<not> has_token p token then tp
          else Some (p\<lparr>tp_remaining :=
                 fmupd token (if remaining < 0 then 0 else remaining) (tp_remaining p)\<rparr>))"

definition observe_rate_limited_token ::
  "token_provider option \<Rightarrow> string \<Rightarrow> time \<Rightarrow> token_provider option" where
  "observe_rate_limited_token tp token now =
     (case tp of
        None \<Rightarrow> None
      | Some p \<Rightarrow>
          if token = [] \<or> \<not> has_token p token then tp
          else Some (p\<lparr>tp_cooldown_until :=
                 fmupd token (time_add now (tp_cooldown_duration p)) (tp_cooldown_until p)\<rparr>))"

section \<open>Well-formedness\<close>

definition tp_wf :: "token_provider \<Rightarrow> bool" where
  "tp_wf p \<longleftrightarrow>
     distinct (tp_tokens p) \<and> [] \<notin> set (tp_tokens p) \<and>
     fset (tp_token_set p) = set (tp_tokens p) \<and>
     fset (fmdom (tp_remaining p)) \<subseteq> set (tp_tokens p) \<and>
     fset (fmdom (tp_cooldown_until p)) \<subseteq> set (tp_tokens p) \<and>
     (\<forall>t r. fmlookup (tp_remaining p) t = Some r \<longrightarrow> 0 \<le> r)"

lemma add_tokens_wf: "tp_wf p \<Longrightarrow> tp_wf (add_tokens p ts)"
  by (induction p ts rule: add_tokens.induct) (auto simp: tp_wf_def subset_iff)

lemma new_token_provider_wf: "tp_wf (new_token_provider ts threshold cooldown)"
  unfolding new_token_provider_def by (rule add_tokens_wf) (simp add: tp_wf_def)

lemma add_tokens_set:
  "tp_wf p \<Longrightarrow> set (tp_tokens (add_tokens p ts)) = set (tp_tokens p) \<union> (set ts - {[]})"
proof (induction p ts rule: add_tokens.induct)
  case (2 p token rest)
  have "tp_wf (p\<lparr>tp_tokens := tp_tokens p @ [token], tp_token_set := finsert token (tp_token_set p)\<rparr>)"
    if "token \<noteq> []" "token |\<notin>| tp_token_set p"
    using that "2.prems" by (auto simp: tp_wf_def subset_iff)
  with 2 show ?case by (auto simp: tp_wf_def)
qed simp

definition wf_opt :: "token_provider option \<Rightarrow> bool" where
  "wf_opt tp \<longleftrightarrow> (case tp of None \<Rightarrow> True | Some p \<Rightarrow> tp_wf p)"

lemma next_token_wf: "wf_opt tp \<Longrightarrow> wf_opt (snd (next_token tp clock))"
  by (auto simp: wf_opt_def next_token_def tp_wf_def Let_def split: option.splits)

lemma observe_token_remaining_wf: "wf_opt tp \<Longrightarrow> wf_opt (observe_token_remaining tp t r)"
  by (auto simp: wf_opt_def observe_token_remaining_def tp_wf_def has_token_def split: option.splits)

lemma observe_rate_limited_token_wf: "wf_opt tp \<Longrightarrow> wf_opt (observe_rate_limited_token tp t now)"
  by (auto simp: wf_opt_def observe_rate_limited_token_def tp_wf_def has_token_def
      split: option.splits)

section \<open>Which token is chosen\<close>

lemma rotated_in: "tp_tokens p \<noteq> [] \<Longrightarrow> rotated p i j \<in> set (tp_tokens p)"
  by (simp add: rotated_def)

lemma rotated_covers:
  assumes "t \<in> set (tp_tokens p)" and "i < length (tp_tokens p)"
  shows "\<exists>j < length (tp_tokens p). rotated p i j = t"
proof -
  let ?n = "length (tp_tokens p)"
  obtain m where m: "m < ?n" "tp_tokens p ! m = t"
    using assms(1) by (auto simp: in_set_conv_nth)
  have "(i + (m + (?n - i)) mod ?n) mod ?n = (i + (m + (?n - i))) mod ?n"
    by (rule mod_add_right_eq)
  also have "\<dots> = m" using m assms(2) by simp
  finally have "rotated p i ((m + (?n - i)) mod ?n) = t" using m by (simp add: rotated_def)
  moreover have "(m + (?n - i)) mod ?n < ?n" using m by (intro mod_less_divisor) linarith
  ultimately show ?thesis by blast
qed

lemma choose_token_in:
  assumes "tp_tokens p \<noteq> []" and "i < length (tp_tokens p)"
  shows "choose_token p clock i \<in> set (tp_tokens p)"
  using assms by (auto simp: choose_token_def Let_def rotated_in split: option.splits)

text \<open>With one time for the whole call, each preference class is exhausted before the next.\<close>

lemma choose_token_preferred:
  assumes "i < length (tp_tokens p)" and "t \<in> set (tp_tokens p)" and "is_preferred p now t"
  shows "is_preferred p now (choose_token p (\<lambda>_. now) i)"
proof -
  obtain j where "j < length (tp_tokens p)" "rotated p i j = t"
    using rotated_covers assms by blast
  then obtain k where
      k: "find (\<lambda>j. is_preferred p now (rotated p i j)) [0 ..< length (tp_tokens p)] = Some k"
    using assms(3) find_None_iff [of "\<lambda>j. is_preferred p now (rotated p i j)"] by fastforce
  then have "is_preferred p now (rotated p i k)" by (auto simp: find_Some_iff)
  with k show ?thesis by (simp add: choose_token_def Let_def)
qed

lemma choose_token_available:
  assumes "i < length (tp_tokens p)" and "t \<in> set (tp_tokens p)" and "\<not> is_in_cooldown p now t"
  shows "\<not> is_in_cooldown p now (choose_token p (\<lambda>_. now) i)"
proof (cases "\<exists>t' \<in> set (tp_tokens p). is_preferred p now t'")
  case True
  then have "is_preferred p now (choose_token p (\<lambda>_. now) i)"
    using choose_token_preferred assms(1) by blast
  then show ?thesis by (auto simp: is_preferred_def split: if_splits)
next
  case False
  have ne: "tp_tokens p \<noteq> []" using assms by auto
  from False have "find (\<lambda>j. is_preferred p now (rotated p i j)) [0 ..< length (tp_tokens p)] = None"
    using rotated_in [OF ne] by (auto simp: find_None_iff)
  moreover obtain j where "j < length (tp_tokens p)" "rotated p i j = t"
    using rotated_covers assms by blast
  then obtain k where
      k: "find (\<lambda>j. \<not> is_in_cooldown p now (rotated p i j)) [0 ..< length (tp_tokens p)] = Some k"
    using assms(3) find_None_iff [of "\<lambda>j. \<not> is_in_cooldown p now (rotated p i j)"] by fastforce
  moreover from k have "\<not> is_in_cooldown p now (rotated p i k)" by (auto simp: find_Some_iff)
  ultimately show ?thesis by (simp add: choose_token_def Let_def)
qed

lemma choose_token_all_preferred:
  assumes "i < length (tp_tokens p)" and "\<And>t now. t \<in> set (tp_tokens p) \<Longrightarrow> is_preferred p now t"
  shows "choose_token p clock i = tp_tokens p ! i"
proof -
  have ne: "tp_tokens p \<noteq> []" using assms(1) by auto
  have "[0 ..< length (tp_tokens p)] = 0 # [Suc 0 ..< length (tp_tokens p)]"
    using ne by (simp add: upt_rec)
  then show ?thesis
    using assms rotated_in [OF ne] by (simp add: choose_token_def Let_def rotated_def)
qed

text \<open>The choice as the first token of the rotation in each class, and the classes themselves.\<close>

lemma hd_map_filter:
  "hd (map f (filter P xs) @ ys) = (case find P xs of Some x \<Rightarrow> f x | None \<Rightarrow> hd ys)"
  by (induction xs) auto

lemma case_find_cong:
  assumes "\<And>k. k \<in> set xs \<Longrightarrow> f k = g k" and "d = e"
  shows "(case find P xs of None \<Rightarrow> d | Some k \<Rightarrow> f k) = (case find P xs of None \<Rightarrow> e | Some k \<Rightarrow> g k)"
  using assms by (auto simp: find_Some_iff2 split: option.split) (metis assms(1) find_Some_iff nth_mem)

lemma choose_token_first:
  assumes "i < length (tp_tokens p)"
  shows "choose_token p clock i =
     (let n = length (tp_tokens p); order = rotate i (tp_tokens p)
      in hd (map ((!) order) (filter (\<lambda>k. is_preferred p (clock k) (order ! k)) [0 ..< n]) @
             map ((!) order) (filter (\<lambda>k. \<not> is_in_cooldown p (clock (n + k)) (order ! k)) [0 ..< n]) @
             order))"
proof -
  have nth: "k < length (tp_tokens p) \<Longrightarrow> rotate i (tp_tokens p) ! k = rotated p i k" for k
    by (simp add: rotated_def nth_rotate)
  have same: "find (\<lambda>k. Q k (rotate i (tp_tokens p) ! k)) [0 ..< length (tp_tokens p)] =
      find (\<lambda>k. Q k (rotated p i k)) [0 ..< length (tp_tokens p)]" for Q
    by (rule find_cong) (simp_all add: nth)
  have "hd (rotate i (tp_tokens p)) = tp_tokens p ! i"
    using assms by (subst hd_rotate_conv_nth) auto
  then show ?thesis
    unfolding choose_token_def Let_def hd_map_filter same [of "\<lambda>k. is_preferred p (clock k)"]
      same [of "\<lambda>k t. \<not> is_in_cooldown p (clock (length (tp_tokens p) + k)) t"]
    by (intro case_find_cong) (simp_all add: nth)
qed

lemma is_in_cooldown_iff:
  "is_in_cooldown p now t \<longleftrightarrow> (\<exists>until. fmlookup (tp_cooldown_until p) t = Some until \<and> now < until)"
  by (auto simp: is_in_cooldown_def split: option.splits)

lemma is_preferred_iff:
  "is_preferred p now t \<longleftrightarrow>
     \<not> is_in_cooldown p now t \<and>
     \<not> (0 < tp_threshold p \<and>
        (\<exists>remaining. fmlookup (tp_remaining p) t = Some remaining \<and> remaining < tp_threshold p))"
  by (auto simp: is_preferred_def split: option.splits)

section \<open>Repeated calls\<close>

fun next_tokens :: "token_provider option \<Rightarrow> (nat \<Rightarrow> time) list \<Rightarrow> string list \<times> token_provider option" where
  "next_tokens tp [] = ([], tp)"
| "next_tokens tp (clock # clocks) =
     (case next_token tp clock of
        (t, tp') \<Rightarrow> (case next_tokens tp' clocks of (ts, tp'') \<Rightarrow> (t # ts, tp'')))"

lemma is_preferred_index [simp]:
  "is_preferred (p\<lparr>tp_next_index := n\<rparr>) = is_preferred p"
  by (intro ext) (simp add: is_preferred_def is_in_cooldown_def split: option.splits)

lemma is_in_cooldown_index [simp]:
  "is_in_cooldown (p\<lparr>tp_next_index := n\<rparr>) = is_in_cooldown p"
  by (intro ext) (simp add: is_in_cooldown_def)

lemma next_tokens_round_robin:
  assumes "tp_tokens p \<noteq> []" and "\<And>t now. t \<in> set (tp_tokens p) \<Longrightarrow> is_preferred p now t"
    and "unat (tp_next_index p) + length clocks < 2 ^ 64"
  shows "fst (next_tokens (Some p) clocks) =
    map (\<lambda>k. tp_tokens p ! ((unat (tp_next_index p) + k) mod length (tp_tokens p)))
      [0 ..< length clocks]"
  using assms
proof (induction clocks arbitrary: p)
  case (Cons clock clocks)
  let ?p = "p\<lparr>tp_next_index := tp_next_index p + 1\<rparr>"
  have idx: "unat (tp_next_index p) mod length (tp_tokens p) < length (tp_tokens p)"
    using Cons.prems(1) by simp
  have step: "next_token (Some p) clock =
      (tp_tokens p ! (unat (tp_next_index p) mod length (tp_tokens p)), Some ?p)"
    using Cons.prems choose_token_all_preferred [OF idx] by (simp add: next_token_def Let_def)
  have succ: "unat (tp_next_index p + 1) = Suc (unat (tp_next_index p))"
    using Cons.prems(3) by (subst unat_add_lem [THEN iffD1]) auto
  have "fst (next_tokens (Some ?p) clocks) =
      map (\<lambda>k. tp_tokens p ! ((unat (tp_next_index p + 1) + k) mod length (tp_tokens p)))
        [0 ..< length clocks]"
    using Cons.IH [of ?p] Cons.prems succ by simp
  then show ?case
    by (simp add: step succ map_upt_Suc split_beta del: upt_Suc)
qed simp

section \<open>Properties\<close>

text \<open>
  C37. \<open>NextToken\<close> takes the configured tokens in rotation, starting at its counter, and returns the
  first that is not cooling down and not below the threshold (a token is below it if the threshold is
  positive and the last observed remaining quota is smaller); if there is none, the first that is not
  cooling down, and if all are cooling down the one at the counter. Each token is judged at the clock
  reading made when it is looked at, so the clock may advance during the call. The counter advances by
  one and nothing else of the provider changes.
\<close>

theorem next_token_choice:
  assumes "tp_tokens p \<noteq> []"
  shows "let n = length (tp_tokens p);
      order = rotate (unat (tp_next_index p)) (tp_tokens p);
      cooling = (\<lambda>now t. \<exists>until. fmlookup (tp_cooldown_until p) t = Some until \<and> now < until);
      below = (\<lambda>t. 0 < tp_threshold p \<and>
                 (\<exists>remaining. fmlookup (tp_remaining p) t = Some remaining \<and> remaining < tp_threshold p))
    in next_token (Some p) clock =
         (hd (map ((!) order)
                (filter (\<lambda>k. \<not> cooling (clock k) (order ! k) \<and> \<not> below (order ! k)) [0 ..< n]) @
              map ((!) order) (filter (\<lambda>k. \<not> cooling (clock (n + k)) (order ! k)) [0 ..< n]) @
              order),
          Some (p\<lparr>tp_next_index := tp_next_index p + 1\<rparr>))"
proof -
  let ?n = "length (tp_tokens p)" and ?i = "unat (tp_next_index p)"
  have i: "?i mod ?n < ?n" using assms by simp
  have "fst (next_token (Some p) clock) = choose_token p clock (?i mod ?n)"
    "snd (next_token (Some p) clock) = Some (p\<lparr>tp_next_index := tp_next_index p + 1\<rparr>)"
    using assms by (simp_all add: next_token_def Let_def)
  then show ?thesis
    unfolding choose_token_first [OF i] is_preferred_iff is_in_cooldown_iff
    by (simp add: Let_def prod_eq_iff flip: rotate_conv_mod)
qed

text \<open>
  Of three tokens with a threshold of 5 the first has 2 requests left and the second cools down until
  100: at time 7 the third is chosen.
\<close>

lemma next_token_choice_witness:
  "(let p = (the (observe_rate_limited_token (observe_token_remaining
        (Some (new_token_provider [''a'', ''b'', ''c''] 5 100)) ''a'' 2) ''b'' 0))
    in fst (next_token (Some p) (\<lambda>_. 7)) = ''c'')"
  using next_token_choice [of "the (observe_rate_limited_token (observe_token_remaining
        (Some (new_token_provider [''a'', ''b'', ''c''] 5 100)) ''a'' 2) ''b'' 0)" "\<lambda>_. 7"]
  by (simp add: new_token_provider_def observe_token_remaining_def observe_rate_limited_token_def
      has_token_def Let_def)

text \<open>
  Without feedback on its tokens a new provider is fair: it returns the distinct non-empty
  configured tokens in rotation, for fewer than \<open>2 ^ 64\<close> calls.
\<close>

theorem new_provider_round_robin:
  assumes "tp_tokens (new_token_provider ts threshold cooldown) \<noteq> []" and "length clocks < 2 ^ 64"
  defines "p \<equiv> new_token_provider ts threshold cooldown"
  shows "fst (next_tokens (Some p) clocks) =
       map (\<lambda>k. tp_tokens p ! (k mod length (tp_tokens p))) [0 ..< length clocks] \<and>
     distinct (tp_tokens p) \<and> set (tp_tokens p) = set ts - {[]}"
proof -
  let ?q = "\<lparr>tp_tokens = [], tp_token_set = {||}, tp_next_index = 0, tp_threshold = threshold,
       tp_cooldown_duration = cooldown, tp_remaining = fmempty, tp_cooldown_until = fmempty\<rparr>"
  have frame: "tp_next_index (add_tokens q us) = tp_next_index q \<and>
      tp_remaining (add_tokens q us) = tp_remaining q \<and>
      tp_cooldown_until (add_tokens q us) = tp_cooldown_until q" for q us
    by (induction q us rule: add_tokens.induct) auto
  have fresh: "tp_next_index p = 0" "tp_remaining p = fmempty" "tp_cooldown_until p = fmempty"
    using frame [of ?q ts] by (simp_all add: p_def new_token_provider_def)
  then have "is_preferred p now t" for now t by (simp add: is_preferred_def is_in_cooldown_def)
  then have "fst (next_tokens (Some p) clocks) =
      map (\<lambda>k. tp_tokens p ! (k mod length (tp_tokens p))) [0 ..< length clocks]"
    using next_tokens_round_robin [of p clocks] assms fresh by simp
  moreover have "tp_wf p" unfolding p_def by (rule new_token_provider_wf)
  moreover have "set (tp_tokens p) = set ts - {[]}"
    using add_tokens_set [of ?q ts] by (simp add: p_def new_token_provider_def tp_wf_def)
  ultimately show ?thesis by (simp add: tp_wf_def)
qed

lemma new_provider_round_robin_witness:
  "fst (next_tokens (Some (new_token_provider [''a'', ''b'', ''a''] 0 minute))
      [\<lambda>_. 1, \<lambda>_. 1, \<lambda>_. 1]) =
     [''a'', ''b'', ''a'']"
  using new_provider_round_robin [of "[''a'', ''b'', ''a'']" 0 minute "[\<lambda>_. 1, \<lambda>_. 1, \<lambda>_. 1]"]
  by (simp add: new_token_provider_def upt_rec del: next_tokens.simps)

text \<open>
  A token that was just rate limited is not used again during its cooldown while another
  configured token is available.
\<close>

theorem rate_limited_token_rests:
  assumes "tp_wf p" and "t \<in> set (tp_tokens p)" and "u \<in> set (tp_tokens p)" and "u \<noteq> t"
    and "\<not> is_in_cooldown p now u" and "now < limited_at + tp_cooldown_duration p"
  shows "fst (next_token (observe_rate_limited_token (Some p) t limited_at) (\<lambda>_. now)) \<noteq> t"
proof -
  have "t \<noteq> []" using assms(1,2) by (auto simp: tp_wf_def)
  then obtain q where q: "observe_rate_limited_token (Some p) t limited_at = Some q"
    "tp_tokens q = tp_tokens p"
    "fmlookup (tp_cooldown_until q) t = Some (limited_at + tp_cooldown_duration p)"
    "fmlookup (tp_cooldown_until q) u = fmlookup (tp_cooldown_until p) u"
    using assms(1,2,4) by (auto simp: observe_rate_limited_token_def has_token_def tp_wf_def)
  let ?i = "unat (tp_next_index q) mod length (tp_tokens q)"
  have "tp_tokens q \<noteq> []" using q(2) assms(2) by auto
  then have i: "?i < length (tp_tokens q)" by simp
  have "\<not> is_in_cooldown q now u" using q(4) assms(5) by (simp add: is_in_cooldown_def)
  then have "\<not> is_in_cooldown q now (choose_token q (\<lambda>_. now) ?i)"
    using choose_token_available [OF i] q(2) assms(3) by simp
  moreover have "is_in_cooldown q now t" using q(3) assms(6) by (simp add: is_in_cooldown_def)
  ultimately show ?thesis using q(1,2) assms(2) by (auto simp: next_token_def Let_def)
qed

lemma rate_limited_token_rests_witness:
  "fst (next_token (observe_rate_limited_token
      (Some (new_threshold_token_provider [''a'', ''b''] 0)) ''a'' 100) (\<lambda>_. 200)) \<noteq> ''a''"
  by (rule rate_limited_token_rests [of _ _ "''b''"])
    (auto simp: new_threshold_token_provider_def new_token_provider_def tp_wf_def
      is_in_cooldown_def default_rate_limit_cooldown_def)

end
