(* ===== verification/Upstream_Client.thy ===== *)
theory Upstream_Client
  imports Url_Validator Token_Provider
begin

unbundle bit_operations_syntax

text \<open>
  \<open>internal/upstream/github/client.go\<close>: which redirects are followed, which requests carry a token,
  which tokens are put on cooldown and which resolved addresses may be dialled. The HTTP exchange
  itself is an argument of the service: the reply is a function of what is sent.
\<close>

section \<open>Requests and replies\<close>

text \<open>
  A body yields its bytes and then ends, or fails with an error after them. \<open>resp_header\<close> is
  \<open>Header.Get\<close>.
\<close>

record body_stream =
  body_bytes :: string
  body_fails :: "string option"

record http_response =
  resp_status_code :: int
  resp_status :: string
  resp_header :: "string \<Rightarrow> string"
  resp_body :: body_stream

datatype upstream_result = Up_Err string | Up_Resp http_response

text \<open>The request headers \<open>Client.Get\<close> sets.\<close>

definition authenticated_hosts :: "string list" where
  "authenticated_hosts = [''api.github.com'']"

definition should_authenticate :: "golib \<Rightarrow> url option \<Rightarrow> bool" where
  "should_authenticate L destination =
     (case destination of
        None \<Rightarrow> False
      | Some u \<Rightarrow> to_lower L (url_hostname u) \<in> set authenticated_hosts)"

definition request_headers :: "golib \<Rightarrow> url \<Rightarrow> string \<Rightarrow> string \<Rightarrow> (string \<times> string) list" where
  "request_headers L u token etag =
     (if token \<noteq> [] \<and> should_authenticate L (Some u)
      then [(''Authorization'', ''token '' @ token)] else []) @
     (if etag \<noteq> [] then [(''If-None-Match'', etag)] else [])"

section \<open>Redirects\<close>

definition redirect_url_allowed :: "golib \<Rightarrow> url option \<Rightarrow> string list \<Rightarrow> bool" where
  "redirect_url_allowed L destination allowed_hosts =
     (case destination of
        None \<Rightarrow> False
      | Some u \<Rightarrow>
          if url_user u \<noteq> None \<or> url_scheme u \<noteq> ''https'' then False
          else if url_port u \<noteq> [] \<and> url_port u \<noteq> ''443'' then False
          else allowed_hosts = [] \<or> host_allowed L (url_hostname u) allowed_hosts)"

text \<open>
  The \<open>CheckRedirect\<close> hook: the request (with its URL, either of them possibly nil) and the requests
  already made, which it ignores. \<open>None\<close> lets the client follow the redirect.
\<close>

datatype client_error = ErrRedirectNotAllowed | ErrPrivateAddressNotAllowed

definition redirect_validator ::
  "golib \<Rightarrow> string list \<Rightarrow> url option option \<Rightarrow> url list \<Rightarrow> client_error option" where
  "redirect_validator L allowed_hosts req via =
     (case req of
        None \<Rightarrow> Some ErrRedirectNotAllowed
      | Some u \<Rightarrow> if u = None \<or> \<not> redirect_url_allowed L u allowed_hosts
                  then Some ErrRedirectNotAllowed else None)"

section \<open>Rate limits\<close>

definition is_rate_limited_status :: "int \<Rightarrow> bool" where
  "is_rate_limited_status code \<longleftrightarrow> code = 403 \<or> code = 429"

definition observe_rate_limit ::
  "string \<Rightarrow> http_response \<Rightarrow> token_provider option \<Rightarrow> time \<Rightarrow> token_provider option" where
  "observe_rate_limit token response observer now =
     (if token = [] then observer
      else if is_rate_limited_status (resp_status_code response)
      then observe_rate_limited_token observer token now
      else observer)"

section \<open>Addresses\<close>

text \<open>
  A \<open>net.IP\<close> is a byte slice, of length 4 or 16 for a valid address. The classifications of the
  standard library, byte by byte; \<open>ip_at\<close> reads a byte that the length checks have made available.
\<close>

type_synonym ip = "8 word list"

definition ip_at :: "ip \<Rightarrow> nat \<Rightarrow> 8 word" where
  "ip_at p i = (if i < length p then p ! i else 0)"

definition v4_prefix :: ip where
  "v4_prefix = replicate 10 0 @ [255, 255]"

definition to4 :: "ip \<Rightarrow> ip option" where
  "to4 p =
     (if length p = 4 then Some p
      else if length p = 16 \<and> take 12 p = v4_prefix then Some (drop 12 p)
      else None)"

definition ip_equal :: "ip \<Rightarrow> ip \<Rightarrow> bool" where
  "ip_equal p q \<longleftrightarrow>
     (if length p = length q then p = q
      else if length p = 4 \<and> length q = 16 then take 12 q = v4_prefix \<and> p = drop 12 q
      else if length p = 16 \<and> length q = 4 then take 12 p = v4_prefix \<and> drop 12 p = q
      else False)"

definition ipv4_zero :: ip where "ipv4_zero = v4_prefix @ [0, 0, 0, 0]"
definition ipv4_bcast :: ip where "ipv4_bcast = v4_prefix @ [255, 255, 255, 255]"
definition ipv6_unspecified :: ip where "ipv6_unspecified = replicate 16 0"
definition ipv6_loopback :: ip where "ipv6_loopback = replicate 15 0 @ [1]"

definition is_unspecified :: "ip \<Rightarrow> bool" where
  "is_unspecified p \<longleftrightarrow> ip_equal p ipv4_zero \<or> ip_equal p ipv6_unspecified"

definition is_loopback :: "ip \<Rightarrow> bool" where
  "is_loopback p = (case to4 p of Some q \<Rightarrow> ip_at q 0 = 127 | None \<Rightarrow> ip_equal p ipv6_loopback)"

definition is_private :: "ip \<Rightarrow> bool" where
  "is_private p =
     (case to4 p of
        Some q \<Rightarrow> ip_at q 0 = 10 \<or> (ip_at q 0 = 172 \<and> ip_at q 1 AND 240 = 16) \<or>
                   (ip_at q 0 = 192 \<and> ip_at q 1 = 168)
      | None \<Rightarrow> length p = 16 \<and> ip_at p 0 AND 254 = 252)"

definition is_multicast :: "ip \<Rightarrow> bool" where
  "is_multicast p =
     (case to4 p of
        Some q \<Rightarrow> ip_at q 0 AND 240 = 224
      | None \<Rightarrow> length p = 16 \<and> ip_at p 0 = 255)"

definition is_link_local_multicast :: "ip \<Rightarrow> bool" where
  "is_link_local_multicast p =
     (case to4 p of
        Some q \<Rightarrow> ip_at q 0 = 224 \<and> ip_at q 1 = 0 \<and> ip_at q 2 = 0
      | None \<Rightarrow> length p = 16 \<and> ip_at p 0 = 255 \<and> ip_at p 1 AND 15 = 2)"

definition is_link_local_unicast :: "ip \<Rightarrow> bool" where
  "is_link_local_unicast p =
     (case to4 p of
        Some q \<Rightarrow> ip_at q 0 = 169 \<and> ip_at q 1 = 254
      | None \<Rightarrow> length p = 16 \<and> ip_at p 0 = 254 \<and> ip_at p 1 AND 192 = 128)"

definition is_global_unicast :: "ip \<Rightarrow> bool" where
  "is_global_unicast p \<longleftrightarrow>
     (length p = 4 \<or> length p = 16) \<and> \<not> ip_equal p ipv4_bcast \<and> \<not> is_unspecified p \<and>
     \<not> is_loopback p \<and> \<not> is_multicast p \<and> \<not> is_link_local_unicast p"

text \<open>A CIDR block, its network number already masked, and \<open>IPNet.Contains\<close>.\<close>

record ip_net =
  net_ip :: ip
  net_mask :: ip

definition prefix_mask :: "nat \<Rightarrow> nat \<Rightarrow> ip" where
  "prefix_mask len bits =
     map (\<lambda>i. if 8 * i + 8 \<le> bits then 255
              else if bits \<le> 8 * i then 0
              else push_bit (8 - (bits - 8 * i)) 255)
         [0 ..< len]"

definition mk_net :: "ip \<Rightarrow> nat \<Rightarrow> ip_net" where
  "mk_net p bits =
     \<lparr>net_ip = map2 (AND) p (prefix_mask (length p) bits), net_mask = prefix_mask (length p) bits\<rparr>"

text \<open>
  \<open>networkNumberAndMask\<close>, two empty slices for a network that is not valid, and \<open>Contains\<close>: both sides
  in 4-byte form if they have one.
\<close>

definition network_number_and_mask :: "ip_net \<Rightarrow> ip \<times> ip" where
  "network_number_and_mask n =
     (let p = (case to4 (net_ip n) of Some q \<Rightarrow> q | None \<Rightarrow> net_ip n); m = net_mask n
      in if length p \<noteq> 4 \<and> length p \<noteq> 16 then ([], [])
         else if length m = 4 then (if length p = 4 then (p, m) else ([], []))
         else if length m = 16 then (p, if length p = 4 then drop 12 m else m)
         else ([], []))"

definition net_contains :: "ip_net \<Rightarrow> ip \<Rightarrow> bool" where
  "net_contains n p =
     (case network_number_and_mask n of
        (nn, m) \<Rightarrow>
          (let q = (case to4 p of Some q \<Rightarrow> q | None \<Rightarrow> p)
           in length q = length nn \<and>
              list_all (\<lambda>i. nn ! i AND m ! i = q ! i AND m ! i) [0 ..< length q]))"

definition non_public_networks :: "ip_net list" where
  "non_public_networks =
     [mk_net [0, 0, 0, 0] 8,
      mk_net [100, 64, 0, 0] 10,
      mk_net [192, 0, 0, 0] 24,
      mk_net [192, 0, 2, 0] 24,
      mk_net [198, 18, 0, 0] 15,
      mk_net [198, 51, 100, 0] 24,
      mk_net [203, 0, 113, 0] 24,
      mk_net [240, 0, 0, 0] 4,
      mk_net ([32, 1, 13, 184] @ replicate 12 0) 32]"

definition is_public_ip :: "ip option \<Rightarrow> bool" where
  "is_public_ip ip =
     (case ip of
        None \<Rightarrow> False
      | Some p \<Rightarrow>
          if \<not> is_global_unicast p \<or> is_private p \<or> is_loopback p \<or> is_link_local_unicast p \<or>
             is_link_local_multicast p \<or> is_multicast p \<or> is_unspecified p
          then False
          else \<not> list_ex (\<lambda>n. net_contains n p) non_public_networks)"

section \<open>Dialling\<close>

text \<open>
  \<open>safeDialContext\<close> after the address is split: \<open>resolve\<close> is the resolver's answer for the host and
  \<open>dial\<close> says whether connecting to an address succeeds, or with which error. All addresses are
  checked before any is dialled.
\<close>

datatype dial_error = Parse_Error | Resolve_Error string | No_Addresses | Private_Address | Dial_Failed string

fun dial_each :: "(ip \<Rightarrow> string option) \<Rightarrow> ip list \<Rightarrow> string \<Rightarrow> dial_error + ip" where
  "dial_each dial [] last_err = Inl (Dial_Failed last_err)"
| "dial_each dial (a # rest) last_err =
     (case dial a of None \<Rightarrow> Inr a | Some e \<Rightarrow> dial_each dial rest e)"

definition safe_dial_context ::
  "(string \<times> string) option \<Rightarrow> (string \<Rightarrow> string + ip list) \<Rightarrow> (ip \<Rightarrow> string option) \<Rightarrow>
   dial_error + ip" where
  "safe_dial_context address resolve dial =
     (case address of
        None \<Rightarrow> Inl Parse_Error
      | Some (host, port) \<Rightarrow>
          (case resolve host of
             Inl e \<Rightarrow> Inl (Resolve_Error e)
           | Inr addresses \<Rightarrow>
               if addresses = [] then Inl No_Addresses
               else if list_ex (\<lambda>a. \<not> is_public_ip (Some a)) addresses then Inl Private_Address
               else dial_each dial addresses []))"

end
