(* ===== verification/Upstream_Properties.thy ===== *)
theory Upstream_Properties
  imports Upstream_Client
begin

unbundle bit_operations_syntax

text \<open>
  What the upstream client lets through: URLs and redirects, the hosts that see a token, and the
  addresses that may be dialled.
\<close>

section \<open>URLs and redirects\<close>

text \<open>
  \<open>ParseHTTPSURLWithAllowlist\<close> accepts exactly the texts that parse to an https URL with a host,
  no userinfo, the default port, and a host on the allowlist if one is given (compared without case
  and surrounding space), and returns the parsed URL.
\<close>

theorem allowlisted_url_iff:
  "parse_https_url_with_allowlist L raw hosts = Inr u \<longleftrightarrow>
     trim_space raw \<noteq> [] \<and> lib_parse L (trim_space raw) = Some u \<and>
     url_scheme u \<noteq> [] \<and> url_host u \<noteq> [] \<and> equal_fold L (url_scheme u) ''https'' \<and>
     url_user u = None \<and> url_port u \<in> {[], ''443''} \<and>
     (hosts = [] \<or>
      to_lower L (trim_space (url_hostname u)) \<noteq> [] \<and>
      to_lower L (trim_space (url_hostname u)) \<in> (\<lambda>a. to_lower L (trim_space a)) ` set hosts)"
proof (cases "parse_https_url L raw")
  case (Inl e)
  then have "\<not> (trim_space raw \<noteq> [] \<and> lib_parse L (trim_space raw) = Some u \<and> safe_url L u)"
    using parse_https_url_Inr [of L raw u] by auto
  with Inl show ?thesis by (auto simp: parse_https_url_with_allowlist_def safe_url_def)
next
  case (Inr v)
  then have "trim_space raw \<noteq> []" "lib_parse L (trim_space raw) = Some v" "safe_url L v"
    by (auto simp: parse_https_url_Inr)
  with Inr show ?thesis
    by (auto simp: parse_https_url_with_allowlist_def safe_url_def host_allowed_iff)
qed

text \<open>
  A redirect is followed exactly when its request has a URL with the scheme \<open>https\<close>, no userinfo,
  the default port and, if an allowlist is given, a host on it; how many redirects were already
  followed makes no difference.
\<close>

theorem redirect_followed_iff:
  "redirect_validator L hosts req via = None \<longleftrightarrow>
     (\<exists>u. req = Some (Some u) \<and> url_scheme u = ''https'' \<and> url_user u = None \<and>
        url_port u \<in> {[], ''443''} \<and>
        (hosts = [] \<or>
         to_lower L (trim_space (url_hostname u)) \<noteq> [] \<and>
         to_lower L (trim_space (url_hostname u)) \<in> (\<lambda>a. to_lower L (trim_space a)) ` set hosts))"
  by (auto simp: redirect_validator_def redirect_url_allowed_def host_allowed_iff split: option.splits)

text \<open>
  The configured token goes to \<open>api.github.com\<close> only: a request carries an \<open>Authorization\<close> header
  exactly when there is a token and the lower-case host name of its URL is that host, and the header
  holds that token.
\<close>

theorem token_only_to_github:
  "(''Authorization'', v) \<in> set (request_headers L u token etag) \<longleftrightarrow>
     token \<noteq> [] \<and> v = ''token '' @ token \<and> to_lower L (url_hostname u) = ''api.github.com''"
  by (auto simp: request_headers_def should_authenticate_def authenticated_hosts_def)

section \<open>Addresses\<close>

text \<open>Facts about all 256 bytes, by evaluation.\<close>

definition byte_masks :: "8 word \<Rightarrow> bool" where
  "byte_masks w \<longleftrightarrow>
     (w AND 240 = 16 \<longleftrightarrow> 16 \<le> uint w \<and> uint w < 32) \<and>
     (w AND 240 = 224 \<longleftrightarrow> 224 \<le> uint w \<and> uint w < 240) \<and>
     (w AND 240 = 240 \<longleftrightarrow> 240 \<le> uint w) \<and>
     (w AND 192 = 64 \<longleftrightarrow> 64 \<le> uint w \<and> uint w < 128) \<and>
     (w AND 254 = 18 \<longleftrightarrow> 18 \<le> uint w \<and> uint w < 20) \<and>
     w AND 255 = w"

lemma byte_masks_all: "byte_masks w"
proof -
  have all: "\<forall>n \<in> set [0 .. 255]. byte_masks (word_of_int n)" by code_simp
  have "uint w \<in> set [0 .. 255]" using uint_bounded [of w] by simp
  from bspec [OF all this] show ?thesis by simp
qed

lemma byte_mask_simps:
  fixes w :: "8 word"
  shows "w AND 240 = 16 \<longleftrightarrow> 16 \<le> unat w \<and> unat w < 32"
    and "w AND 240 = 224 \<longleftrightarrow> 224 \<le> unat w \<and> unat w < 240"
    and "w AND 240 = 240 \<longleftrightarrow> 240 \<le> unat w"
    and "w AND 192 = 64 \<longleftrightarrow> 64 \<le> unat w \<and> unat w < 128"
    and "w AND 254 = 18 \<longleftrightarrow> 18 \<le> unat w \<and> unat w < 20"
    and "w AND 255 = w"
proof -
  obtain n where n: "unat w = n" "uint w = int n" by simp
  note m = byte_masks_all [of w, unfolded byte_masks_def n(2)]
  show "w AND 240 = 16 \<longleftrightarrow> 16 \<le> unat w \<and> unat w < 32" using m unfolding n by simp
  show "w AND 240 = 224 \<longleftrightarrow> 224 \<le> unat w \<and> unat w < 240" using m unfolding n by simp
  show "w AND 240 = 240 \<longleftrightarrow> 240 \<le> unat w" using m unfolding n by simp
  show "w AND 192 = 64 \<longleftrightarrow> 64 \<le> unat w \<and> unat w < 128" using m unfolding n by simp
  show "w AND 254 = 18 \<longleftrightarrow> 18 \<le> unat w \<and> unat w < 20" using m unfolding n by simp
  show "w AND 255 = w" using m unfolding n by simp
qed

lemma ip4_upt: "[0 ..< length [a, b, c, d]] = [0, 1, 2, 3]"
  by (simp add: upt_rec)

lemma net_contains_ip4:
  "net_contains \<lparr>net_ip = [n0, n1, n2, n3], net_mask = [m0, m1, m2, m3]\<rparr> [a, b, c, d] \<longleftrightarrow>
     n0 AND m0 = a AND m0 \<and> n1 AND m1 = b AND m1 \<and> n2 AND m2 = c AND m2 \<and> n3 AND m3 = d AND m3"
  unfolding net_contains_def network_number_and_mask_def to4_def Let_def ip4_upt by simp

lemma net_contains_long:
  "length (net_ip n) = 16 \<Longrightarrow> length (net_mask n) = 16 \<Longrightarrow> take 12 (net_ip n) \<noteq> v4_prefix \<Longrightarrow>
   \<not> net_contains n [a, b, c, d]"
  by (simp add: net_contains_def network_number_and_mask_def to4_def)

lemma ip4_networks:
  "non_public_networks =
     [\<lparr>net_ip = [0, 0, 0, 0], net_mask = [255, 0, 0, 0]\<rparr>,
      \<lparr>net_ip = [100, 64, 0, 0], net_mask = [255, 192, 0, 0]\<rparr>,
      \<lparr>net_ip = [192, 0, 0, 0], net_mask = [255, 255, 255, 0]\<rparr>,
      \<lparr>net_ip = [192, 0, 2, 0], net_mask = [255, 255, 255, 0]\<rparr>,
      \<lparr>net_ip = [198, 18, 0, 0], net_mask = [255, 254, 0, 0]\<rparr>,
      \<lparr>net_ip = [198, 51, 100, 0], net_mask = [255, 255, 255, 0]\<rparr>,
      \<lparr>net_ip = [203, 0, 113, 0], net_mask = [255, 255, 255, 0]\<rparr>,
      \<lparr>net_ip = [240, 0, 0, 0], net_mask = [240, 0, 0, 0]\<rparr>,
      \<lparr>net_ip = [32, 1, 13, 184, 0, 0, 0, 0, 0, 0, 0, 0, 0, 0, 0, 0],
       net_mask = [255, 255, 255, 255, 0, 0, 0, 0, 0, 0, 0, 0, 0, 0, 0, 0]\<rparr>]"
  by code_simp

text \<open>The ranges of the comments in the code's table and of the standard library, for IPv4.\<close>

definition ip4_reserved :: "nat \<Rightarrow> nat \<Rightarrow> nat \<Rightarrow> bool" where
  "ip4_reserved a b c \<longleftrightarrow>
     a = 0 \<or> a = 10 \<or> a = 127 \<or> (a = 100 \<and> 64 \<le> b \<and> b < 128) \<or> (a = 169 \<and> b = 254) \<or>
     (a = 172 \<and> 16 \<le> b \<and> b < 32) \<or> (a = 192 \<and> b = 168) \<or> (a = 192 \<and> b = 0 \<and> (c = 0 \<or> c = 2)) \<or>
     (a = 198 \<and> (b = 18 \<or> b = 19)) \<or> (a = 198 \<and> b = 51 \<and> c = 100) \<or>
     (a = 203 \<and> b = 0 \<and> c = 113) \<or> 224 \<le> a"

lemma ip_constants:
  "v4_prefix = [0, 0, 0, 0, 0, 0, 0, 0, 0, 0, 255, 255]"
  "ipv6_unspecified = [0, 0, 0, 0, 0, 0, 0, 0, 0, 0, 0, 0, 0, 0, 0, 0]"
  "ipv6_loopback = [0, 0, 0, 0, 0, 0, 0, 0, 0, 0, 0, 0, 0, 0, 0, 1]"
  by code_simp+

lemma to4_mapped: "to4 (v4_prefix @ [a, b, c, d]) = Some [a, b, c, d]" "to4 [a, b, c, d] = Some [a, b, c, d]"
  by (simp_all add: to4_def ip_constants)

lemma ip4_networks_contain:
  "list_ex (\<lambda>n. net_contains n [a, b, c, d]) non_public_networks \<longleftrightarrow>
     a = 0 \<or> (a = 100 \<and> b AND 192 = 64) \<or> (a = 192 \<and> b = 0 \<and> c = 0) \<or>
     (a = 192 \<and> b = 0 \<and> c = 2) \<or> (a = 198 \<and> b AND 254 = 18) \<or>
     (a = 198 \<and> b = 51 \<and> c = 100) \<or> (a = 203 \<and> b = 0 \<and> c = 113) \<or> a AND 240 = 240"
  unfolding ip4_networks by (auto simp: net_contains_ip4 net_contains_long v4_prefix_def byte_mask_simps(6))

lemma ip4_equal:
  assumes "p = [a, b, c, d] \<or> p = v4_prefix @ [a, b, c, d]"
  shows "ip_equal p (v4_prefix @ [w, x, y, z]) \<longleftrightarrow> a = w \<and> b = x \<and> c = y \<and> d = z"
    and "\<not> ip_equal p ipv6_unspecified" and "\<not> ip_equal p ipv6_loopback"
  using assms
  by (auto simp: ip_equal_def ip_constants)

lemma ip4_classes:
  assumes "p = [a, b, c, d] \<or> p = v4_prefix @ [a, b, c, d]"
  shows "is_public_ip (Some p) \<longleftrightarrow>
     \<not> (a = 255 \<and> b = 255 \<and> c = 255 \<and> d = 255) \<and> \<not> (a = 0 \<and> b = 0 \<and> c = 0 \<and> d = 0) \<and> a \<noteq> 127 \<and>
     \<not> a AND 240 = 224 \<and> \<not> (a = 169 \<and> b = 254) \<and>
     \<not> (a = 10 \<or> a = 172 \<and> b AND 240 = 16 \<or> a = 192 \<and> b = 168) \<and>
     \<not> (a = 224 \<and> b = 0 \<and> c = 0) \<and>
     \<not> list_ex (\<lambda>n. net_contains n [a, b, c, d]) non_public_networks"
proof -
  have to4: "to4 p = Some [a, b, c, d]" using assms to4_mapped by auto
  have nets: "net_contains n p = net_contains n [a, b, c, d]" for n
    using to4 to4_mapped(2) [of a b c d] by (simp add: net_contains_def)
  have len: "length p = 4 \<or> length p = 16" using assms by (auto simp: v4_prefix_def)
  show ?thesis
    unfolding is_public_ip_def is_global_unicast_def is_unspecified_def is_loopback_def is_private_def
      is_multicast_def is_link_local_multicast_def is_link_local_unicast_def ipv4_zero_def
      ipv4_bcast_def
    using len by (simp add: ip_at_def to4 nets ip4_equal [OF assms])
qed

lemma ip4_reserved_alt:
  "\<not> ip4_reserved a b c \<longleftrightarrow>
     \<not> (a = 255 \<and> b = 255 \<and> c = 255 \<and> d = 255) \<and> \<not> (a = 0 \<and> b = 0 \<and> c = 0 \<and> d = 0) \<and> a \<noteq> 127 \<and>
     \<not> (224 \<le> a \<and> a < 240) \<and> \<not> (a = 169 \<and> b = 254) \<and>
     \<not> (a = 10 \<or> a = 172 \<and> 16 \<le> b \<and> b < 32 \<or> a = 192 \<and> b = 168) \<and>
     \<not> (a = 224 \<and> b = 0 \<and> c = 0) \<and>
     \<not> (a = 0 \<or> (a = 100 \<and> 64 \<le> b \<and> b < 128) \<or> (a = 192 \<and> b = 0 \<and> c = 0) \<or>
        (a = 192 \<and> b = 0 \<and> c = 2) \<or> (a = 198 \<and> 18 \<le> b \<and> b < 20) \<or>
        (a = 198 \<and> b = 51 \<and> c = 100) \<or> (a = 203 \<and> b = 0 \<and> c = 113) \<or> 240 \<le> a)"
proof (cases "224 \<le> a")
  case True
  then show ?thesis by (auto simp: ip4_reserved_def)
next
  case False
  then have f: "a \<noteq> 255" "a \<noteq> 224" "\<not> 240 \<le> a" by auto
  have b: "18 \<le> b \<and> b < 20 \<longleftrightarrow> b = 18 \<or> b = 19" by auto
  show ?thesis
  proof (cases "a = 0")
    case False
    then show ?thesis using f \<open>\<not> 224 \<le> a\<close> unfolding ip4_reserved_def b by (simp only: simp_thms) argo
  qed (simp add: ip4_reserved_def)
qed

text \<open>
  C33. The IPv4 addresses that may be dialled, plain or mapped into IPv6, are exactly those outside
  the special-purpose ranges the code names and those of the standard library (loopback, private,
  link-local, multicast, unspecified, broadcast).
\<close>

theorem public_ipv4_iff:
  "(is_public_ip (Some [a, b, c, d]) \<longleftrightarrow> \<not> ip4_reserved (unat a) (unat b) (unat c)) \<and>
   (is_public_ip (Some (v4_prefix @ [a, b, c, d])) \<longleftrightarrow> \<not> ip4_reserved (unat a) (unat b) (unat c))"
proof -
  have "is_public_ip (Some p) \<longleftrightarrow> \<not> ip4_reserved (unat a) (unat b) (unat c)"
    if "p = [a, b, c, d] \<or> p = v4_prefix @ [a, b, c, d]" for p
    unfolding ip4_classes [OF that] ip4_networks_contain
    unfolding byte_mask_simps
    unfolding ip4_reserved_alt [of _ _ _ "unat d"] word_unat_eq_iff by simp
  then show ?thesis by simp
qed

text \<open>
  The guard on resolved addresses: a dial succeeds only with an address the resolver gave for
  the host, and only when every address it gave is public, so that one private answer blocks the host.
\<close>

theorem dial_only_public:
  assumes "safe_dial_context address resolve dial = Inr a"
  shows "\<exists>host port addresses. address = Some (host, port) \<and> resolve host = Inr addresses \<and>
     a \<in> set addresses \<and> dial a = None \<and> (\<forall>b \<in> set addresses. is_public_ip (Some b))"
proof -
  have each: "dial_each dial bs e = Inr a \<Longrightarrow> a \<in> set bs \<and> dial a = None" for bs e
    by (induction dial bs e rule: dial_each.induct) (auto split: option.splits)
  show ?thesis
    using assms each
    by (auto simp: safe_dial_context_def list_ex_iff split: option.splits sum.splits if_splits)
qed

text \<open>
  Some IPv6 addresses that stand for IPv4 addresses pass the guard: an address of the NAT64
  prefix \<open>64:ff9b::/96\<close> is public whatever IPv4 address it embeds, a private one included.
\<close>

theorem nat64_passes:
  "is_public_ip (Some [0, 100, 255, 155, 0, 0, 0, 0, 0, 0, 0, 0, a, b, c, d])"
  unfolding is_public_ip_def is_global_unicast_def is_unspecified_def is_loopback_def is_private_def
    is_multicast_def is_link_local_multicast_def is_link_local_unicast_def ip4_networks
  by (simp add: to4_def ip_equal_def ipv4_zero_def ipv4_bcast_def ip_constants ip_at_def
      net_contains_def network_number_and_mask_def Let_def upt_rec)

section \<open>Witnesses\<close>

lemma dial_only_public_witness:
  "\<exists>host port addresses. Some (''h'', ''443'') = Some (host, port) \<and>
     (\<lambda>_. Inr [[140, 82, 112, 6]]) host = (Inr addresses :: string + ip list) \<and>
     [140, 82, 112, 6] \<in> set addresses \<and> (\<lambda>_. None :: string option) [140 :: 8 word, 82, 112, 6] = None \<and>
     (\<forall>b \<in> set addresses. is_public_ip (Some b))"
  by (rule dial_only_public) code_simp

end
