(* ===== verification/Prep_Cache.thy ===== *)
theory Prep_Cache
  imports Url_Validator
begin

text \<open>
  \<open>internal/service/version/request_prep_cache.go\<close>: the bounded memo of request preparation. The
  lookup holds the read lock and the insertion the write lock, with the preparation in between
  under no lock: they are two atomic steps.
\<close>

definition default_request_prep_cache_max_entries :: int where
  "default_request_prep_cache_max_entries = 4096"

record prepared_request =
  url_to_fetch :: string
  prep_cache_key :: string
  prep_err :: "url_error option"

definition empty_prepared :: prepared_request where
  "empty_prepared = \<lparr>url_to_fetch = [], prep_cache_key = [], prep_err = None\<rparr>"

record request_prep_cache =
  max_entries :: int
  prep_entries :: "(string, prepared_request) fmap"

definition new_request_prep_cache :: "int \<Rightarrow> request_prep_cache" where
  "new_request_prep_cache n =
     (let n = (if n \<le> 0 then default_request_prep_cache_max_entries else n)
      in \<lparr>max_entries = n, prep_entries = fmempty\<rparr>)"

text \<open>The section under the write lock: the value to return and the cache afterwards.\<close>

definition commit_prepared ::
  "request_prep_cache \<Rightarrow> string \<Rightarrow> prepared_request \<Rightarrow> prepared_request \<times> request_prep_cache" where
  "commit_prepared c raw prepared =
     (case fmlookup (prep_entries c) raw of
        Some existing \<Rightarrow> (existing, c)
      | None \<Rightarrow>
          if int (fmsize (prep_entries c)) < max_entries c
          then (prepared, c\<lparr>prep_entries := fmupd raw prepared (prep_entries c)\<rparr>)
          else (prepared, c))"

text \<open>
  \<open>GetOrPrepare\<close> with no other call in between. \<open>None\<close> is the panic of calling a nil \<open>prepare\<close>,
  which the guard at its head does not prevent.
\<close>

definition get_or_prepare ::
  "request_prep_cache option \<Rightarrow> string \<Rightarrow> (string \<Rightarrow> prepared_request) option \<Rightarrow>
   (prepared_request \<times> request_prep_cache option) option" where
  "get_or_prepare c raw prepare =
     (case (c, prepare) of
        (_, None) \<Rightarrow> None
      | (None, Some f) \<Rightarrow> Some (f raw, c)
      | (Some s, Some f) \<Rightarrow>
          (case fmlookup (prep_entries s) raw of
             Some cached \<Rightarrow> Some (cached, c)
           | None \<Rightarrow> (case commit_prepared s raw (f raw) of (p, s') \<Rightarrow> Some (p, Some s'))))"

section \<open>The memo is transparent\<close>

text \<open>Every entry is what \<open>f\<close> gives for its key, and the number of entries is bounded.\<close>

definition memo_of :: "(string \<Rightarrow> prepared_request) \<Rightarrow> request_prep_cache \<Rightarrow> bool" where
  "memo_of f c \<longleftrightarrow>
     (\<forall>raw p. fmlookup (prep_entries c) raw = Some p \<longrightarrow> p = f raw) \<and>
     int (fmsize (prep_entries c)) \<le> max_entries c"

definition memo_of_opt :: "(string \<Rightarrow> prepared_request) \<Rightarrow> request_prep_cache option \<Rightarrow> bool" where
  "memo_of_opt f c \<longleftrightarrow> (case c of None \<Rightarrow> True | Some s \<Rightarrow> memo_of f s)"

lemma new_prep_memo: "memo_of f (new_request_prep_cache n)"
  by (simp add: memo_of_def new_request_prep_cache_def Let_def
      default_request_prep_cache_max_entries_def)

lemma commit_memo:
  "memo_of f c \<Longrightarrow> fst (commit_prepared c raw (f raw)) = f raw \<and>
     memo_of f (snd (commit_prepared c raw (f raw)))"
  by (auto simp: memo_of_def commit_prepared_def fmsize_upd split: option.splits)

lemma get_or_prepare_memo:
  assumes "memo_of_opt f c"
  shows "\<exists>c'. get_or_prepare c raw (Some f) = Some (f raw, c') \<and> memo_of_opt f c' \<and> (c' = None \<longleftrightarrow> c = None)"
proof (cases c)
  case (Some s)
  then have s: "memo_of f s" using assms by (simp add: memo_of_opt_def)
  show ?thesis
  proof (cases "fmlookup (prep_entries s) raw")
    case None
    then show ?thesis
      using commit_memo [OF s, of raw] Some
      by (auto simp: get_or_prepare_def memo_of_opt_def split: prod.splits)
  next
    case (Some p)
    then have "p = f raw" using s by (simp add: memo_of_def)
    with Some \<open>c = Some s\<close> s show ?thesis by (simp add: get_or_prepare_def memo_of_opt_def)
  qed
qed (simp add: get_or_prepare_def memo_of_opt_def)

section \<open>Properties\<close>

text \<open>The results of successive calls.\<close>

fun prepare_all ::
  "(string \<Rightarrow> prepared_request) \<Rightarrow> request_prep_cache option \<Rightarrow> string list \<Rightarrow>
   (prepared_request list \<times> request_prep_cache option) option" where
  "prepare_all f c [] = Some ([], c)"
| "prepare_all f c (raw # raws) =
     (case get_or_prepare c raw (Some f) of
        None \<Rightarrow> None
      | Some (p, c') \<Rightarrow>
          (case prepare_all f c' raws of None \<Rightarrow> None | Some (ps, c'') \<Rightarrow> Some (p # ps, c'')))"

text \<open>
  C39. The memo of request preparation is transparent and bounded: any sequence of calls gives what
  preparing each URL afresh gives, and the memo never holds more than its maximum of entries.
\<close>

theorem prep_cache_transparent:
  "\<exists>c. prepare_all f (Some (new_request_prep_cache n)) raws = Some (map f raws, Some c) \<and>
     int (fmsize (prep_entries c)) \<le> (if n \<le> 0 then default_request_prep_cache_max_entries else n)"
proof -
  have kept: "get_or_prepare (Some s) raw (Some f) = Some (p, Some s') \<Longrightarrow> max_entries s' = max_entries s"
    for s s' raw p
    by (auto simp: get_or_prepare_def commit_prepared_def split: option.splits prod.splits if_splits)
  have "\<exists>c. prepare_all f (Some s) raws = Some (map f raws, Some c) \<and> memo_of f c \<and>
      max_entries c = max_entries s" if "memo_of f s" for s
    using that
  proof (induction raws arbitrary: s)
    case (Cons raw raws)
    obtain s' where s': "get_or_prepare (Some s) raw (Some f) = Some (f raw, Some s')" "memo_of f s'"
      using get_or_prepare_memo [of f "Some s" raw] Cons.prems by (auto simp: memo_of_opt_def)
    then show ?case using Cons.IH [OF s'(2)] kept [OF s'(1)] by auto
  qed simp
  from this [OF new_prep_memo, of n] show ?thesis
    by (auto simp: memo_of_def new_request_prep_cache_def Let_def)
qed

end
