(* ===== verification/Metrics.thy ===== *)
theory Metrics
  imports Prelude
begin

text \<open>
  \<open>internal/observability/metrics.go\<close>: the process counters. Each is an atomic 64-bit word; an
  increment wraps around at \<open>2 ^ 64\<close>. A nil \<open>Metrics\<close> ignores every update.
\<close>

definition unknown_rate_limit_remaining :: int where
  "unknown_rate_limit_remaining = -1"

record metrics =
  cache_hits :: "64 word"
  cache_misses :: "64 word"
  revalidate_runs :: "64 word"
  upstream_requests :: "64 word"
  upstream_errors :: "64 word"
  refresh_updated :: "64 word"
  refresh_not_mod :: "64 word"
  refresh_skipped :: "64 word"
  refresh_failed :: "64 word"
  refresh_processed :: "64 word"
  access_log_dropped :: "64 word"
  rate_limit_remain :: int

definition new_metrics :: metrics where
  "new_metrics = \<lparr>cache_hits = 0, cache_misses = 0, revalidate_runs = 0, upstream_requests = 0,
     upstream_errors = 0, refresh_updated = 0, refresh_not_mod = 0, refresh_skipped = 0,
     refresh_failed = 0, refresh_processed = 0, access_log_dropped = 0,
     rate_limit_remain = unknown_rate_limit_remaining\<rparr>"

definition inc_cache_hit :: "metrics option \<Rightarrow> metrics option" where
  "inc_cache_hit = map_option (\<lambda>m. m\<lparr>cache_hits := cache_hits m + 1\<rparr>)"

definition inc_cache_miss :: "metrics option \<Rightarrow> metrics option" where
  "inc_cache_miss = map_option (\<lambda>m. m\<lparr>cache_misses := cache_misses m + 1\<rparr>)"

definition inc_revalidate_run :: "metrics option \<Rightarrow> metrics option" where
  "inc_revalidate_run = map_option (\<lambda>m. m\<lparr>revalidate_runs := revalidate_runs m + 1\<rparr>)"

definition inc_upstream_request :: "metrics option \<Rightarrow> metrics option" where
  "inc_upstream_request = map_option (\<lambda>m. m\<lparr>upstream_requests := upstream_requests m + 1\<rparr>)"

definition inc_upstream_error :: "metrics option \<Rightarrow> metrics option" where
  "inc_upstream_error = map_option (\<lambda>m. m\<lparr>upstream_errors := upstream_errors m + 1\<rparr>)"

definition inc_refresh_updated :: "metrics option \<Rightarrow> metrics option" where
  "inc_refresh_updated = map_option (\<lambda>m. m\<lparr>refresh_updated := refresh_updated m + 1\<rparr>)"

definition inc_refresh_not_mod :: "metrics option \<Rightarrow> metrics option" where
  "inc_refresh_not_mod = map_option (\<lambda>m. m\<lparr>refresh_not_mod := refresh_not_mod m + 1\<rparr>)"

definition inc_refresh_skipped :: "metrics option \<Rightarrow> metrics option" where
  "inc_refresh_skipped = map_option (\<lambda>m. m\<lparr>refresh_skipped := refresh_skipped m + 1\<rparr>)"

definition inc_refresh_failed :: "metrics option \<Rightarrow> metrics option" where
  "inc_refresh_failed = map_option (\<lambda>m. m\<lparr>refresh_failed := refresh_failed m + 1\<rparr>)"

definition inc_refresh_processed :: "metrics option \<Rightarrow> metrics option" where
  "inc_refresh_processed = map_option (\<lambda>m. m\<lparr>refresh_processed := refresh_processed m + 1\<rparr>)"

definition inc_access_log_dropped :: "metrics option \<Rightarrow> metrics option" where
  "inc_access_log_dropped = map_option (\<lambda>m. m\<lparr>access_log_dropped := access_log_dropped m + 1\<rparr>)"

definition observe_remaining :: "int \<Rightarrow> metrics option \<Rightarrow> metrics option" where
  "observe_remaining remaining =
     map_option (\<lambda>m. m\<lparr>rate_limit_remain := (if remaining < 0 then 0 else remaining)\<rparr>)"

lemmas metrics_incs = inc_cache_hit_def inc_cache_miss_def inc_revalidate_run_def
  inc_upstream_request_def inc_upstream_error_def inc_refresh_updated_def inc_refresh_not_mod_def
  inc_refresh_skipped_def inc_refresh_failed_def inc_refresh_processed_def
  inc_access_log_dropped_def observe_remaining_def

section \<open>Snapshots\<close>

record snapshot =
  snap_cache_hits :: "64 word"
  snap_cache_misses :: "64 word"
  snap_revalidate_runs :: "64 word"
  snap_upstream_requests :: "64 word"
  snap_upstream_errors :: "64 word"
  snap_refresh_updated :: "64 word"
  snap_refresh_not_mod :: "64 word"
  snap_refresh_skipped :: "64 word"
  snap_refresh_failed :: "64 word"
  snap_refresh_processed :: "64 word"
  snap_access_log_dropped :: "64 word"
  snap_rate_limit_remain :: int

definition metrics_snapshot :: "metrics option \<Rightarrow> snapshot" where
  "metrics_snapshot m =
     (case m of
        None \<Rightarrow> \<lparr>snap_cache_hits = 0, snap_cache_misses = 0, snap_revalidate_runs = 0,
          snap_upstream_requests = 0, snap_upstream_errors = 0, snap_refresh_updated = 0,
          snap_refresh_not_mod = 0, snap_refresh_skipped = 0, snap_refresh_failed = 0,
          snap_refresh_processed = 0, snap_access_log_dropped = 0,
          snap_rate_limit_remain = unknown_rate_limit_remaining\<rparr>
      | Some m \<Rightarrow> \<lparr>snap_cache_hits = cache_hits m, snap_cache_misses = cache_misses m,
          snap_revalidate_runs = revalidate_runs m, snap_upstream_requests = upstream_requests m,
          snap_upstream_errors = upstream_errors m, snap_refresh_updated = refresh_updated m,
          snap_refresh_not_mod = refresh_not_mod m, snap_refresh_skipped = refresh_skipped m,
          snap_refresh_failed = refresh_failed m, snap_refresh_processed = refresh_processed m,
          snap_access_log_dropped = access_log_dropped m,
          snap_rate_limit_remain = rate_limit_remain m\<rparr>)"

end
