(* ===== verification/Activity_Tracker.thy ===== *)
theory Activity_Tracker
  imports Go_Lib
begin

text \<open>
  \<open>internal/service/version/activity_tracker.go\<close>: the last access time of every cache key, and the
  listing of recently active keys that drives revalidation. Go iterates over a map in an
  unspecified order: the listing takes that order as an argument, and does not depend on it.
\<close>

section \<open>Definitions\<close>

type_synonym tracker = "(string, time) fmap"

definition new_activity_tracker :: tracker where
  "new_activity_tracker = fmempty"

text \<open>\<open>wall\<close> is what \<open>time.Now\<close> would return.\<close>

definition record_activity ::
  "tracker option \<Rightarrow> string \<Rightarrow> time \<Rightarrow> time \<Rightarrow> bool \<times> tracker option" where
  "record_activity t key hit_at wall =
     (case t of
        None \<Rightarrow> (False, t)
      | Some hits \<Rightarrow>
          if key = [] then (False, t)
          else
            (let hit_at = (if is_zero hit_at then wall else hit_at);
                 newer = (case fmlookup hits key of None \<Rightarrow> True | Some prev \<Rightarrow> time_after hit_at prev)
             in (True, Some (if newer then fmupd key hit_at hits else hits))))"

text \<open>The local struct \<open>activeKey\<close>, ordered as the comparison function passed to \<open>sort.Slice\<close> does.\<close>

datatype active_key = ActiveKey (ak_key: string) (ak_hit_at: time)

definition active_less :: "active_key \<Rightarrow> active_key \<Rightarrow> bool" where
  "active_less a b \<longleftrightarrow>
     (if ak_hit_at a = ak_hit_at b then ak_key a < ak_key b
      else time_before (ak_hit_at a) (ak_hit_at b))"

instantiation active_key :: linorder
begin

definition less_active_key :: "active_key \<Rightarrow> active_key \<Rightarrow> bool" where
  "less_active_key a b \<longleftrightarrow> active_less a b"

definition less_eq_active_key :: "active_key \<Rightarrow> active_key \<Rightarrow> bool" where
  "less_eq_active_key a b \<longleftrightarrow> active_less a b \<or> a = b"

instance
proof
  fix a b c :: active_key
  show "(a < b) = (a \<le> b \<and> \<not> b \<le> a)"
    by (auto simp: less_active_key_def less_eq_active_key_def active_less_def split: if_splits)
  show "a \<le> a" by (simp add: less_eq_active_key_def)
  show "a \<le> b \<Longrightarrow> b \<le> c \<Longrightarrow> a \<le> c"
    by (auto simp: less_eq_active_key_def active_less_def split: if_splits)
  show "a \<le> b \<Longrightarrow> b \<le> a \<Longrightarrow> a = b"
    by (auto simp: less_eq_active_key_def active_less_def split: if_splits)
  show "a \<le> b \<or> b \<le> a"
    by (cases a; cases b) (auto simp: less_eq_active_key_def active_less_def)
qed

end

definition collect_active :: "tracker \<Rightarrow> time \<Rightarrow> string list \<Rightarrow> active_key list" where
  "collect_active hits since order =
     concat (map (\<lambda>key. case fmlookup hits key of
                          None \<Rightarrow> []
                        | Some hit_at \<Rightarrow>
                            if \<not> time_before hit_at since then [ActiveKey key hit_at] else [])
                 order)"

text \<open>The copying loop reads the context before each item: \<open>done i\<close> is its error then, if any.\<close>

fun copy_keys :: "(nat \<Rightarrow> string option) \<Rightarrow> nat \<Rightarrow> active_key list \<Rightarrow> string list \<Rightarrow> string + string list" where
  "copy_keys ctx i [] keys = Inr keys"
| "copy_keys ctx i (item # items) keys =
     (case ctx i of
        Some err \<Rightarrow> Inl err
      | None \<Rightarrow> copy_keys ctx (Suc i) items (keys @ [ak_key item]))"

definition active_keys_since ::
  "tracker option \<Rightarrow> (nat \<Rightarrow> string option) \<Rightarrow> time \<Rightarrow> int \<Rightarrow> string list \<Rightarrow> string + string list" where
  "active_keys_since t ctx since limit order =
     (case t of
        None \<Rightarrow> Inr []
      | Some hits \<Rightarrow>
          (let active = sort (collect_active hits since order);
               active = (if limit > 0 \<and> int (length active) > limit
                         then take (nat limit) active else active)
           in copy_keys ctx 0 active []))"

definition prune_active_keys_before :: "tracker option \<Rightarrow> time \<Rightarrow> tracker option" where
  "prune_active_keys_before t cutoff =
     (case t of
        None \<Rightarrow> None
      | Some hits \<Rightarrow>
          Some (fmfilter (\<lambda>key. case fmlookup hits key of
                                  None \<Rightarrow> True
                                | Some hit_at \<Rightarrow> \<not> time_before hit_at cutoff) hits))"

text \<open>A possible iteration order of the map.\<close>

definition iteration_order :: "tracker \<Rightarrow> string list \<Rightarrow> bool" where
  "iteration_order hits order \<longleftrightarrow> distinct order \<and> set order = fset (fmdom hits)"

section \<open>The listing\<close>

lemma collect_active_set:
  "iteration_order hits order \<Longrightarrow>
   set (collect_active hits since order) =
     {ActiveKey k h | k h. fmlookup hits k = Some h \<and> since \<le> h}"
  by (auto simp: collect_active_def iteration_order_def fmlookup_dom_iff split: option.splits
      if_splits)

lemma collect_active_distinct:
  "distinct order \<Longrightarrow> distinct (map ak_key (collect_active hits since order)) \<and>
     set (map ak_key (collect_active hits since order)) \<subseteq> set order"
  by (induction order) (auto simp: collect_active_def split: option.splits)

lemma copy_keys_running:
  "(\<And>i. ctx i = None) \<Longrightarrow> copy_keys ctx i items keys = Inr (keys @ map ak_key items)"
  by (induction items arbitrary: i keys) auto

lemma collect_active_order:
  assumes "iteration_order hits o1" and "iteration_order hits o2"
  shows "sort (collect_active hits since o1) = sort (collect_active hits since o2)"
proof -
  have d: "distinct (collect_active hits since ord)" if "iteration_order hits ord" for ord
    using collect_active_distinct [of ord hits since] that distinct_map
    by (auto simp: iteration_order_def)
  have "mset (collect_active hits since o1) = mset (collect_active hits since o2)"
    using assms d collect_active_set by (simp add: set_eq_iff_mset_eq_distinct [symmetric])
  then show ?thesis by (intro sorted_perm_unique) simp_all
qed

lemma prune_lookup:
  "fmlookup (the (prune_active_keys_before (Some hits) cutoff)) k =
     (case fmlookup hits k of None \<Rightarrow> None | Some h \<Rightarrow> if cutoff \<le> h then Some h else None)"
  by (auto simp: prune_active_keys_before_def split: option.splits)

section \<open>Recording\<close>

fun record_all :: "tracker option \<Rightarrow> (string \<times> time) list \<Rightarrow> time \<Rightarrow> tracker option" where
  "record_all t [] wall = t"
| "record_all t ((k, h) # hs) wall = record_all (snd (record_activity t k h wall)) hs wall"

lemma record_activity_lookup:
  assumes "k \<noteq> []" and "h \<noteq> 0"
  shows "snd (record_activity (Some hits) k h wall) =
    Some (fmupd k (case fmlookup hits k of None \<Rightarrow> h | Some old \<Rightarrow> max old h) hits)"
proof -
  have "fmupd k old hits = hits" if "fmlookup hits k = Some old" for old
    using that by (intro fmap_ext) auto
  then show ?thesis
    using assms by (auto simp: record_activity_def Let_def max_def split: option.splits)
qed

section \<open>Properties\<close>

text \<open>
  The listing without a limit holds exactly the keys hit since the given time, each once, the
  least recently hit first (ties by key), whatever order the map is read in.
\<close>

theorem active_keys_listing:
  assumes "iteration_order hits order" and "\<And>i. ctx i = None" and "limit \<le> 0"
  shows "\<exists>items. active_keys_since (Some hits) ctx since limit order = Inr (map ak_key items) \<and>
     distinct (map ak_key items) \<and> sorted items \<and>
     set items = {ActiveKey k h | k h. fmlookup hits k = Some h \<and> since \<le> h} \<and>
     (\<forall>order'. iteration_order hits order' \<longrightarrow>
        active_keys_since (Some hits) ctx since limit order' =
        active_keys_since (Some hits) ctx since limit order)"
proof -
  let ?items = "sort (collect_active hits since order)"
  have list: "active_keys_since (Some hits) ctx since limit o' =
      Inr (map ak_key (sort (collect_active hits since o')))" for o'
    using assms(2,3) by (simp add: active_keys_since_def Let_def copy_keys_running)
  have "distinct (map ak_key (collect_active hits since order))"
    using collect_active_distinct assms(1) by (auto simp: iteration_order_def)
  then have "distinct (map ak_key ?items)"
    by (metis mset_map mset_sort mset_eq_imp_distinct_iff)
  moreover have "set ?items = {ActiveKey k h | k h. fmlookup hits k = Some h \<and> since \<le> h}"
    using collect_active_set [OF assms(1)] by simp
  moreover have "active_keys_since (Some hits) ctx since limit o' = active_keys_since (Some hits) ctx since limit order"
    if "iteration_order hits o'" for o'
    unfolding list collect_active_order [OF that assms(1)] ..
  ultimately show ?thesis using list [of order] by (intro exI [of _ ?items] conjI) (simp_all add: list)
qed

lemma active_keys_listing_witness:
  "\<exists>items. active_keys_since (Some (fmupd ''a'' 5 fmempty)) (\<lambda>_. None) 3 0 [''a''] = Inr (map ak_key items) \<and>
     distinct (map ak_key items) \<and> sorted items \<and>
     set items = {ActiveKey k h | k h. fmlookup (fmupd ''a'' (5::int) fmempty) k = Some h \<and> 3 \<le> h} \<and>
     (\<forall>order'. iteration_order (fmupd ''a'' 5 fmempty) order' \<longrightarrow>
        active_keys_since (Some (fmupd ''a'' 5 fmempty)) (\<lambda>_. None) 3 0 order' =
        active_keys_since (Some (fmupd ''a'' 5 fmempty)) (\<lambda>_. None) 3 0 [''a''])"
  by (rule active_keys_listing) (simp_all add: iteration_order_def)

text \<open>
  The tracker keeps the latest hit of every key, in whatever order hits are recorded: a key
  without a hit is absent, and the time of any other is the maximum of its hits.
\<close>

theorem tracker_keeps_latest:
  assumes "\<And>k h. (k, h) \<in> set hits \<Longrightarrow> k \<noteq> [] \<and> h \<noteq> 0"
  shows "fmlookup (the (record_all (Some new_activity_tracker) hits wall)) k =
     (if {h. (k, h) \<in> set hits} = {} then None else Some (Max {h. (k, h) \<in> set hits}))"
proof -
  have gen: "\<exists>m'. record_all (Some m) hs wall = Some m' \<and>
      fmlookup m' k = (case fmlookup m k of
          None \<Rightarrow> (if {h. (k, h) \<in> set hs} = {} then None else Some (Max {h. (k, h) \<in> set hs}))
        | Some old \<Rightarrow> Some (Max (insert old {h. (k, h) \<in> set hs})))"
    if "\<And>k h. (k, h) \<in> set hs \<Longrightarrow> k \<noteq> [] \<and> h \<noteq> 0" for m hs
    using that
  proof (induction hs arbitrary: m)
    case (Cons x hs)
    obtain k' h where x: "x = (k', h)" by (cases x)
    have fin: "finite {h. (k, h) \<in> set hs}"
      by (rule finite_subset [of _ "snd ` set hs"]) (force, simp)
    have "k' \<noteq> []" "h \<noteq> 0" using Cons.prems [of k' h] x by auto
    note rec_step = record_activity_lookup [OF this, of m wall]
    have max3: "Max (insert a (insert b A)) = Max (insert (max a b) A)" if "finite A" for a b :: int and A
      using that by (cases "A = {}") (simp_all add: max.assoc)
    have ins: "{h'. (k, h') \<in> set (x # hs)} =
        (if k' = k then insert h {h'. (k, h') \<in> set hs} else {h'. (k, h') \<in> set hs})"
      using x by auto
    have tail: "\<And>k h. (k, h) \<in> set hs \<Longrightarrow> k \<noteq> [] \<and> h \<noteq> 0" using Cons.prems by auto
    note IH = Cons.IH [OF tail, of "fmupd k' (case fmlookup m k' of None \<Rightarrow> h | Some old \<Rightarrow> max old h) m"]
    show ?case
    proof (cases "k' = k")
      case True
      then show ?thesis using IH rec_step fin unfolding ins
        by (cases "fmlookup m k") (auto simp: x max3 simp del: Max.insert Max_insert)
    next
      case False
      have eq: "record_all (Some m) (x # hs) wall =
          record_all (Some (fmupd k' (case fmlookup m k' of None \<Rightarrow> h | Some old \<Rightarrow> max old h) m)) hs wall"
        by (simp only: x record_all.simps rec_step)
      have look: "fmlookup (fmupd k' v m) k = fmlookup m k" for v using False by simp
      show ?thesis using IH unfolding eq ins look by (simp only: False if_False)
    qed
  qed (auto split: option.splits)
  show ?thesis using gen [where m = fmempty and hs = hits] assms by (auto simp: new_activity_tracker_def)
qed

lemma tracker_keeps_latest_witness:
  "fmlookup (the (record_all (Some new_activity_tracker) [(''a'', 5), (''a'', 3)] 9)) ''a'' =
     (if {h. (''a'', h) \<in> set [(''a'', 5), (''a'', 3::int)]} = {} then None
      else Some (Max {h. (''a'', h) \<in> set [(''a'', 5), (''a'', 3)]}))"
  by (rule tracker_keeps_latest) auto

text \<open>
  Pruning before a cutoff loses nothing that a listing since the cutoff would show: the listing
  afterwards is the same, whatever orders the two maps are read in.
\<close>

theorem prune_keeps_listing:
  assumes "iteration_order hits order"
    and "iteration_order (the (prune_active_keys_before (Some hits) since)) order'"
  shows "active_keys_since (prune_active_keys_before (Some hits) since) ctx since limit order' =
     active_keys_since (Some hits) ctx since limit order"
proof -
  obtain m where p: "prune_active_keys_before (Some hits) since = Some m"
    by (simp add: prune_active_keys_before_def)
  have m: "iteration_order m order'" using assms(2) p by simp
  have look: "fmlookup m k = (case fmlookup hits k of None \<Rightarrow> None | Some h \<Rightarrow> if since \<le> h then Some h else None)" for k
    using prune_lookup [of hits since k] p by simp
  have d: "distinct (collect_active n since ord)" if "iteration_order n ord" for n ord
    using collect_active_distinct [of ord n since] that distinct_map by (auto simp: iteration_order_def)
  have "set (collect_active m since order') = set (collect_active hits since order)"
    unfolding collect_active_set [OF assms(1)] collect_active_set [OF m]
    by (auto simp: look split: option.splits if_splits)
  then have "mset (collect_active m since order') = mset (collect_active hits since order)"
    using d [OF m] d [OF assms(1)] by (simp add: set_eq_iff_mset_eq_distinct)
  then have "sort (collect_active m since order') = sort (collect_active hits since order)"
    by (intro sorted_perm_unique) simp_all
  then show ?thesis by (simp add: p active_keys_since_def)
qed

lemma prune_keeps_listing_witness:
  "active_keys_since (prune_active_keys_before (Some (fmupd ''a'' 5 fmempty)) 3) (\<lambda>_. None) 3 0 [''a''] =
     active_keys_since (Some (fmupd ''a'' 5 fmempty)) (\<lambda>_. None) 3 0 [''a'']"
  by (rule prune_keeps_listing) (auto simp: iteration_order_def prune_active_keys_before_def)

end
