(* ===== verification/Version_Service.thy ===== *)
theory Version_Service
  imports Cache_Key Prep_Cache Metrics Activity_Tracker Upstream_Client L1_Lru
begin

text \<open>
  \<open>internal/service/version/service.go\<close>: the \<open>/version\<close> flow (lookup, upstream fetch, cache update)
  and the background refresh. The state is the record \<open>service\<close>; the cache behind it is any
  implementation of the \<open>CacheStore\<close> interface (\<open>store_ops\<close>), which may return errors. What the
  outside supplies to one call (clock readings, the upstream's reply) is the record \<open>env\<close>. Every
  step that sends a request records it in a list of upstream calls. Logging is left out.
\<close>

section \<open>Requests, responses, interfaces\<close>

record error_response =
  er_error :: string
  er_detail :: string
  er_message :: "json option"

text \<open>The dynamic types a response body takes: an error struct, raw JSON, or a map.\<close>

datatype resp_content = Error_Body error_response | Raw_Body string | Map_Body json

record request =
  raw_url :: string
  client_ip :: string
  request_uri :: string
  force_refresh :: bool

record response =
  status_code :: int
  resp_content :: resp_content
  cache_status :: string
  cache_key :: string
  upstream_status :: int

definition cache_status_bypass :: string where "cache_status_bypass = ''BYPASS''"
definition cache_status_hit :: string where "cache_status_hit = ''HIT''"
definition cache_status_miss :: string where "cache_status_miss = ''MISS''"
definition cache_status_revalidated :: string where "cache_status_revalidated = ''REVALIDATED''"

lemmas cache_status_defs = cache_status_bypass_def cache_status_hit_def cache_status_miss_def
  cache_status_revalidated_def

text \<open>
  \<open>CacheStore\<close> as a record of operations; \<open>op_get_readonly\<close> is present when the dynamic type also
  implements \<open>readonlyCacheStore\<close>.
\<close>

record 's store_ops =
  op_get :: "'s \<Rightarrow> string \<Rightarrow> lookup_result \<times> 's"
  op_get_readonly :: "('s \<Rightarrow> string \<Rightarrow> lookup_result \<times> 's) option"
  op_set :: "'s \<Rightarrow> string \<Rightarrow> cache_record \<Rightarrow> (bool \<times> string option) \<times> 's"

definition l1_store_ops :: "l1_store store_ops" where
  "l1_store_ops = \<lparr>op_get = store_get, op_get_readonly = Some store_get_readonly, op_set = store_set\<rparr>"

record 's service =
  sv_cache :: "'s option"
  sv_hit_recorder :: "tracker option"
  sv_token_provider :: "token_provider option"
  sv_metrics :: "metrics option"
  sv_allowed_host_set :: "string fset"
  sv_policy :: policy
  sv_request_prep :: "request_prep_cache option"
  sv_refreshing :: "string fset"

record env =
  env_now :: time
  env_wall :: time
  env_token_clock :: "nat \<Rightarrow> time"
  env_cooldown_now :: time
  env_upstream :: "string \<Rightarrow> string \<Rightarrow> string \<Rightarrow> upstream_result"
  env_ctx_err :: bool

text \<open>URL, token and entity tag of a request sent upstream.\<close>

type_synonym upstream_call = "string \<times> string \<times> string"

section \<open>Construction\<close>

fun add_hosts :: "golib \<Rightarrow> string fset \<Rightarrow> string list \<Rightarrow> string fset" where
  "add_hosts L hosts [] = hosts"
| "add_hosts L hosts (host # rest) =
     (let normalized = to_lower L (trim_space host)
      in if normalized = [] then add_hosts L hosts rest
         else add_hosts L (finsert normalized hosts) rest)"

definition build_allowed_host_set :: "golib \<Rightarrow> string list \<Rightarrow> string fset" where
  "build_allowed_host_set L allowed_hosts =
     (if allowed_hosts = [] then {||} else add_hosts L {||} allowed_hosts)"

definition new_service ::
  "golib \<Rightarrow> 's option \<Rightarrow> tracker option \<Rightarrow> token_provider option \<Rightarrow> string list \<Rightarrow> policy \<Rightarrow> 's service" where
  "new_service L cache_store hit_recorder tokens allowed_hosts p =
     \<lparr>sv_cache = cache_store,
      sv_hit_recorder = hit_recorder,
      sv_token_provider = (if tokens = None then Some (new_threshold_token_provider [] 0) else tokens),
      sv_metrics = None,
      sv_allowed_host_set = build_allowed_host_set L allowed_hosts,
      sv_policy =
        (let p1 = (if negative_ttl p \<le> 0 then p\<lparr>negative_ttl := negative_ttl default_policy\<rparr> else p)
         in if max_upstream_response_bytes p1 \<le> 0
            then p1\<lparr>max_upstream_response_bytes := max_upstream_response_bytes default_policy\<rparr> else p1),
      sv_request_prep = Some (new_request_prep_cache 0),
      sv_refreshing = {||}\<rparr>"

definition set_metrics :: "'s service \<Rightarrow> metrics option \<Rightarrow> 's service" where
  "set_metrics s m = s\<lparr>sv_metrics := m\<rparr>"

definition is_allowed_host :: "golib \<Rightarrow> string fset \<Rightarrow> string \<Rightarrow> bool" where
  "is_allowed_host L hosts host =
     (if hosts = {||} then True
      else let normalized = to_lower L (trim_space host)
           in if normalized = [] then False else normalized |\<in>| hosts)"

section \<open>Preparing a request\<close>

definition prepare_request ::
  "golib \<Rightarrow> (string \<Rightarrow> bool) option \<Rightarrow> string \<Rightarrow> prepared_request" where
  "prepare_request L host_ok raw =
     (case parse_https_url L raw of
        Inl e \<Rightarrow> empty_prepared\<lparr>prep_err := Some e\<rparr>
      | Inr u \<Rightarrow>
          if (case host_ok of None \<Rightarrow> False | Some f \<Rightarrow> \<not> f (url_hostname u))
          then empty_prepared\<lparr>prep_err := Some ErrUpstreamHostNotAllowed\<rparr>
          else
            (let fetch = url_string u;
                 key = (case key_from_parsed_url L (Some u) of Inl _ \<Rightarrow> fetch | Inr k \<Rightarrow> k)
             in \<lparr>url_to_fetch = fetch, prep_cache_key = key, prep_err = None\<rparr>))"

text \<open>The preparation the service memoises.\<close>

definition service_prepare :: "golib \<Rightarrow> 's service \<Rightarrow> string \<Rightarrow> prepared_request" where
  "service_prepare L s = prepare_request L (Some (is_allowed_host L (sv_allowed_host_set s)))"

definition sv_prepare_request ::
  "golib \<Rightarrow> 's service \<Rightarrow> string \<Rightarrow> prepared_request \<times> 's service" where
  "sv_prepare_request L s raw =
     (case sv_request_prep s of
        None \<Rightarrow> (prepare_request L None raw, s)
      | Some c \<Rightarrow>
          (case get_or_prepare (Some c) raw (Some (service_prepare L s)) of
             Some (p, c') \<Rightarrow> (p, s\<lparr>sv_request_prep := c'\<rparr>)
           | None \<Rightarrow> (empty_prepared, s)))"

section \<open>Helpers over the service's collaborators\<close>

definition get_from_cache :: "'s store_ops \<Rightarrow> 's service \<Rightarrow> string \<Rightarrow> lookup_result \<times> 's service" where
  "get_from_cache ops s key =
     (case sv_cache s of
        None \<Rightarrow> ((empty_record, False, None), s)
      | Some c \<Rightarrow>
          (case (case op_get_readonly ops of Some f \<Rightarrow> f c key | None \<Rightarrow> op_get ops c key) of
             (res, c') \<Rightarrow> (res, s\<lparr>sv_cache := Some c'\<rparr>)))"

definition set_to_cache ::
  "'s store_ops \<Rightarrow> 's service \<Rightarrow> string \<Rightarrow> cache_record \<Rightarrow> (bool \<times> string option) \<times> 's service" where
  "set_to_cache ops s key r =
     (case sv_cache s of
        None \<Rightarrow> ((False, None), s)
      | Some c \<Rightarrow> (case op_set ops c key r of (res, c') \<Rightarrow> (res, s\<lparr>sv_cache := Some c'\<rparr>)))"

definition sv_record_activity :: "'s service \<Rightarrow> string \<Rightarrow> time \<Rightarrow> time \<Rightarrow> 's service" where
  "sv_record_activity s key hit_at wall =
     (if sv_hit_recorder s = None \<or> key = [] then s
      else s\<lparr>sv_hit_recorder := snd (record_activity (sv_hit_recorder s) key hit_at wall)\<rparr>)"

definition count :: "(metrics option \<Rightarrow> metrics option) \<Rightarrow> 's service \<Rightarrow> 's service" where
  "count inc s = s\<lparr>sv_metrics := inc (sv_metrics s)\<rparr>"

definition sv_next_token :: "env \<Rightarrow> 's service \<Rightarrow> string \<times> 's service" where
  "sv_next_token e s =
     (case next_token (sv_token_provider s) (env_token_clock e) of
        (t, p) \<Rightarrow> (t, s\<lparr>sv_token_provider := p\<rparr>))"

definition observe_rate_limit_remaining :: "string \<Rightarrow> int \<Rightarrow> 's service \<Rightarrow> 's service" where
  "observe_rate_limit_remaining token remaining s =
     count (observe_remaining remaining)
       (s\<lparr>sv_token_provider := observe_token_remaining (sv_token_provider s) token remaining\<rparr>)"

definition parse_rate_limit_remaining :: "string \<Rightarrow> int option" where
  "parse_rate_limit_remaining raw =
     (case atoi (trim_space raw) of
        None \<Rightarrow> None
      | Some value \<Rightarrow> Some (if value < 0 then 0 else value))"

definition is_negative_cacheable_status :: "int \<Rightarrow> bool" where
  "is_negative_cacheable_status code \<longleftrightarrow> code = 404 \<or> code = 410"

definition should_serve_negative_cached_record :: "cache_record \<Rightarrow> time \<Rightarrow> bool" where
  "should_serve_negative_cached_record r now \<longleftrightarrow>
     is_negative_cacheable_status (source_status r) \<and> \<not> is_zero (expires_at r) \<and>
     time_after (expires_at r) now"

definition is_hard_expired :: "cache_record \<Rightarrow> time \<Rightarrow> duration \<Rightarrow> bool" where
  "is_hard_expired r now ttl =
     (if ttl \<le> 0 then False
      else if \<not> is_zero (expires_at r) then \<not> time_after (expires_at r) now
      else
        (let base = (if is_zero (fetched_at r) then last_checked_at r else fetched_at r)
         in if is_zero base then False else \<not> time_after (time_add base ttl) now))"

definition hard_expires_at :: "time \<Rightarrow> duration \<Rightarrow> time" where
  "hard_expires_at now ttl = (if ttl \<le> 0 then 0 else time_add now ttl)"

definition should_bypass_cache_write :: "int \<Rightarrow> bool" where
  "should_bypass_cache_write code =
     (if code = 401 then True
      else if code = 403 then True
      else if code = 429 then True
      else if code \<ge> 500 then True
      else False)"

text \<open>
  \<open>readBoundedBody\<close>: \<open>io.ReadAll\<close> over an \<open>io.LimitReader\<close> one byte past the limit. A limit reader
  with nothing left ends at once, without asking the reader below.
\<close>

datatype read_error = Response_Too_Large | Read_Failed string

fun read_error_text :: "read_error \<Rightarrow> string" where
  "read_error_text Response_Too_Large = ''upstream response exceeds configured size limit''"
| "read_error_text (Read_Failed e) = e"

definition limited_read_all :: "body_stream \<Rightarrow> int \<Rightarrow> string + string" where
  "limited_read_all b n =
     (if n \<le> 0 then Inr []
      else if n \<le> int (length (body_bytes b)) then Inr (take (nat n) (body_bytes b))
      else (case body_fails b of Some e \<Rightarrow> Inl e | None \<Rightarrow> Inr (body_bytes b)))"

definition read_bounded_body :: "body_stream \<Rightarrow> int \<Rightarrow> read_error + string" where
  "read_bounded_body b max_bytes =
     (let max_bytes = (if max_bytes \<le> 0 then max_upstream_response_bytes default_policy else max_bytes)
      in case limited_read_all b (wrap64 (max_bytes + 1)) of
           Inl e \<Rightarrow> Inl (Read_Failed e)
         | Inr p \<Rightarrow> if int (length p) > max_bytes then Inl Response_Too_Large else Inr p)"

definition redacted_url_for_log :: "golib \<Rightarrow> string \<Rightarrow> string" where
  "redacted_url_for_log L raw =
     (case lib_parse L raw of
        None \<Rightarrow> []
      | Some u \<Rightarrow> url_string (u\<lparr>url_raw_query := [], url_force_query := False, url_user := None\<rparr>))"

end
