(* ===== verification/Version_Handle.thy ===== *)
theory Version_Handle
  imports Version_Service
begin

text \<open>
  The request path of \<open>service.go\<close>: \<open>handle\<close>, split where it decides to go upstream, and the
  background refresh of one record. The steps before and after an upstream call are functions of their
  own, which the step relation of \<open>Version_Runs\<close> interleaves; composed with the call in between they give
  the code's functions, which return the response, the service afterwards and the upstream calls made.
\<close>

section \<open>Error bodies\<close>

definition error_body :: "string \<Rightarrow> string \<Rightarrow> resp_content" where
  "error_body err detail = Error_Body \<lparr>er_error = err, er_detail = detail, er_message = None\<rparr>"

definition invalid_parameter :: "url_error \<Rightarrow> response" where
  "invalid_parameter e =
     \<lparr>status_code = 400, resp_content = error_body ''Invalid parameter'' (url_error_text e),
      cache_status = cache_status_bypass, cache_key = [], upstream_status = 0\<rparr>"

section \<open>The lookup half\<close>

text \<open>What the upstream half needs of the lookup: the prepared request, the record and the hit flag.\<close>

type_synonym pending_fetch = "prepared_request \<times> cache_record \<times> bool"

definition hit_response :: "string \<Rightarrow> int \<Rightarrow> cache_record \<Rightarrow> response" where
  "hit_response key status r =
     \<lparr>status_code = status, resp_content = Raw_Body (payload r),
      cache_status = cache_status_hit, cache_key = key, upstream_status = 0\<rparr>"

definition serve_hit :: "env \<Rightarrow> string \<Rightarrow> 's service \<Rightarrow> 's service" where
  "serve_hit e key s = count inc_cache_hit (sv_record_activity s key (env_now e) (env_wall e))"

definition handle_lookup ::
  "golib \<Rightarrow> 's store_ops \<Rightarrow> env \<Rightarrow> request \<Rightarrow> 's service \<Rightarrow> (response + pending_fetch) \<times> 's service" where
  "handle_lookup L ops e req s =
     (case sv_prepare_request L s (raw_url req) of
        (prepared, s1) \<Rightarrow>
          (case prep_err prepared of
             Some err \<Rightarrow> (Inl (invalid_parameter err), s1)
           | None \<Rightarrow>
               (case get_from_cache ops s1 (prep_cache_key prepared) of
                  ((r, cache_hit, _), s2) \<Rightarrow>
                    (let key = prep_cache_key prepared;
                         now = env_now e;
                         negative = is_negative_cacheable_status (source_status r);
                         valid_hit = (if cache_hit \<and> \<not> negative \<and>
                                         is_hard_expired r now (hard_ttl (sv_policy s2))
                                      then False else cache_hit)
                     in if valid_hit \<and> \<not> force_refresh req \<and>
                           should_serve_negative_cached_record r now
                        then (Inl (hit_response key (source_status r) r), serve_hit e key s2)
                        else if valid_hit \<and> \<not> force_refresh req \<and> \<not> negative
                        then (Inl (hit_response key 200 r), serve_hit e key s2)
                        else (Inr (prepared, r, cache_hit), s2)))))"

section \<open>The upstream half\<close>

definition fresh_record ::
  "string \<Rightarrow> string \<Rightarrow> string \<Rightarrow> time \<Rightarrow> time \<Rightarrow> int \<Rightarrow> cache_record" where
  "fresh_record body tag url now expires status =
     \<lparr>payload = body, etag = tag, rec_url = url, fetched_at = now, last_hit_at = now,
      last_checked_at = now, expires_at = expires, source_status = status\<rparr>"

definition revalidated_record :: "cache_record \<Rightarrow> string \<Rightarrow> time \<Rightarrow> duration \<Rightarrow> cache_record" where
  "revalidated_record r url now ttl =
     r\<lparr>last_checked_at := now, expires_at := hard_expires_at now ttl, rec_url := url\<rparr>"

definition finish_not_modified ::
  "'s store_ops \<Rightarrow> env \<Rightarrow> prepared_request \<Rightarrow> cache_record \<Rightarrow> 's service \<Rightarrow> response \<times> 's service" where
  "finish_not_modified ops e prepared r s =
     (let key = prep_cache_key prepared;
          s1 = sv_record_activity s key (env_now e) (env_wall e);
          r1 = revalidated_record r (url_to_fetch prepared) (env_now e) (hard_ttl (sv_policy s));
          s2 = snd (set_to_cache ops s1 key r1)
      in (\<lparr>status_code = 200, resp_content = Raw_Body (payload r1),
           cache_status = cache_status_revalidated, cache_key = key, upstream_status = 304\<rparr>, s2))"

definition finish_ok ::
  "golib \<Rightarrow> 's store_ops \<Rightarrow> env \<Rightarrow> string \<Rightarrow> prepared_request \<Rightarrow> bool \<Rightarrow> http_response \<Rightarrow>
   's service \<Rightarrow> response \<times> 's service" where
  "finish_ok L ops e result_status prepared cache_hit resp s =
     (let key = prep_cache_key prepared;
          now = env_now e;
          reply = (\<lambda>code body. \<lparr>status_code = code, resp_content = body, cache_status = result_status,
                                cache_key = key, upstream_status = 200\<rparr>)
      in case read_bounded_body (resp_body resp) (max_upstream_response_bytes (sv_policy s)) of
           Inl err \<Rightarrow> (reply 502 (error_body ''Invalid upstream response'' (read_error_text err)), s)
         | Inr body \<Rightarrow>
             if \<not> lib_json_valid L body
             then (reply 502 (error_body ''Failed to parse response'' ''invalid JSON from upstream''), s)
             else
               (let r = fresh_record ([] @ body) (resp_header resp ''ETag'') (url_to_fetch prepared) now
                          (hard_expires_at now (hard_ttl (sv_policy s))) 200;
                    s1 = snd (set_to_cache ops s key r);
                    s2 = (if \<not> cache_hit then sv_record_activity s1 key now (env_wall e) else s1)
                in (reply 200 (Raw_Body body), s2)))"

definition upstream_error_json :: "golib \<Rightarrow> policy \<Rightarrow> http_response \<Rightarrow> json" where
  "upstream_error_json L p resp =
     (let bytes = (case read_bounded_body (resp_body resp) (max_upstream_response_bytes p) of
                     Inl _ \<Rightarrow> [] | Inr b \<Rightarrow> b);
          decoded = (if bytes = [] then JNull
                     else (case lib_json_decode L bytes of None \<Rightarrow> JNull | Some j \<Rightarrow> j))
      in JObj [(''error'', JStr ''Upstream API error''),
               (''message'', if decoded = JNull then JStr (resp_status resp) else decoded)])"

definition finish_other ::
  "golib \<Rightarrow> 's store_ops \<Rightarrow> env \<Rightarrow> string \<Rightarrow> prepared_request \<Rightarrow> bool \<Rightarrow> http_response \<Rightarrow>
   's service \<Rightarrow> response \<times> 's service" where
  "finish_other L ops e result_status prepared cache_hit resp s =
     (let key = prep_cache_key prepared;
          now = env_now e;
          code = resp_status_code resp;
          s1 = (if code \<ge> 400 then count inc_upstream_error s else s);
          err = upstream_error_json L (sv_policy s) resp;
          reply = \<lparr>status_code = code, resp_content = Map_Body err, cache_status = result_status,
                   cache_key = key, upstream_status = code\<rparr>
      in if should_bypass_cache_write code then (reply, s1)
         else if is_negative_cacheable_status code then
           (case lib_json_encode L err of
              None \<Rightarrow> (reply, s1)
            | Some body \<Rightarrow>
                (let r = fresh_record body [] (url_to_fetch prepared) now
                           (time_add now (negative_ttl (sv_policy s))) code;
                     s2 = snd (set_to_cache ops s1 key r);
                     s3 = (if \<not> cache_hit then sv_record_activity s2 key now (env_wall e) else s2)
                 in (reply, s3)))
         else (reply, s1))"

text \<open>The token bookkeeping that every reply goes through.\<close>

definition observe_reply :: "env \<Rightarrow> string \<Rightarrow> http_response \<Rightarrow> 's service \<Rightarrow> 's service" where
  "observe_reply e token resp s =
     (let s1 = (case parse_rate_limit_remaining (resp_header resp ''X-RateLimit-Remaining'') of
                  Some remaining \<Rightarrow> observe_rate_limit_remaining token remaining s
                | None \<Rightarrow> s)
      in s1\<lparr>sv_token_provider :=
              observe_rate_limit token resp (sv_token_provider s1) (env_cooldown_now e)\<rparr>)"

definition conditional_candidate :: "cache_record \<Rightarrow> bool \<Rightarrow> bool" where
  "conditional_candidate r cache_hit \<longleftrightarrow>
     cache_hit \<and> \<not> is_negative_cacheable_status (source_status r) \<and> etag r \<noteq> []"

text \<open>
  The upstream half is two steps with the call between them, during which the code holds no lock: the
  choice of the token and the counters before it, and what is made of its result after it.
\<close>

definition fetch_send ::
  "env \<Rightarrow> prepared_request \<Rightarrow> cache_record \<Rightarrow> bool \<Rightarrow> 's service \<Rightarrow> upstream_call \<times> 's service" where
  "fetch_send e prepared r cache_hit s =
     (let tag = (if conditional_candidate r cache_hit then etag r else [])
      in case sv_next_token e s of (token, s1) \<Rightarrow>
           ((url_to_fetch prepared, token, tag), count inc_upstream_request (count inc_cache_miss s1)))"

definition fetch_receive ::
  "golib \<Rightarrow> 's store_ops \<Rightarrow> env \<Rightarrow> request \<Rightarrow> pending_fetch \<Rightarrow> string \<Rightarrow> upstream_result \<Rightarrow> 's service \<Rightarrow>
   response \<times> 's service" where
  "fetch_receive L ops e req pend token up s =
     (case pend of (prepared, r, cache_hit) \<Rightarrow>
       (let result_status = (if force_refresh req then cache_status_bypass else cache_status_miss)
        in case up of
             Up_Err _ \<Rightarrow>
               (\<lparr>status_code = (if env_ctx_err e then 504 else 502),
                 resp_content = error_body ''Upstream request failed'' [],
                 cache_status = cache_status_bypass, cache_key = prep_cache_key prepared,
                 upstream_status = 0\<rparr>,
                count inc_upstream_error s)
           | Up_Resp resp \<Rightarrow>
               (let s1 = observe_reply e token resp s
                in if resp_status_code resp = 304 \<and> conditional_candidate r cache_hit
                   then finish_not_modified ops e prepared r s1
                   else if resp_status_code resp = 200
                   then finish_ok L ops e result_status prepared cache_hit resp s1
                   else finish_other L ops e result_status prepared cache_hit resp s1)))"

definition handle_fetch ::
  "golib \<Rightarrow> 's store_ops \<Rightarrow> env \<Rightarrow> request \<Rightarrow> pending_fetch \<Rightarrow> 's service \<Rightarrow>
   response \<times> 's service \<times> upstream_call list" where
  "handle_fetch L ops e req pend s =
     (case pend of (prepared, r, cache_hit) \<Rightarrow>
       (case fetch_send e prepared r cache_hit s of ((url, token, tag), s1) \<Rightarrow>
         (case fetch_receive L ops e req pend token (env_upstream e url token tag) s1 of
            (reply, s2) \<Rightarrow> (reply, s2, [(url, token, tag)]))))"

lemmas fetch_defs = handle_fetch_def fetch_send_def fetch_receive_def

section \<open>The whole handler\<close>

text \<open>\<open>handle\<close> with \<open>coalesce = false\<close>: what a request group runs for its leader.\<close>

definition handle_direct ::
  "golib \<Rightarrow> 's store_ops \<Rightarrow> env \<Rightarrow> request \<Rightarrow> 's service \<Rightarrow> response \<times> 's service \<times> upstream_call list" where
  "handle_direct L ops e req s =
     (case handle_lookup L ops e req s of
        (Inl reply, s1) \<Rightarrow> (reply, s1, [])
      | (Inr pend, s1) \<Rightarrow> handle_fetch L ops e req pend s1)"

text \<open>
  How the request group answers one caller: the caller leads a new call, or joins one already in
  flight under its key, whose shared response it then gets; and its own context may end first.
\<close>

datatype flight = Leads | Joins response | Leads_Canceled | Joins_Canceled

definition canceled_response :: "string \<Rightarrow> response" where
  "canceled_response key =
     \<lparr>status_code = 504, resp_content = error_body ''Request canceled'' [],
      cache_status = cache_status_bypass, cache_key = key, upstream_status = 0\<rparr>"

text \<open>
  \<open>Handle\<close>: the lookup at the caller's time (\<open>e\<close>), then the group, whose leader runs the handler
  again (\<open>e'\<close>) in the background.
\<close>

definition handle ::
  "golib \<Rightarrow> 's store_ops \<Rightarrow> env \<Rightarrow> env \<Rightarrow> flight \<Rightarrow> request \<Rightarrow> 's service \<Rightarrow>
   response \<times> 's service \<times> upstream_call list" where
  "handle L ops e e' fl req s =
     (case handle_lookup L ops e req s of
        (Inl reply, s1) \<Rightarrow> (reply, s1, [])
      | (Inr (prepared, _, _), s1) \<Rightarrow>
          (case fl of
             Leads \<Rightarrow> handle_direct L ops e' req s1
           | Joins reply \<Rightarrow> (reply, s1, [])
           | Leads_Canceled \<Rightarrow>
               (case handle_direct L ops e' req s1 of
                  (_, s2, calls) \<Rightarrow> (canceled_response (prep_cache_key prepared), s2, calls))
           | Joins_Canceled \<Rightarrow> (canceled_response (prep_cache_key prepared), s1, [])))"

section \<open>Background refresh\<close>

text \<open>
  A refresh of a record, as the steps around its upstream call; \<open>refresh_send\<close> makes no call for a
  record of a negative status.
\<close>

definition refresh_send ::
  "env \<Rightarrow> string \<Rightarrow> cache_record \<Rightarrow> 's service \<Rightarrow> upstream_call option \<times> 's service" where
  "refresh_send e url r s =
     (if is_negative_cacheable_status (source_status r) then (None, count inc_refresh_skipped s)
      else (case sv_next_token e s of (token, s1) \<Rightarrow>
              (Some (url, token, etag r), count inc_upstream_request s1)))"

definition refresh_receive ::
  "golib \<Rightarrow> 's store_ops \<Rightarrow> env \<Rightarrow> string \<Rightarrow> string \<Rightarrow> cache_record \<Rightarrow> string \<Rightarrow> upstream_result \<Rightarrow>
   's service \<Rightarrow> 's service" where
  "refresh_receive L ops e key url r token up s =
     (case up of
        Up_Err _ \<Rightarrow> count inc_refresh_failed (count inc_upstream_error s)
      | Up_Resp resp \<Rightarrow>
          (let now = env_now e;
               code = resp_status_code resp;
               s1 = (if code \<ge> 400 then count inc_upstream_error s else s);
               s2 = observe_reply e token resp s1;
               expires = hard_expires_at now (hard_ttl (sv_policy s2))
           in if code = 304 then
                count inc_refresh_not_mod
                  (snd (set_to_cache ops s2 key (revalidated_record r url now (hard_ttl (sv_policy s2)))))
              else if code = 200 then
                (case read_bounded_body (resp_body resp) (max_upstream_response_bytes (sv_policy s2)) of
                   Inl _ \<Rightarrow> count inc_refresh_failed s2
                 | Inr body \<Rightarrow>
                     if \<not> lib_json_valid L body then count inc_refresh_failed s2
                     else count inc_refresh_updated
                            (snd (set_to_cache ops s2 key
                              (fresh_record ([] @ body) (resp_header resp ''ETag'') url now expires code))))
              else count inc_refresh_failed s2))"

definition refresh_cached_record ::
  "golib \<Rightarrow> 's store_ops \<Rightarrow> env \<Rightarrow> string \<Rightarrow> string \<Rightarrow> cache_record \<Rightarrow> 's service \<Rightarrow>
   's service \<times> upstream_call list" where
  "refresh_cached_record L ops e key url r s =
     (case refresh_send e url r s of
        (None, s1) \<Rightarrow> (s1, [])
      | (Some (u, token, tag), s1) \<Rightarrow>
          (refresh_receive L ops e key url r token (env_upstream e u token tag) s1, [(u, token, tag)]))"

lemmas refresh_defs = refresh_cached_record_def refresh_send_def refresh_receive_def

text \<open>The lookups of \<open>refreshOnce\<close> and \<open>refreshOnceByKey\<close>: the URL and the record to refresh, if any.\<close>

definition refresh_lookup ::
  "'s store_ops \<Rightarrow> string \<Rightarrow> string \<Rightarrow> 's service \<Rightarrow> (string \<times> cache_record) option \<times> 's service" where
  "refresh_lookup ops url key s =
     (case get_from_cache ops s key of
        ((r, cache_hit, err), s1) \<Rightarrow>
          if err \<noteq> None then (None, count inc_refresh_failed s1)
          else if \<not> cache_hit then (None, count inc_refresh_skipped s1)
          else (Some (url, r), s1))"

definition refresh_lookup_by_key ::
  "'s store_ops \<Rightarrow> string \<Rightarrow> 's service \<Rightarrow> (string \<times> cache_record) option \<times> 's service" where
  "refresh_lookup_by_key ops key s =
     (case get_from_cache ops s key of
        ((r, cache_hit, err), s1) \<Rightarrow>
          if err \<noteq> None then (None, count inc_refresh_failed s1)
          else if \<not> cache_hit then (None, count inc_refresh_skipped s1)
          else if trim_space (rec_url r) = [] then (None, count inc_refresh_skipped s1)
          else (Some (rec_url r, r), s1))"

definition refresh_once ::
  "golib \<Rightarrow> 's store_ops \<Rightarrow> env \<Rightarrow> string \<Rightarrow> string \<Rightarrow> 's service \<Rightarrow> 's service \<times> upstream_call list" where
  "refresh_once L ops e url key s =
     (case refresh_lookup ops url key s of
        (None, s1) \<Rightarrow> (s1, [])
      | (Some (u, r), s1) \<Rightarrow> refresh_cached_record L ops e key u r s1)"

definition refresh_once_by_key ::
  "golib \<Rightarrow> 's store_ops \<Rightarrow> env \<Rightarrow> string \<Rightarrow> 's service \<Rightarrow> 's service \<times> upstream_call list" where
  "refresh_once_by_key L ops e key s =
     (case refresh_lookup_by_key ops key s of
        (None, s1) \<Rightarrow> (s1, [])
      | (Some (u, r), s1) \<Rightarrow> refresh_cached_record L ops e key u r s1)"

lemmas refresh_once_defs = refresh_once_def refresh_once_by_key_def refresh_lookup_def refresh_lookup_by_key_def

text \<open>The background group's \<open>start\<close> and \<open>done\<close> on the set of keys in flight.\<close>

definition refresh_start :: "string \<Rightarrow> 's service \<Rightarrow> bool \<times> 's service" where
  "refresh_start key s =
     (if key |\<in>| sv_refreshing s then (False, s)
      else (True, s\<lparr>sv_refreshing := finsert key (sv_refreshing s)\<rparr>))"

definition refresh_done :: "string \<Rightarrow> 's service \<Rightarrow> 's service" where
  "refresh_done key s = s\<lparr>sv_refreshing := sv_refreshing s |-| {|key|}\<rparr>"

definition refresh_by_key ::
  "golib \<Rightarrow> 's store_ops \<Rightarrow> env \<Rightarrow> string \<Rightarrow> 's service \<Rightarrow> bool \<times> 's service \<times> upstream_call list" where
  "refresh_by_key L ops e key s =
     (if key = [] then (False, s, [])
      else (case refresh_start key s of
              (False, s1) \<Rightarrow> (False, s1, [])
            | (True, s1) \<Rightarrow>
                (case refresh_once_by_key L ops e key s1 of
                   (s2, calls) \<Rightarrow> (True, refresh_done key s2, calls))))"

text \<open>
  \<open>RefreshInBackground\<close> returns whether it started a goroutine; the goroutine runs
  \<open>background_task\<close> later.
\<close>

definition refresh_in_background ::
  "golib \<Rightarrow> request \<Rightarrow> 's service \<Rightarrow> bool \<times> 's service \<times> (string \<times> string) option" where
  "refresh_in_background L req s =
     (case parse_https_url L (raw_url req) of
        Inl _ \<Rightarrow> (False, s, None)
      | Inr u \<Rightarrow>
          if \<not> is_allowed_host L (sv_allowed_host_set s) (url_hostname u) then (False, s, None)
          else
            (let fetch = url_string u;
                 key = (case key_from_parsed_url L (Some u) of Inl _ \<Rightarrow> fetch | Inr k \<Rightarrow> k)
             in if key = [] then (False, s, None)
                else (case refresh_start key s of
                        (False, s1) \<Rightarrow> (False, s1, None)
                      | (True, s1) \<Rightarrow> (True, s1, Some (fetch, key)))))"

definition background_task ::
  "golib \<Rightarrow> 's store_ops \<Rightarrow> env \<Rightarrow> string \<Rightarrow> string \<Rightarrow> 's service \<Rightarrow> 's service \<times> upstream_call list" where
  "background_task L ops e url key s =
     (case refresh_once L ops e url key s of (s1, calls) \<Rightarrow> (refresh_done key s1, calls))"

end
