(* ===== verification/Version_Facts.thy ===== *)
theory Version_Facts
  imports Version_Handle
begin

text \<open>
  Facts about the request path: which fields each step leaves alone, what a lookup decides, and what
  one request may change in the cache. They are stated for any store that meets the contract
  \<open>capacity_store\<close>, inside that interface, and used through its interpretation on the L1 store.
\<close>

section \<open>Frame facts\<close>

lemma count_frame [frame_simps]:
  "sv_cache (count f s) = sv_cache s"
  "sv_hit_recorder (count f s) = sv_hit_recorder s"
  "sv_token_provider (count f s) = sv_token_provider s"
  "sv_policy (count f s) = sv_policy s"
  "sv_allowed_host_set (count f s) = sv_allowed_host_set s"
  "sv_request_prep (count f s) = sv_request_prep s"
  "sv_refreshing (count f s) = sv_refreshing s"
  "sv_metrics (count f s) = f (sv_metrics s)"
  by (simp_all add: count_def)

lemma record_frame [frame_simps]:
  "sv_cache (sv_record_activity s k h w) = sv_cache s"
  "sv_token_provider (sv_record_activity s k h w) = sv_token_provider s"
  "sv_policy (sv_record_activity s k h w) = sv_policy s"
  "sv_allowed_host_set (sv_record_activity s k h w) = sv_allowed_host_set s"
  "sv_request_prep (sv_record_activity s k h w) = sv_request_prep s"
  "sv_refreshing (sv_record_activity s k h w) = sv_refreshing s"
  "sv_metrics (sv_record_activity s k h w) = sv_metrics s"
  by (simp_all add: sv_record_activity_def)

lemma set_frame [frame_simps]:
  "sv_hit_recorder (snd (set_to_cache ops s k r)) = sv_hit_recorder s"
  "sv_token_provider (snd (set_to_cache ops s k r)) = sv_token_provider s"
  "sv_policy (snd (set_to_cache ops s k r)) = sv_policy s"
  "sv_allowed_host_set (snd (set_to_cache ops s k r)) = sv_allowed_host_set s"
  "sv_request_prep (snd (set_to_cache ops s k r)) = sv_request_prep s"
  "sv_refreshing (snd (set_to_cache ops s k r)) = sv_refreshing s"
  "sv_metrics (snd (set_to_cache ops s k r)) = sv_metrics s"
  by (simp_all add: set_to_cache_def split: option.splits prod.splits)

lemma get_frame [frame_simps]:
  "sv_hit_recorder (snd (get_from_cache ops s k)) = sv_hit_recorder s"
  "sv_token_provider (snd (get_from_cache ops s k)) = sv_token_provider s"
  "sv_policy (snd (get_from_cache ops s k)) = sv_policy s"
  "sv_allowed_host_set (snd (get_from_cache ops s k)) = sv_allowed_host_set s"
  "sv_request_prep (snd (get_from_cache ops s k)) = sv_request_prep s"
  "sv_refreshing (snd (get_from_cache ops s k)) = sv_refreshing s"
  "sv_metrics (snd (get_from_cache ops s k)) = sv_metrics s"
  by (simp_all add: get_from_cache_def split: option.splits prod.splits)

lemma prep_frame [frame_simps]:
  "sv_cache (snd (sv_prepare_request L s raw)) = sv_cache s"
  "sv_hit_recorder (snd (sv_prepare_request L s raw)) = sv_hit_recorder s"
  "sv_token_provider (snd (sv_prepare_request L s raw)) = sv_token_provider s"
  "sv_policy (snd (sv_prepare_request L s raw)) = sv_policy s"
  "sv_allowed_host_set (snd (sv_prepare_request L s raw)) = sv_allowed_host_set s"
  "sv_refreshing (snd (sv_prepare_request L s raw)) = sv_refreshing s"
  "sv_metrics (snd (sv_prepare_request L s raw)) = sv_metrics s"
  by (simp_all add: sv_prepare_request_def split: option.splits prod.splits)

lemma token_frame [frame_simps]:
  "sv_cache (snd (sv_next_token e s)) = sv_cache s"
  "sv_hit_recorder (snd (sv_next_token e s)) = sv_hit_recorder s"
  "sv_policy (snd (sv_next_token e s)) = sv_policy s"
  "sv_allowed_host_set (snd (sv_next_token e s)) = sv_allowed_host_set s"
  "sv_request_prep (snd (sv_next_token e s)) = sv_request_prep s"
  "sv_refreshing (snd (sv_next_token e s)) = sv_refreshing s"
  "sv_metrics (snd (sv_next_token e s)) = sv_metrics s"
  by (simp_all add: sv_next_token_def split: prod.splits)

lemma observe_frame [frame_simps]:
  "sv_cache (observe_reply e t resp s) = sv_cache s"
  "sv_hit_recorder (observe_reply e t resp s) = sv_hit_recorder s"
  "sv_policy (observe_reply e t resp s) = sv_policy s"
  "sv_allowed_host_set (observe_reply e t resp s) = sv_allowed_host_set s"
  "sv_request_prep (observe_reply e t resp s) = sv_request_prep s"
  "sv_refreshing (observe_reply e t resp s) = sv_refreshing s"
  by (simp_all add: observe_reply_def observe_rate_limit_remaining_def count_def Let_def
      split: option.splits)

lemma serve_hit_frame [frame_simps]:
  "sv_cache (serve_hit e k s) = sv_cache s"
  "sv_token_provider (serve_hit e k s) = sv_token_provider s"
  "sv_policy (serve_hit e k s) = sv_policy s"
  "sv_allowed_host_set (serve_hit e k s) = sv_allowed_host_set s"
  "sv_request_prep (serve_hit e k s) = sv_request_prep s"
  "sv_refreshing (serve_hit e k s) = sv_refreshing s"
  "sv_metrics (serve_hit e k s) = inc_cache_hit (sv_metrics s)"
  by (simp_all add: serve_hit_def frame_simps)

section \<open>Preparation\<close>

definition prep_ok :: "golib \<Rightarrow> 's service \<Rightarrow> bool" where
  "prep_ok L s \<longleftrightarrow> sv_request_prep s \<noteq> None \<and> memo_of_opt (service_prepare L s) (sv_request_prep s)"

lemma sv_prepare_request_ok:
  assumes "prep_ok L s"
  shows "fst (sv_prepare_request L s raw) = service_prepare L s raw"
    and "prep_ok L (snd (sv_prepare_request L s raw))"
proof -
  from assms obtain c where c: "sv_request_prep s = Some c" by (auto simp: prep_ok_def)
  with assms have "memo_of_opt (service_prepare L s) (Some c)" by (simp add: prep_ok_def)
  from get_or_prepare_memo [OF this, of raw] c
  show "fst (sv_prepare_request L s raw) = service_prepare L s raw"
    and "prep_ok L (snd (sv_prepare_request L s raw))"
    by (auto simp: sv_prepare_request_def prep_ok_def service_prepare_def)
qed

lemma key_nonempty: "key_from_parsed_url L (Some u) = Inr k \<Longrightarrow> k \<noteq> []"
  by (auto simp: key_from_parsed_url_def key_from_normalized_url_def cache_key_version_prefix_def
      split: if_splits)

lemma service_prepare_ok:
  assumes "prep_err (service_prepare L s raw) = None"
  shows "\<exists>u. lib_parse L (trim_space raw) = Some u \<and> safe_url L u \<and>
      is_allowed_host L (sv_allowed_host_set s) (url_hostname u) \<and>
      url_to_fetch (service_prepare L s raw) = url_string u \<and>
      key_from_parsed_url L (Some u) = Inr (prep_cache_key (service_prepare L s raw))"
proof (cases "parse_https_url L raw")
  case (Inl e)
  with assms show ?thesis by (simp add: service_prepare_def prepare_request_def)
next
  case (Inr u)
  then have safe: "lib_parse L (trim_space raw) = Some u" "safe_url L u"
    by (auto simp: parse_https_url_Inr)
  then obtain k where "key_from_parsed_url L (Some u) = Inr k"
    by (auto simp: key_from_parsed_url_def safe_url_def)
  with Inr safe assms show ?thesis
    by (auto simp: service_prepare_def prepare_request_def Let_def split: if_splits)
qed

section \<open>The service over any contractual store\<close>

definition cache_view :: "('s \<Rightarrow> string \<Rightarrow> cache_record option) \<Rightarrow> 's service \<Rightarrow> string \<Rightarrow> cache_record option" where
  "cache_view peek s k = (case sv_cache s of None \<Rightarrow> None | Some c \<Rightarrow> peek c k)"

definition cache_ok :: "('s \<Rightarrow> bool) \<Rightarrow> 's service \<Rightarrow> bool" where
  "cache_ok ok s = (case sv_cache s of None \<Rightarrow> True | Some c \<Rightarrow> ok c)"

definition cache_fits :: "('s \<Rightarrow> string \<Rightarrow> cache_record \<Rightarrow> bool) \<Rightarrow> 's service \<Rightarrow> string \<Rightarrow> cache_record \<Rightarrow> bool" where
  "cache_fits fits s k r = (case sv_cache s of None \<Rightarrow> False | Some c \<Rightarrow> fits c k r)"

text \<open>A record that answers an ordinary request at a given time.\<close>

definition servable :: "cache_record \<Rightarrow> time \<Rightarrow> duration \<Rightarrow> bool" where
  "servable r now ttl \<longleftrightarrow>
     (if is_negative_cacheable_status (source_status r) then should_serve_negative_cached_record r now
      else \<not> is_hard_expired r now ttl)"

definition served_status :: "cache_record \<Rightarrow> int" where
  "served_status r = (if is_negative_cacheable_status (source_status r) then source_status r else 200)"

text \<open>The record a reply makes the service write, if any.\<close>

definition written_record ::
  "golib \<Rightarrow> policy \<Rightarrow> time \<Rightarrow> string \<Rightarrow> cache_record \<Rightarrow> bool \<Rightarrow> http_response \<Rightarrow> cache_record option" where
  "written_record L p now url r cache_hit resp =
     (if resp_status_code resp = 304 \<and> conditional_candidate r cache_hit
      then Some (revalidated_record r url now (hard_ttl p))
      else if resp_status_code resp = 200
      then (case read_bounded_body (resp_body resp) (max_upstream_response_bytes p) of
              Inl _ \<Rightarrow> None
            | Inr body \<Rightarrow>
                if lib_json_valid L body
                then Some (fresh_record body (resp_header resp ''ETag'') url now (hard_expires_at now (hard_ttl p)) 200)
                else None)
      else if is_negative_cacheable_status (resp_status_code resp)
      then map_option (\<lambda>body. fresh_record body [] url now (time_add now (negative_ttl p)) (resp_status_code resp))
             (lib_json_encode L (upstream_error_json L p resp))
      else None)"

locale service_store = capacity_store +
  fixes ops :: "'a store_ops"
  assumes ops_get: "op_get ops = get"
    and ops_readonly: "op_get_readonly ops = None \<or> op_get_readonly ops = Some get"
    and ops_set: "op_set ops = put"
begin

lemma get_view:
  assumes "cache_ok inv s"
  shows "fst (get_from_cache ops s k) =
      (case cache_view peek s k of None \<Rightarrow> (empty_record, False, None) | Some r \<Rightarrow> (r, True, None))"
    and "cache_ok inv (snd (get_from_cache ops s k))"
    and "cache_view peek (snd (get_from_cache ops s k)) = cache_view peek s"
    and "cache_fits fits (snd (get_from_cache ops s k)) = cache_fits fits s"
proof -
  have res: "get_from_cache ops s k =
      (case sv_cache s of None \<Rightarrow> ((empty_record, False, None), s)
       | Some c \<Rightarrow> (fst (get c k), s\<lparr>sv_cache := Some (snd (get c k))\<rparr>))"
    using ops_get ops_readonly by (auto simp: get_from_cache_def split: option.splits prod.splits)
  show "fst (get_from_cache ops s k) =
      (case cache_view peek s k of None \<Rightarrow> (empty_record, False, None) | Some r \<Rightarrow> (r, True, None))"
    and "cache_ok inv (snd (get_from_cache ops s k))"
    and "cache_view peek (snd (get_from_cache ops s k)) = cache_view peek s"
    and "cache_fits fits (snd (get_from_cache ops s k)) = cache_fits fits s"
    using assms unfolding res
    by (auto simp: cache_ok_def cache_view_def cache_fits_def get_result get_inv get_peek get_fits
        fun_eq_iff split: option.splits)
qed

lemma set_view:
  assumes "cache_ok inv s"
  shows "cache_ok inv (snd (set_to_cache ops s k r))"
    and "cache_view peek (snd (set_to_cache ops s k r)) k' \<in>
      {None, if k' = k then Some r else cache_view peek s k'}"
    and "k \<noteq> [] \<Longrightarrow> cache_fits fits s k r \<Longrightarrow> cache_view peek (snd (set_to_cache ops s k r)) k = Some r"
proof -
  have res: "snd (set_to_cache ops s k r) =
      (case sv_cache s of None \<Rightarrow> s | Some c \<Rightarrow> s\<lparr>sv_cache := Some (snd (put c k r))\<rparr>)"
    using ops_set by (auto simp: set_to_cache_def split: option.splits prod.splits)
  show "cache_ok inv (snd (set_to_cache ops s k r))"
    and "cache_view peek (snd (set_to_cache ops s k r)) k' \<in>
      {None, if k' = k then Some r else cache_view peek s k'}"
    and "k \<noteq> [] \<Longrightarrow> cache_fits fits s k r \<Longrightarrow> cache_view peek (snd (set_to_cache ops s k r)) k = Some r"
    using assms unfolding res
    by (auto simp: cache_ok_def cache_view_def cache_fits_def set_inv set_keeps split: option.splits
        dest: set_peek [of _ k r k'])
qed

lemma lookup_result:
  fixes s :: "'a service" and req :: request
  assumes "cache_ok inv s" and "prep_ok L s"
  defines "p \<equiv> service_prepare L s (raw_url req)"
  defines "key \<equiv> prep_cache_key p"
  shows "fst (handle_lookup L ops e req s) =
     (case prep_err p of
        Some err \<Rightarrow> Inl (invalid_parameter err)
      | None \<Rightarrow>
          (case cache_view peek s key of
             None \<Rightarrow> Inr (p, empty_record, False)
           | Some r \<Rightarrow>
               if \<not> force_refresh req \<and> servable r (env_now e) (hard_ttl (sv_policy s))
               then Inl (hit_response key (served_status r) r)
               else Inr (p, r, True)))"
proof -
  obtain s1 where s1: "s1 = snd (sv_prepare_request L s (raw_url req))" by blast
  have ok: "cache_ok inv s1" using assms(1) by (simp add: s1 cache_ok_def frame_simps)
  have view: "cache_view peek s1 = cache_view peek s"
    by (rule ext) (simp add: s1 cache_view_def frame_simps)
  have prep: "sv_prepare_request L s (raw_url req) = (p, s1)"
    using sv_prepare_request_ok(1) [OF assms(2)] by (simp add: p_def s1 prod_eq_iff)
  obtain s2 where s2: "s2 = snd (get_from_cache ops s1 key)" by blast
  have got: "get_from_cache ops s1 key =
      ((case cache_view peek s key of None \<Rightarrow> (empty_record, False, None) | Some r \<Rightarrow> (r, True, None)), s2)"
    using get_view(1) [OF ok, of key] s2 by (simp add: prod_eq_iff view)
  have pol: "sv_policy s2 = sv_policy s" by (simp add: s2 s1 frame_simps)
  show ?thesis
  proof (cases "prep_err p")
    case None
    show ?thesis
      unfolding handle_lookup_def prep
      by (cases "cache_view peek s key")
        (simp_all add: None got pol servable_def served_status_def
          should_serve_negative_cached_record_def key_def [symmetric] Let_def)
  qed (simp add: handle_lookup_def prep)
qed

lemma lookup_state:
  assumes "cache_ok inv s" and "prep_ok L s"
  shows "cache_ok inv (snd (handle_lookup L ops e req s))"
    and "cache_view peek (snd (handle_lookup L ops e req s)) = cache_view peek s"
    and "cache_fits fits (snd (handle_lookup L ops e req s)) = cache_fits fits s"
    and "sv_policy (snd (handle_lookup L ops e req s)) = sv_policy s"
    and "sv_allowed_host_set (snd (handle_lookup L ops e req s)) = sv_allowed_host_set s"
    and "sv_request_prep (snd (handle_lookup L ops e req s)) =
           sv_request_prep (snd (sv_prepare_request L s (raw_url req)))"
    and "sv_token_provider (snd (handle_lookup L ops e req s)) = sv_token_provider s"
    and "sv_refreshing (snd (handle_lookup L ops e req s)) = sv_refreshing s"
proof -
  let ?s1 = "snd (sv_prepare_request L s (raw_url req))"
  let ?t = "snd (handle_lookup L ops e req s)"
  let ?s2 = "snd (get_from_cache ops ?s1 (prep_cache_key (fst (sv_prepare_request L s (raw_url req)))))"
  have "?t = ?s1 \<or> ?t = ?s2 \<or> (\<exists>k. ?t = serve_hit e k ?s2)"
    by (auto simp: handle_lookup_def Let_def split: option.splits prod.splits)
  moreover have ok: "cache_ok inv ?s1" "cache_view peek ?s1 = cache_view peek s"
      "cache_fits fits ?s1 = cache_fits fits s"
    using assms(1) by (simp_all add: cache_ok_def cache_view_def cache_fits_def frame_simps fun_eq_iff)
  moreover have "cache_ok inv (serve_hit e k u) = cache_ok inv u"
      "cache_view peek (serve_hit e k u) = cache_view peek u"
      "cache_fits fits (serve_hit e k u) = cache_fits fits u" for k u
    by (simp_all add: cache_ok_def cache_view_def cache_fits_def frame_simps fun_eq_iff)
  ultimately show "cache_ok inv ?t" "cache_view peek ?t = cache_view peek s"
      "cache_fits fits ?t = cache_fits fits s"
    "sv_policy ?t = sv_policy s" "sv_allowed_host_set ?t = sv_allowed_host_set s"
    "sv_request_prep ?t = sv_request_prep ?s1" "sv_token_provider ?t = sv_token_provider s"
    "sv_refreshing ?t = sv_refreshing s"
    using get_view [OF ok(1)] by (auto simp: frame_simps)
qed

end

interpretation svc: service_store store_get store_set store_peek store_inv store_fits l1_store_ops
  by unfold_locales (simp_all add: l1_store_ops_def store_get_readonly_eq)

end
