(* ===== verification/Version_Writes.thy ===== *)
theory Version_Writes
  imports Version_Facts
begin

text \<open>
  What the upstream half of a request and a background refresh do to the cache and to the metrics,
  and the invariant of the whole service: its cache and its memo are sound, and every record was
  fetched from a URL that passed validation.
\<close>

section \<open>The cache after a write\<close>

definition written :: "'s store_ops \<Rightarrow> 's option \<Rightarrow> string \<Rightarrow> cache_record option \<Rightarrow> 's option" where
  "written ops c key r =
     (case (c, r) of (Some c, Some r) \<Rightarrow> Some (snd (op_set ops c key r)) | _ \<Rightarrow> c)"

lemma set_cache: "sv_cache (snd (set_to_cache ops s k r)) = written ops (sv_cache s) k (Some r)"
  by (simp add: set_to_cache_def written_def split: option.splits prod.splits)

lemma written_None [simp]: "written ops c k None = c"
  by (simp add: written_def split: option.splits)

text \<open>A reply writes at most the record \<open>written_record\<close>, under the request's key.\<close>

lemma finish_not_modified_cache:
  "sv_cache (snd (finish_not_modified ops e p r s)) =
     written ops (sv_cache s) (prep_cache_key p)
       (Some (revalidated_record r (url_to_fetch p) (env_now e) (hard_ttl (sv_policy s))))"
  by (simp add: finish_not_modified_def Let_def set_cache frame_simps)

lemma finish_ok_cache:
  "sv_cache (snd (finish_ok L ops e st p hit resp s)) =
     written ops (sv_cache s) (prep_cache_key p)
       (case read_bounded_body (resp_body resp) (max_upstream_response_bytes (sv_policy s)) of
          Inl _ \<Rightarrow> None
        | Inr body \<Rightarrow>
            if lib_json_valid L body
            then Some (fresh_record body (resp_header resp ''ETag'') (url_to_fetch p) (env_now e)
                         (hard_expires_at (env_now e) (hard_ttl (sv_policy s))) 200)
            else None)"
  by (simp add: finish_ok_def Let_def set_cache frame_simps split: sum.splits)

lemma finish_other_cache:
  "sv_cache (snd (finish_other L ops e st p hit resp s)) =
     written ops (sv_cache s) (prep_cache_key p)
       (if is_negative_cacheable_status (resp_status_code resp)
        then map_option (\<lambda>body. fresh_record body [] (url_to_fetch p) (env_now e)
                 (time_add (env_now e) (negative_ttl (sv_policy s))) (resp_status_code resp))
               (lib_json_encode L (upstream_error_json L (sv_policy s) resp))
        else None)"
  by (auto simp: finish_other_def Let_def set_cache frame_simps should_bypass_cache_write_def
      is_negative_cacheable_status_def split: option.splits)

lemma finish_frame [frame_simps]:
  "sv_policy (snd (finish_not_modified ops e p r s)) = sv_policy s"
  "sv_policy (snd (finish_ok L ops e st p hit resp s)) = sv_policy s"
  "sv_policy (snd (finish_other L ops e st p hit resp s)) = sv_policy s"
  "sv_allowed_host_set (snd (finish_not_modified ops e p r s)) = sv_allowed_host_set s"
  "sv_allowed_host_set (snd (finish_ok L ops e st p hit resp s)) = sv_allowed_host_set s"
  "sv_allowed_host_set (snd (finish_other L ops e st p hit resp s)) = sv_allowed_host_set s"
  "sv_request_prep (snd (finish_not_modified ops e p r s)) = sv_request_prep s"
  "sv_request_prep (snd (finish_ok L ops e st p hit resp s)) = sv_request_prep s"
  "sv_request_prep (snd (finish_other L ops e st p hit resp s)) = sv_request_prep s"
  by (simp_all add: finish_not_modified_def finish_ok_def finish_other_def Let_def frame_simps
      split: sum.splits option.splits)

lemma send_call:
  "fst (fetch_send e p r hit s) =
     (url_to_fetch p, fst (sv_next_token e s), if conditional_candidate r hit then etag r else [])"
  by (simp add: fetch_send_def Let_def split_beta)

lemma send_frame [frame_simps]:
  "sv_cache (snd (fetch_send e p r hit s)) = sv_cache s"
  "sv_policy (snd (fetch_send e p r hit s)) = sv_policy s"
  "sv_allowed_host_set (snd (fetch_send e p r hit s)) = sv_allowed_host_set s"
  "sv_request_prep (snd (fetch_send e p r hit s)) = sv_request_prep s"
  "sv_refreshing (snd (fetch_send e p r hit s)) = sv_refreshing s"
  by (simp_all add: fetch_send_def Let_def split_beta frame_simps)

lemma receive_cache:
  "sv_cache (snd (fetch_receive L ops e req (p, r, hit) token up s)) =
     written ops (sv_cache s) (prep_cache_key p)
       (case up of
          Up_Err _ \<Rightarrow> None
        | Up_Resp resp \<Rightarrow> written_record L (sv_policy s) (env_now e) (url_to_fetch p) r hit resp)"
proof (cases up)
  case (Up_Err x)
  then show ?thesis by (simp add: fetch_receive_def Let_def frame_simps)
next
  case (Up_Resp resp)
  obtain s1 where s1: "s1 = observe_reply e token resp s" by blast
  have frame: "sv_cache s1 = sv_cache s" "sv_policy s1 = sv_policy s" by (simp_all add: s1 frame_simps)
  show ?thesis
    unfolding fetch_receive_def Let_def prod.case Up_Resp upstream_result.case s1 [symmetric]
    by (simp add: finish_not_modified_cache finish_ok_cache finish_other_cache frame
        written_record_def split: sum.splits)
qed

lemma receive_frame [frame_simps]:
  "sv_policy (snd (fetch_receive L ops e req pend token up s)) = sv_policy s"
  "sv_allowed_host_set (snd (fetch_receive L ops e req pend token up s)) = sv_allowed_host_set s"
  "sv_request_prep (snd (fetch_receive L ops e req pend token up s)) = sv_request_prep s"
  by (simp_all add: fetch_receive_def Let_def split_beta frame_simps split: upstream_result.splits)

lemma fetch_parts:
  "handle_fetch L ops e req (p, r, hit) s =
     (let call = fst (fetch_send e p r hit s);
          reply = fetch_receive L ops e req (p, r, hit) (fst (snd call))
                    (env_upstream e (fst call) (fst (snd call)) (snd (snd call)))
                    (snd (fetch_send e p r hit s))
      in (fst reply, snd reply, [call]))"
  by (simp add: handle_fetch_def Let_def split_beta)

lemma fetch_cache:
  "sv_cache (fst (snd (handle_fetch L ops e req (p, r, hit) s))) =
     written ops (sv_cache s) (prep_cache_key p)
       (case env_upstream e (url_to_fetch p) (fst (sv_next_token e s))
               (if conditional_candidate r hit then etag r else []) of
          Up_Err _ \<Rightarrow> None
        | Up_Resp resp \<Rightarrow> written_record L (sv_policy s) (env_now e) (url_to_fetch p) r hit resp)"
  unfolding fetch_parts Let_def fst_conv snd_conv receive_cache send_call send_frame by simp

lemma fetch_frame [frame_simps]:
  "sv_policy (fst (snd (handle_fetch L ops e req pend s))) = sv_policy s"
  "sv_allowed_host_set (fst (snd (handle_fetch L ops e req pend s))) = sv_allowed_host_set s"
  "sv_request_prep (fst (snd (handle_fetch L ops e req pend s))) = sv_request_prep s"
  by (cases pend; simp add: fetch_parts Let_def frame_simps)+

lemma fetch_calls:
  "snd (snd (handle_fetch L ops e req (p, r, hit) s)) =
     [(url_to_fetch p, fst (sv_next_token e s), if conditional_candidate r hit then etag r else [])]"
  by (simp add: fetch_parts Let_def send_call)

section \<open>Refreshing\<close>

text \<open>The record a refresh writes, if any.\<close>

definition refreshed_record ::
  "golib \<Rightarrow> policy \<Rightarrow> time \<Rightarrow> string \<Rightarrow> cache_record \<Rightarrow> upstream_result \<Rightarrow> cache_record option" where
  "refreshed_record L p now url r up =
     (case up of
        Up_Err _ \<Rightarrow> None
      | Up_Resp resp \<Rightarrow>
          if resp_status_code resp = 304 then Some (revalidated_record r url now (hard_ttl p))
          else if resp_status_code resp = 200
          then (case read_bounded_body (resp_body resp) (max_upstream_response_bytes p) of
                  Inl _ \<Rightarrow> None
                | Inr body \<Rightarrow>
                    if lib_json_valid L body
                    then Some (fresh_record body (resp_header resp ''ETag'') url now
                                 (hard_expires_at now (hard_ttl p)) 200)
                    else None)
          else None)"

lemma refresh_send_frame [frame_simps]:
  "sv_cache (snd (refresh_send e url r s)) = sv_cache s"
  "sv_policy (snd (refresh_send e url r s)) = sv_policy s"
  "sv_allowed_host_set (snd (refresh_send e url r s)) = sv_allowed_host_set s"
  "sv_request_prep (snd (refresh_send e url r s)) = sv_request_prep s"
  "sv_refreshing (snd (refresh_send e url r s)) = sv_refreshing s"
  by (simp_all add: refresh_send_def split_beta frame_simps)

lemma refresh_send_call:
  "fst (refresh_send e url r s) =
     (if is_negative_cacheable_status (source_status r) then None
      else Some (url, fst (sv_next_token e s), etag r))"
  by (simp add: refresh_send_def split_beta)

lemma refresh_receive_cache:
  "sv_cache (refresh_receive L ops e key url r token up s) =
     written ops (sv_cache s) key (refreshed_record L (sv_policy s) (env_now e) url r up)"
  by (cases up)
    (auto simp: refresh_receive_def refreshed_record_def Let_def set_cache frame_simps split: sum.splits)

lemma refresh_receive_frame [frame_simps]:
  "sv_policy (refresh_receive L ops e key url r token up s) = sv_policy s"
  "sv_allowed_host_set (refresh_receive L ops e key url r token up s) = sv_allowed_host_set s"
  "sv_request_prep (refresh_receive L ops e key url r token up s) = sv_request_prep s"
  "sv_refreshing (refresh_receive L ops e key url r token up s) = sv_refreshing s"
  by (simp_all add: refresh_receive_def Let_def frame_simps split: upstream_result.splits sum.splits)

lemma refresh_parts:
  "refresh_cached_record L ops e key url r s =
     (let s1 = snd (refresh_send e url r s)
      in case fst (refresh_send e url r s) of
           None \<Rightarrow> (s1, [])
         | Some (u, token, tag) \<Rightarrow>
             (refresh_receive L ops e key url r token (env_upstream e u token tag) s1, [(u, token, tag)]))"
  by (simp add: refresh_cached_record_def Let_def split_beta split: option.splits)

lemma refresh_cache:
  "sv_cache (fst (refresh_cached_record L ops e key url r s)) =
     written ops (sv_cache s) key
       (if is_negative_cacheable_status (source_status r) then None
        else refreshed_record L (sv_policy s) (env_now e) url r
               (env_upstream e url (fst (sv_next_token e s)) (etag r)))"
  by (simp add: refresh_parts Let_def refresh_send_call refresh_send_frame refresh_receive_cache)

lemma refresh_frame [frame_simps]:
  "sv_policy (fst (refresh_cached_record L ops e key url r s)) = sv_policy s"
  "sv_allowed_host_set (fst (refresh_cached_record L ops e key url r s)) = sv_allowed_host_set s"
  "sv_request_prep (fst (refresh_cached_record L ops e key url r s)) = sv_request_prep s"
  "sv_refreshing (fst (refresh_cached_record L ops e key url r s)) = sv_refreshing s"
  by (simp_all add: refresh_parts Let_def frame_simps split_beta split: option.splits)

lemma refresh_calls:
  "snd (refresh_cached_record L ops e key url r s) =
     (if is_negative_cacheable_status (source_status r) then []
      else [(url, fst (sv_next_token e s), etag r)])"
  by (simp add: refresh_parts Let_def refresh_send_call)

lemma refreshed_record_url:
  "refreshed_record L p now url r up = Some w \<Longrightarrow> rec_url w = url"
  by (auto simp: refreshed_record_def revalidated_record_def fresh_record_def
      split: upstream_result.splits if_splits sum.splits)

lemma written_record_url:
  "written_record L p now url r hit resp = Some w \<Longrightarrow> rec_url w = url"
  by (auto simp: written_record_def revalidated_record_def fresh_record_def
      split: if_splits sum.splits option.splits)

lemma refresh_start_frame [frame_simps]:
  "sv_cache (snd (refresh_start k s)) = sv_cache s"
  "sv_policy (snd (refresh_start k s)) = sv_policy s"
  "sv_allowed_host_set (snd (refresh_start k s)) = sv_allowed_host_set s"
  "sv_request_prep (snd (refresh_start k s)) = sv_request_prep s"
  "sv_metrics (snd (refresh_start k s)) = sv_metrics s"
  "sv_cache (refresh_done k s) = sv_cache s"
  "sv_policy (refresh_done k s) = sv_policy s"
  "sv_allowed_host_set (refresh_done k s) = sv_allowed_host_set s"
  "sv_request_prep (refresh_done k s) = sv_request_prep s"
  "sv_metrics (refresh_done k s) = sv_metrics s"
  by (simp_all add: refresh_start_def refresh_done_def)

end
