(* ===== verification/Version_Runs.thy ===== *)
theory Version_Runs
  imports Version_Writes
begin

text \<open>
  Interleaved runs of the service. A request is its lookup, the sending of its upstream call and the
  receipt of the result, with anything in between; the lookup of a caller that joins another's call
  leaves a fetch that is dropped. A background refresh claims its key, looks its record up, sends its
  call, receives the result and releases the key, again with anything in between; the results of the
  calls are arbitrary. The invariant says that the cache and the memo are sound, that every record and
  every task has a validated URL, and that the keys being refreshed are those of the refresh tasks,
  each once.
\<close>

section \<open>Steps\<close>

text \<open>What is under way: which step comes next, with the local variables it needs.\<close>

datatype task =
    Fetch request prepared_request cache_record bool
  | Fetch_Sent request prepared_request cache_record bool string
  | Refresh_Key string
  | Refresh_Url string string
  | Refresh_Found string string cache_record
  | Refresh_Sent string string cache_record string
  | Refresh_Over string

type_synonym 's service_state = "'s service \<times> task list"

fun after_refresh_lookup :: "string \<Rightarrow> (string \<times> cache_record) option \<Rightarrow> task" where
  "after_refresh_lookup key None = Refresh_Over key"
| "after_refresh_lookup key (Some (url, r)) = Refresh_Found key url r"

fun after_refresh_send :: "string \<Rightarrow> string \<Rightarrow> cache_record \<Rightarrow> upstream_call option \<Rightarrow> task" where
  "after_refresh_send key url r None = Refresh_Over key"
| "after_refresh_send key url r (Some (u, token, tag)) = Refresh_Sent key url r token"

inductive service_step ::
  "golib \<Rightarrow> 's store_ops \<Rightarrow> 's service_state \<Rightarrow> upstream_call list \<Rightarrow> 's service_state \<Rightarrow> bool"
  for L :: golib and ops :: "'s store_ops" where
  answer: "handle_lookup L ops e req s = (Inl reply, s') \<Longrightarrow> service_step L ops (s, ts) [] (s', ts)"
| await: "handle_lookup L ops e req s = (Inr (p, r, hit), s') \<Longrightarrow>
    service_step L ops (s, ts) [] (s', Fetch req p r hit # ts)"
| drop_task: "Fetch req p r hit \<in> set ts \<Longrightarrow>
    service_step L ops (s, ts) [] (s, remove1 (Fetch req p r hit) ts)"
| send: "Fetch req p r hit \<in> set ts \<Longrightarrow> fetch_send e p r hit s = ((url, token, tag), s') \<Longrightarrow>
    service_step L ops (s, ts) [(url, token, tag)]
      (s', Fetch_Sent req p r hit token # remove1 (Fetch req p r hit) ts)"
| receive: "Fetch_Sent req p r hit token \<in> set ts \<Longrightarrow>
    fetch_receive L ops e req (p, r, hit) token up s = (reply, s') \<Longrightarrow>
    service_step L ops (s, ts) [] (s', remove1 (Fetch_Sent req p r hit token) ts)"
| claim_key: "key \<noteq> [] \<Longrightarrow> refresh_start key s = (True, s') \<Longrightarrow>
    service_step L ops (s, ts) [] (s', Refresh_Key key # ts)"
| claim_url: "refresh_in_background L req s = (True, s', Some (url, key)) \<Longrightarrow>
    service_step L ops (s, ts) [] (s', Refresh_Url url key # ts)"
| look_key: "Refresh_Key key \<in> set ts \<Longrightarrow> refresh_lookup_by_key ops key s = (found, s') \<Longrightarrow>
    service_step L ops (s, ts) [] (s', after_refresh_lookup key found # remove1 (Refresh_Key key) ts)"
| look_url: "Refresh_Url url key \<in> set ts \<Longrightarrow> refresh_lookup ops url key s = (found, s') \<Longrightarrow>
    service_step L ops (s, ts) [] (s', after_refresh_lookup key found # remove1 (Refresh_Url url key) ts)"
| ask: "Refresh_Found key url r \<in> set ts \<Longrightarrow> refresh_send e url r s = (call, s') \<Longrightarrow>
    service_step L ops (s, ts) (case call of None \<Rightarrow> [] | Some c \<Rightarrow> [c])
      (s', after_refresh_send key url r call # remove1 (Refresh_Found key url r) ts)"
| learn: "Refresh_Sent key url r token \<in> set ts \<Longrightarrow>
    service_step L ops (s, ts) []
      (refresh_receive L ops e key url r token up s,
       Refresh_Over key # remove1 (Refresh_Sent key url r token) ts)"
| release: "Refresh_Over key \<in> set ts \<Longrightarrow>
    service_step L ops (s, ts) [] (refresh_done key s, remove1 (Refresh_Over key) ts)"

inductive service_run ::
  "golib \<Rightarrow> 's store_ops \<Rightarrow> 's service_state \<Rightarrow> upstream_call list \<Rightarrow> 's service_state \<Rightarrow> bool"
  for L :: golib and ops :: "'s store_ops" where
  sr_nil: "service_run L ops st [] st"
| sr_snoc: "service_run L ops st calls st' \<Longrightarrow> service_step L ops st' calls' st'' \<Longrightarrow>
    service_run L ops st (calls @ calls') st''"

section \<open>Invariant\<close>

definition safe_target :: "golib \<Rightarrow> string fset \<Rightarrow> string \<Rightarrow> bool" where
  "safe_target L hosts x \<longleftrightarrow>
     (\<exists>raw u. lib_parse L raw = Some u \<and> safe_url L u \<and>
        is_allowed_host L hosts (url_hostname u) \<and> x = url_string u)"

fun task_safe :: "golib \<Rightarrow> string fset \<Rightarrow> task \<Rightarrow> bool" where
  "task_safe L hosts (Fetch req p r hit) = safe_target L hosts (url_to_fetch p)"
| "task_safe L hosts (Fetch_Sent req p r hit token) = safe_target L hosts (url_to_fetch p)"
| "task_safe L hosts (Refresh_Key key) = True"
| "task_safe L hosts (Refresh_Url url key) = safe_target L hosts url"
| "task_safe L hosts (Refresh_Found key url r) = safe_target L hosts url"
| "task_safe L hosts (Refresh_Sent key url r token) = safe_target L hosts url"
| "task_safe L hosts (Refresh_Over key) = True"

fun refresh_keys :: "task \<Rightarrow> string list" where
  "refresh_keys (Fetch req p r hit) = []"
| "refresh_keys (Fetch_Sent req p r hit token) = []"
| "refresh_keys (Refresh_Key key) = [key]"
| "refresh_keys (Refresh_Url url key) = [key]"
| "refresh_keys (Refresh_Found key url r) = [key]"
| "refresh_keys (Refresh_Sent key url r token) = [key]"
| "refresh_keys (Refresh_Over key) = [key]"

lemma after_refresh_keys [simp]:
  "refresh_keys (after_refresh_lookup key found) = [key]"
  "refresh_keys (after_refresh_send key url r call) = [key]"
  by (cases "(key, found)" rule: after_refresh_lookup.cases; simp)
    (cases "(key, url, r, call)" rule: after_refresh_send.cases; simp)

definition refreshing_keys :: "task list \<Rightarrow> string list" where
  "refreshing_keys ts = concat (map refresh_keys ts)"

definition claims_ok :: "'s service \<Rightarrow> task list \<Rightarrow> bool" where
  "claims_ok s ts \<longleftrightarrow>
     distinct (refreshing_keys ts) \<and> fset (sv_refreshing s) = set (refreshing_keys ts)"

definition urls_ok :: "('s \<Rightarrow> string \<Rightarrow> cache_record option) \<Rightarrow> golib \<Rightarrow> 's service \<Rightarrow> bool" where
  "urls_ok peek L s \<longleftrightarrow>
     (\<forall>k r. cache_view peek s k = Some r \<longrightarrow> safe_target L (sv_allowed_host_set s) (rec_url r))"

lemma refreshing_keys_simps [simp]:
  "refreshing_keys [] = []"
  "refreshing_keys (t # ts) = refresh_keys t @ refreshing_keys ts"
  by (simp_all add: refreshing_keys_def)

lemma refreshing_keys_remove:
  "t \<in> set ts \<Longrightarrow> mset (refreshing_keys ts) = mset (refresh_keys t) + mset (refreshing_keys (remove1 t ts))"
  by (induction ts) auto

lemma refreshing_none: "t \<in> set ts \<Longrightarrow> refresh_keys t = [] \<Longrightarrow>
    refreshing_keys (remove1 t ts) = refreshing_keys ts"
  by (induction ts) auto

lemma refreshing_one:
  assumes "t \<in> set ts" and "refresh_keys t = [k]" and "distinct (refreshing_keys ts)"
  shows "distinct (refreshing_keys (remove1 t ts)) \<and>
    set (refreshing_keys (remove1 t ts)) = set (refreshing_keys ts) - {k}"
proof -
  have m: "mset (refreshing_keys ts) = mset (k # refreshing_keys (remove1 t ts))"
    using refreshing_keys_remove [OF assms(1)] assms(2) by simp
  then have "distinct (k # refreshing_keys (remove1 t ts))"
    using assms(3) mset_eq_imp_distinct_iff by blast
  moreover have "set (refreshing_keys ts) = set (k # refreshing_keys (remove1 t ts))"
    using m by (rule mset_eq_setD)
  ultimately show ?thesis by auto
qed

lemma service_prepare_target:
  "prep_err (service_prepare L s raw) = None \<Longrightarrow>
   safe_target L (sv_allowed_host_set s) (url_to_fetch (service_prepare L s raw))"
  using service_prepare_ok unfolding safe_target_def by metis

lemma background_target:
  assumes "refresh_in_background L req s = (ok, s', Some (url, key))"
  shows "safe_target L (sv_allowed_host_set s) url \<and> refresh_start key s = (True, s')"
  using assms
  by (auto simp: refresh_in_background_def safe_target_def Let_def parse_https_url_Inr
      split: sum.splits if_splits prod.splits bool.splits)

lemma refreshing_frame [frame_simps]:
  "sv_refreshing (snd (finish_not_modified ops e p r s)) = sv_refreshing s"
  "sv_refreshing (snd (finish_ok L ops e st p hit resp s)) = sv_refreshing s"
  "sv_refreshing (snd (finish_other L ops e st p hit resp s)) = sv_refreshing s"
  by (simp_all add: finish_not_modified_def finish_ok_def finish_other_def Let_def frame_simps
      split: sum.splits option.splits)

lemma receive_refreshing [frame_simps]:
  "sv_refreshing (snd (fetch_receive L ops e req pend token up s)) = sv_refreshing s"
  by (simp add: fetch_receive_def Let_def split_beta frame_simps split: upstream_result.splits)

lemma fetch_prep [frame_simps]:
  "prep_ok L (fst (snd (handle_fetch M ops e req pend s))) = prep_ok L s"
  by (simp add: prep_ok_def service_prepare_def frame_simps)

section \<open>Preservation\<close>

definition service_sound ::
  "('s \<Rightarrow> bool) \<Rightarrow> ('s \<Rightarrow> string \<Rightarrow> cache_record option) \<Rightarrow> golib \<Rightarrow> 's service_state \<Rightarrow> bool" where
  "service_sound ok peek L st \<longleftrightarrow>
     cache_ok ok (fst st) \<and> prep_ok L (fst st) \<and> urls_ok peek L (fst st) \<and>
     (\<forall>t \<in> set (snd st). task_safe L (sv_allowed_host_set (fst st)) t)"

definition calls_safe :: "golib \<Rightarrow> string fset \<Rightarrow> upstream_call list \<Rightarrow> bool" where
  "calls_safe L hosts calls \<longleftrightarrow> (\<forall>c \<in> set calls. safe_target L hosts (fst c))"

context service_store begin

lemma written_sound:
  assumes "cache_ok inv s" and "urls_ok peek L s"
    and "sv_cache s' = written ops (sv_cache s) key w" and "sv_allowed_host_set s' = sv_allowed_host_set s"
    and "\<And>x. w = Some x \<Longrightarrow> safe_target L (sv_allowed_host_set s) (rec_url x)"
  shows "cache_ok inv s' \<and> urls_ok peek L s'"
proof (cases w)
  case None
  then show ?thesis using assms by (simp add: cache_ok_def urls_ok_def cache_view_def)
next
  case (Some x)
  let ?t = "snd (set_to_cache ops s key x)"
  have c: "sv_cache s' = sv_cache ?t" using assms(3) Some by (simp add: set_cache)
  have "safe_target L (sv_allowed_host_set s') (rec_url r)" if "cache_view peek s' k = Some r" for k r
  proof -
    have "cache_view peek ?t k = Some r" using that c by (simp add: cache_view_def)
    then have "r = x \<or> cache_view peek s k = Some r"
      using set_view(2) [OF assms(1), of key x k] by (auto split: if_splits)
    then show ?thesis using assms(2,4,5) Some by (auto simp: urls_ok_def)
  qed
  moreover have "cache_ok inv s'" using set_view(1) [OF assms(1), of key x] c by (simp add: cache_ok_def)
  ultimately show ?thesis by (simp add: urls_ok_def)
qed

lemma received_sound:
  assumes "cache_ok inv s" and "urls_ok peek L s" and "prep_ok L s"
    and "safe_target L (sv_allowed_host_set s) (url_to_fetch p)"
    and "fetch_receive L ops e req (p, r, hit) token up s = (reply, s')"
  shows "cache_ok inv s' \<and> urls_ok peek L s' \<and> prep_ok L s' \<and>
     sv_allowed_host_set s' = sv_allowed_host_set s"
proof -
  let ?w = "case up of Up_Err _ \<Rightarrow> None
    | Up_Resp resp \<Rightarrow> written_record L (sv_policy s) (env_now e) (url_to_fetch p) r hit resp"
  have s': "s' = snd (fetch_receive L ops e req (p, r, hit) token up s)" using assms(5) by simp
  have hosts: "sv_allowed_host_set s' = sv_allowed_host_set s" by (simp add: s' frame_simps)
  have "sv_cache s' = written ops (sv_cache s) (prep_cache_key p) ?w" unfolding s' by (rule receive_cache)
  moreover have "safe_target L (sv_allowed_host_set s) (rec_url x)" if "?w = Some x" for x
    using that written_record_url assms(4) by (auto split: upstream_result.splits)
  ultimately have "cache_ok inv s' \<and> urls_ok peek L s'"
    using written_sound [OF assms(1,2)] hosts by blast
  then show ?thesis using hosts assms(3) by (simp add: s' prep_ok_def service_prepare_def frame_simps)
qed

lemma learned_sound:
  assumes "cache_ok inv s" and "urls_ok peek L s" and "prep_ok L s"
    and "safe_target L (sv_allowed_host_set s) url"
    and "s' = refresh_receive L ops e key url r token up s"
  shows "cache_ok inv s' \<and> urls_ok peek L s' \<and> prep_ok L s' \<and>
     sv_allowed_host_set s' = sv_allowed_host_set s"
proof -
  have frame: "sv_allowed_host_set s' = sv_allowed_host_set s" "sv_request_prep s' = sv_request_prep s"
    by (simp_all add: assms(5) frame_simps)
  have "cache_ok inv s' \<and> urls_ok peek L s'"
    by (rule written_sound [OF assms(1,2) refresh_receive_cache [of L ops e key url r token up s, folded assms(5)] frame(1)])
      (use assms(4) in \<open>auto dest: refreshed_record_url\<close>)
  then show ?thesis using assms(3) frame by (simp add: prep_ok_def service_prepare_def)
qed

text \<open>Steps that touch neither the cache nor the memo.\<close>

lemma untouched_sound:
  assumes "cache_ok inv s" and "urls_ok peek L s" and "prep_ok L s" and "sv_cache s' = sv_cache s"
    and "sv_request_prep s' = sv_request_prep s" and "sv_allowed_host_set s' = sv_allowed_host_set s"
  shows "cache_ok inv s' \<and> urls_ok peek L s' \<and> prep_ok L s'"
  using assms by (simp add: cache_ok_def urls_ok_def cache_view_def prep_ok_def service_prepare_def)

lemma get_sound:
  assumes "cache_ok inv s" and "get_from_cache ops s key = ((r, hit, err), s1)"
  shows "cache_ok inv s1 \<and> cache_view peek s1 = cache_view peek s \<and>
    sv_allowed_host_set s1 = sv_allowed_host_set s \<and> sv_refreshing s1 = sv_refreshing s \<and>
    sv_request_prep s1 = sv_request_prep s \<and> err = None \<and> (hit \<longrightarrow> cache_view peek s key = Some r)"
  using get_view [OF assms(1), of key] assms(2) get_frame [of ops s key]
  by (auto split: option.splits)

lemma count_sound:
  "cache_ok inv (count f s) = cache_ok inv s" "urls_ok peek L (count f s) = urls_ok peek L s"
  "prep_ok L (count f s) = prep_ok L s"
  by (simp_all add: cache_ok_def urls_ok_def cache_view_def prep_ok_def service_prepare_def frame_simps)

lemma refresh_lookup_sound:
  assumes "cache_ok inv s" and "urls_ok peek L s" and "prep_ok L s"
    and "refresh_lookup_by_key ops key s = (found, s') \<or>
      refresh_lookup ops url key s = (found, s') \<and> safe_target L (sv_allowed_host_set s) url"
  shows "cache_ok inv s' \<and> urls_ok peek L s' \<and> prep_ok L s' \<and>
     sv_allowed_host_set s' = sv_allowed_host_set s \<and>
     task_safe L (sv_allowed_host_set s) (after_refresh_lookup key found)"
proof -
  obtain r hit err s1 where got: "get_from_cache ops s key = ((r, hit, err), s1)"
    by (metis prod.exhaust)
  note g = get_sound [OF assms(1) got]
  have u: "hit \<Longrightarrow> safe_target L (sv_allowed_host_set s) (rec_url r)"
    using g assms(2) unfolding urls_ok_def by blast
  have err: "err = None" and hosts: "sv_allowed_host_set s1 = sv_allowed_host_set s"
    using g by simp_all
  have "refresh_lookup_by_key ops key s =
      (if hit \<and> trim_space (rec_url r) \<noteq> [] then (Some (rec_url r, r), s1)
       else (None, count inc_refresh_skipped s1))"
    "refresh_lookup ops url key s =
      (if hit then (Some (url, r), s1) else (None, count inc_refresh_skipped s1))"
    by (simp_all add: refresh_lookup_def refresh_lookup_by_key_def got err)
  with assms(4) have res: "s' = s1 \<or> s' = count inc_refresh_skipped s1"
    "found = None \<or> found = Some (rec_url r, r) \<and> hit \<or>
     found = Some (url, r) \<and> safe_target L (sv_allowed_host_set s) url"
    by (auto split: if_splits)
  have "task_safe L (sv_allowed_host_set s) (after_refresh_lookup key found)"
    using res(2) u by auto
  moreover have "cache_ok inv s1 \<and> urls_ok peek L s1 \<and> prep_ok L s1"
    using g assms(2,3) by (simp add: urls_ok_def prep_ok_def service_prepare_def)
  then have "cache_ok inv s' \<and> urls_ok peek L s' \<and> prep_ok L s' \<and>
      sv_allowed_host_set s' = sv_allowed_host_set s"
    using res(1) hosts by (elim disjE) (simp_all add: count_sound frame_simps)
  ultimately show ?thesis by simp
qed

lemma claim_sound:
  assumes "cache_ok inv s" and "urls_ok peek L s" and "prep_ok L s" and "refresh_start key s = (ok, s')"
  shows "cache_ok inv s' \<and> urls_ok peek L s' \<and> prep_ok L s' \<and> sv_allowed_host_set s' = sv_allowed_host_set s"
  using assms refresh_start_frame [of key s]
  by (simp add: cache_ok_def urls_ok_def cache_view_def prep_ok_def service_prepare_def)

lemma done_sound:
  "cache_ok inv (refresh_done k s) = cache_ok inv s" "urls_ok peek L (refresh_done k s) = urls_ok peek L s"
  "prep_ok L (refresh_done k s) = prep_ok L s"
  by (simp_all add: cache_ok_def urls_ok_def cache_view_def prep_ok_def service_prepare_def frame_simps)

lemma looked_up_sound:
  assumes "cache_ok inv s" and "urls_ok peek L s" and "prep_ok L s"
    and "handle_lookup L ops e req s = (res, s')"
  shows "cache_ok inv s' \<and> urls_ok peek L s' \<and> prep_ok L s' \<and>
     sv_allowed_host_set s' = sv_allowed_host_set s \<and> sv_refreshing s' = sv_refreshing s \<and>
     (\<forall>p r hit. res = Inr (p, r, hit) \<longrightarrow> safe_target L (sv_allowed_host_set s) (url_to_fetch p))"
proof -
  note st = lookup_state [OF assms(1,3), of e req, unfolded assms(4) snd_conv]
  have "prep_ok L s'"
    using st sv_prepare_request_ok(2) [OF assms(3), of "raw_url req"] prep_frame [of L s "raw_url req"]
    by (simp add: prep_ok_def service_prepare_def)
  moreover have "safe_target L (sv_allowed_host_set s) (url_to_fetch p)" if "res = Inr (p, r, hit)" for p r hit
    using lookup_result [OF assms(1,3), of e req] assms(4) that service_prepare_target
    by (auto split: option.splits if_splits)
  ultimately show ?thesis using st assms(2) by (simp add: urls_ok_def)
qed

lemma moved_sound:
  assumes "service_sound inv peek L (s, ts)"
    and "cache_ok inv s' \<and> urls_ok peek L s' \<and> prep_ok L s' \<and> sv_allowed_host_set s' = sv_allowed_host_set s"
  shows "service_sound inv peek L (s', remove1 t ts)"
    and "task_safe L (sv_allowed_host_set s) t' \<Longrightarrow> service_sound inv peek L (s', t' # remove1 t ts)"
  using assms by (auto simp: service_sound_def dest: notin_set_remove1)

lemma sound_task:
  "service_sound inv peek L (s, ts) \<Longrightarrow> t \<in> set ts \<Longrightarrow> task_safe L (sv_allowed_host_set s) t"
  "service_sound inv peek L (s, ts) \<Longrightarrow> cache_ok inv s \<and> urls_ok peek L s \<and> prep_ok L s"
  by (simp_all add: service_sound_def)

lemma step_sound:
  assumes "service_step L ops st calls st'" and "service_sound inv peek L st"
  shows "service_sound inv peek L st' \<and> calls_safe L (sv_allowed_host_set (fst st)) calls \<and>
    sv_allowed_host_set (fst st') = sv_allowed_host_set (fst st)"
  using assms
proof (induction rule: service_step.induct)
  case (answer e req s reply s' ts)
  then show ?case using looked_up_sound [of s L e req]
    by (simp add: service_sound_def calls_safe_def)
next
  case (await e req s p r hit s' ts)
  then show ?case using looked_up_sound [of s L e req]
    by (simp add: service_sound_def calls_safe_def)
next
  case (drop_task req p r hit ts s)
  then show ?case by (auto simp: service_sound_def calls_safe_def dest: notin_set_remove1)
next
  case (send req p r hit ts e s url token tag s')
  note t = sound_task(1) [OF send.prems send.hyps(1)] and ok = sound_task(2) [OF send.prems]
  have s': "s' = snd (fetch_send e p r hit s)" "url = url_to_fetch p"
    using send.hyps(2) send_call [of e p r hit s] by simp_all
  have "cache_ok inv s' \<and> urls_ok peek L s' \<and> prep_ok L s'"
    by (rule untouched_sound [of s]) (use ok in \<open>simp_all add: s' frame_simps\<close>)
  then show ?case using t moved_sound(2) [OF send.prems] by (simp add: s' calls_safe_def frame_simps)
next
  case (receive req p r hit token ts e up s reply s')
  note t = sound_task(1) [OF receive.prems receive.hyps(1)] and ok = sound_task(2) [OF receive.prems]
  have "cache_ok inv s' \<and> urls_ok peek L s' \<and> prep_ok L s' \<and> sv_allowed_host_set s' = sv_allowed_host_set s"
    by (rule received_sound [OF _ _ _ _ receive.hyps(2)]) (use t ok in simp_all)
  then show ?case using moved_sound(1) [OF receive.prems] by (simp add: calls_safe_def)
next
  case (claim_key key s s' ts)
  then show ?case using claim_sound [of s L key True s'] by (simp add: service_sound_def calls_safe_def)
next
  case (claim_url req s s' url key ts)
  then show ?case using claim_sound [of s L key True s'] background_target [of L req s True s' url key]
    by (simp add: service_sound_def calls_safe_def)
next
  case (look_key key ts s found s')
  note ok = sound_task(2) [OF look_key.prems]
  show ?case
    using refresh_lookup_sound [of s L key found s'] ok look_key.hyps(2) moved_sound(2) [OF look_key.prems]
    by (simp add: calls_safe_def)
next
  case (look_url url key ts s found s')
  note t = sound_task(1) [OF look_url.prems look_url.hyps(1)] and ok = sound_task(2) [OF look_url.prems]
  show ?case
    using refresh_lookup_sound [of s L key found s' url] t ok look_url.hyps(2) moved_sound(2) [OF look_url.prems]
    by (simp add: calls_safe_def)
next
  case (ask key url r ts e s call s')
  note t = sound_task(1) [OF ask.prems ask.hyps(1)] and ok = sound_task(2) [OF ask.prems]
  have s': "s' = snd (refresh_send e url r s)" and call: "call = fst (refresh_send e url r s)"
    using ask.hyps(2) by simp_all
  have "cache_ok inv s' \<and> urls_ok peek L s' \<and> prep_ok L s' \<and> sv_allowed_host_set s' = sv_allowed_host_set s"
    using untouched_sound [of s L s'] ok by (simp add: s' frame_simps)
  moreover have "task_safe L (sv_allowed_host_set s) (after_refresh_send key url r call)"
    using t by (simp add: call refresh_send_call)
  ultimately show ?case
    using t moved_sound(2) [OF ask.prems] by (simp add: call refresh_send_call calls_safe_def)
next
  case (learn key url r token ts s e up)
  note t = sound_task(1) [OF learn.prems learn.hyps] and ok = sound_task(2) [OF learn.prems]
  show ?case
    using learned_sound [OF _ _ _ _ refl, of s L url e key r token up] t ok moved_sound(2) [OF learn.prems]
    by (simp add: calls_safe_def)
next
  case (release key ts s)
  show ?case
    using sound_task(2) [OF release.prems] moved_sound(1) [OF release.prems, of "refresh_done key s"]
    by (simp add: calls_safe_def done_sound frame_simps)
qed

lemma run_sound:
  assumes "service_run L ops st calls st'" and "service_sound inv peek L st"
  shows "service_sound inv peek L st' \<and> calls_safe L (sv_allowed_host_set (fst st)) calls \<and>
    sv_allowed_host_set (fst st') = sv_allowed_host_set (fst st)"
  using assms
proof (induction rule: service_run.induct)
  case (sr_snoc st calls st' calls' st'')
  then show ?case using step_sound [OF sr_snoc.hyps(2)] by (auto simp: calls_safe_def)
qed (simp add: calls_safe_def)

end

section \<open>Claims\<close>

lemma lookup_refreshing [frame_simps]: "sv_refreshing (snd (handle_lookup L ops e req s)) = sv_refreshing s"
proof -
  let ?s1 = "snd (sv_prepare_request L s (raw_url req))"
  let ?s2 = "snd (get_from_cache ops ?s1 (prep_cache_key (fst (sv_prepare_request L s (raw_url req)))))"
  let ?t = "snd (handle_lookup L ops e req s)"
  have "?t = ?s1 \<or> ?t = ?s2 \<or> (\<exists>k. ?t = serve_hit e k ?s2)"
    by (auto simp: handle_lookup_def Let_def split: option.splits prod.splits)
  then show ?thesis by (auto simp: frame_simps)
qed

lemma refresh_lookup_refreshing [frame_simps]:
  "sv_refreshing (snd (refresh_lookup_by_key ops key s)) = sv_refreshing s"
  "sv_refreshing (snd (refresh_lookup ops url key s)) = sv_refreshing s"
  by (simp_all add: refresh_lookup_by_key_def refresh_lookup_def frame_simps split_beta)

lemma replaced_claims:
  assumes "claims_ok s ts" and "t \<in> set ts" and "refresh_keys t' = refresh_keys t"
    and "sv_refreshing s' = sv_refreshing s"
  shows "claims_ok s' (t' # remove1 t ts)"
proof -
  have m: "mset (refreshing_keys ts) = mset (refreshing_keys (t' # remove1 t ts))"
    using refreshing_keys_remove [OF assms(2)] assms(3) by simp
  then show ?thesis
    using assms(1,4) mset_eq_imp_distinct_iff [OF m] mset_eq_setD [OF m] by (simp add: claims_ok_def)
qed

lemma claim_claims:
  assumes "claims_ok s ts" and "refresh_start key s = (True, s')" and "refresh_keys t = [key]"
  shows "claims_ok s' (t # ts)"
proof -
  have "key |\<notin>| sv_refreshing s" "sv_refreshing s' = finsert key (sv_refreshing s)"
    using assms(2) by (auto simp: refresh_start_def split: if_splits)
  then show ?thesis using assms(1,3) by (simp add: claims_ok_def)
qed

lemma done_claims:
  assumes "claims_ok s ts" and "t \<in> set ts" and "refresh_keys t = [key]" and "sv_refreshing s' = sv_refreshing s"
  shows "claims_ok (refresh_done key s') (remove1 t ts)"
  using refreshing_one [OF assms(2,3)] assms(1,4) by (auto simp: claims_ok_def refresh_done_def)

lemma same_claims:
  assumes "claims_ok s ts" and "refreshing_keys ts' = refreshing_keys ts" and "sv_refreshing s' = sv_refreshing s"
  shows "claims_ok s' ts'"
  using assms by (simp add: claims_ok_def)

lemma step_claims:
  assumes "service_step L ops st calls st'" and "claims_ok (fst st) (snd st)"
  shows "claims_ok (fst st') (snd st')"
  using assms
proof (induction rule: service_step.induct)
  case (answer e req s reply s' ts)
  then show ?case using lookup_refreshing [of L ops e req s] by (simp add: claims_ok_def)
next
  case (await e req s p r hit s' ts)
  then show ?case using lookup_refreshing [of L ops e req s] by (simp add: claims_ok_def)
next
  case (drop_task req p r hit ts s)
  then show ?case using refreshing_none [OF drop_task.hyps] by (simp add: claims_ok_def)
next
  case (send req p r hit ts e s url token tag s')
  then show ?case
    using replaced_claims [OF _ send.hyps(1), of s "Fetch_Sent req p r hit token" s']
      send_frame(5) [of e p r hit s] by simp
next
  case (receive req p r hit token ts e up s reply s')
  then show ?case
    using refreshing_none [OF receive.hyps(1)] receive_refreshing [of L ops e req "(p, r, hit)" token up s]
    by (simp add: claims_ok_def)
next
  case (claim_key key s s' ts)
  then show ?case using claim_claims [of s ts key s' "Refresh_Key key"] by simp
next
  case (claim_url req s s' url key ts)
  then have "refresh_start key s = (True, s')" using background_target by blast
  then show ?case using claim_url claim_claims [of s ts key s' "Refresh_Url url key"] by simp
next
  case (look_key key ts s found s')
  then show ?case
    using replaced_claims [OF _ look_key.hyps(1), of s "after_refresh_lookup key found" s']
      refresh_lookup_refreshing(1) [of ops key s] by simp
next
  case (look_url url key ts s found s')
  then show ?case
    using replaced_claims [OF _ look_url.hyps(1), of s "after_refresh_lookup key found" s']
      refresh_lookup_refreshing(2) [of ops url key s] by simp
next
  case (ask key url r ts e s call s')
  then show ?case
    using replaced_claims [OF _ ask.hyps(1), of s "after_refresh_send key url r call" s']
      refresh_send_frame(5) [of e url r s] by simp
next
  case (learn key url r token ts s e up)
  show ?case
    unfolding fst_conv snd_conv
    by (rule replaced_claims [OF _ learn.hyps]) (use learn.prems in \<open>simp_all add: frame_simps\<close>)
next
  case (release key ts s)
  then show ?case using done_claims [of s ts "Refresh_Over key" key s] by simp
qed

lemma run_claims:
  assumes "service_run L ops st calls st'" and "claims_ok (fst st) (snd st)"
  shows "claims_ok (fst st') (snd st')"
  using assms by (induction rule: service_run.induct) (auto dest: step_claims)

end
