(* ===== verification/Version_Properties.thy ===== *)
theory Version_Properties
  imports Version_Runs
begin

text \<open>
  The guarantees of the version service over the L1 store: where its upstream calls go, when it
  answers from the cache, what it writes, how it bounds bodies, and what its counters mean.
\<close>

section \<open>Counters\<close>

definition metric :: "(metrics \<Rightarrow> 64 word) \<Rightarrow> 's service \<Rightarrow> 64 word option" where
  "metric f s = map_option f (sv_metrics s)"

lemma finish_metrics:
  "sv_metrics (snd (finish_not_modified ops e p r s)) = sv_metrics s"
  "sv_metrics (snd (finish_ok L ops e st p hit resp s)) = sv_metrics s"
  "sv_metrics (snd (finish_other L ops e st p hit resp s)) =
     (if resp_status_code resp \<ge> 400 then inc_upstream_error (sv_metrics s) else sv_metrics s)"
  by (simp_all add: finish_not_modified_def finish_ok_def finish_other_def Let_def frame_simps
      split: sum.splits option.splits)

lemma observe_metrics:
  "sv_metrics (observe_reply e t resp s) =
     (case parse_rate_limit_remaining (resp_header resp ''X-RateLimit-Remaining'') of
        None \<Rightarrow> sv_metrics s | Some n \<Rightarrow> observe_remaining n (sv_metrics s))"
  by (simp add: observe_reply_def observe_rate_limit_remaining_def count_def Let_def split: option.splits)

lemma fetch_metrics:
  "metric cache_hits (fst (snd (handle_fetch L ops e req pend s))) = metric cache_hits s"
  "metric cache_misses (fst (snd (handle_fetch L ops e req pend s))) =
     map_option (\<lambda>n. n + 1) (metric cache_misses s)"
  "metric upstream_requests (fst (snd (handle_fetch L ops e req pend s))) =
     map_option (\<lambda>n. n + 1) (metric upstream_requests s)"
  "metric access_log_dropped (fst (snd (handle_fetch L ops e req pend s))) = metric access_log_dropped s"
  by (simp_all add: fetch_defs Let_def split_beta metric_def finish_metrics observe_metrics
      frame_simps metrics_incs option.map_comp comp_def split: upstream_result.splits option.splits)

lemma lookup_metrics:
  "sv_metrics (snd (handle_lookup L ops e req s)) =
     (case fst (handle_lookup L ops e req s) of
        Inl reply \<Rightarrow> if cache_status reply = cache_status_hit then inc_cache_hit (sv_metrics s) else sv_metrics s
      | Inr _ \<Rightarrow> sv_metrics s)"
proof -
  let ?s1 = "snd (sv_prepare_request L s (raw_url req))"
  have "sv_metrics ?s1 = sv_metrics s"
    "sv_metrics (snd (get_from_cache ops ?s1 k)) = sv_metrics s" for k
    by (simp_all add: frame_simps)
  then show ?thesis
    unfolding handle_lookup_def split_beta Let_def
    by (simp add: frame_simps hit_response_def invalid_parameter_def cache_status_defs split: option.splits)
qed

lemma finish_status:
  "cache_status (fst (finish_not_modified ops e p r s)) = ''REVALIDATED''"
  "cache_status (fst (finish_ok L ops e st p hit resp s)) = st"
  "cache_status (fst (finish_other L ops e st p hit resp s)) = st"
  by (simp_all add: finish_not_modified_def finish_ok_def finish_other_def Let_def
      cache_status_revalidated_def split: sum.splits option.splits)

lemma fetch_not_hit: "cache_status (fst (handle_fetch L ops e req pend s)) \<noteq> ''HIT''"
  by (simp add: fetch_defs Let_def split_beta finish_status cache_status_bypass_def
      cache_status_miss_def split: upstream_result.splits)

lemma lookup_dropped:
  "handle_lookup L ops e req s = (res, s') \<Longrightarrow> metric access_log_dropped s' = metric access_log_dropped s"
  using lookup_metrics [of L ops e req s]
  by (auto simp: metric_def inc_cache_hit_def option.map_comp comp_def split: sum.splits if_splits)

lemma direct_dropped:
  "handle_direct L ops e req s = (reply, s', calls) \<Longrightarrow>
   metric access_log_dropped s' = metric access_log_dropped s"
  using fetch_metrics(4) [of L ops e req]
  by (auto simp: handle_direct_def dest!: lookup_dropped split: prod.splits sum.splits) (metis fst_conv snd_conv)+

lemma handle_dropped:
  "handle L ops e e' fl req s = (reply, s', calls) \<Longrightarrow>
   metric access_log_dropped s' = metric access_log_dropped s"
  by (auto simp: handle_def dest!: lookup_dropped direct_dropped split: prod.splits sum.splits flight.splits)

section \<open>Where upstream calls go\<close>

text \<open>The service over an L1 store as the program builds it, with optional metrics.\<close>

definition fresh_service ::
  "golib \<Rightarrow> int \<Rightarrow> tracker option \<Rightarrow> token_provider option \<Rightarrow> string list \<Rightarrow> policy \<Rightarrow> metrics option \<Rightarrow>
   l1_store service" where
  "fresh_service L max_bytes hits tokens hosts p m =
     set_metrics (new_service L (Some (new_store (Some (new_cache_with_max_bytes max_bytes)))) hits tokens
       hosts p) m"

lemma fresh_service_fields:
  "sv_cache (fresh_service L n hits tokens hosts p m) = Some (Some (Some (new_cache_with_max_bytes n)))"
  "sv_request_prep (fresh_service L n hits tokens hosts p m) = Some (new_request_prep_cache 0)"
  "sv_allowed_host_set (fresh_service L n hits tokens hosts p m) = build_allowed_host_set L hosts"
  "sv_refreshing (fresh_service L n hits tokens hosts p m) = {||}"
  by (simp_all add: fresh_service_def set_metrics_def new_service_def new_store_def Let_def)

lemma fresh_service_ok:
  "cache_ok store_inv (fresh_service L n hits tokens hosts p m)"
  "cache_view store_peek (fresh_service L n hits tokens hosts p m) k = None"
  "prep_ok L (fresh_service L n hits tokens hosts p m)"
  by (simp_all add: cache_ok_def cache_view_def prep_ok_def fresh_service_fields memo_of_opt_def
      new_prep_memo store_inv_def new_cache_inv store_peek_def record_of_def)
    (simp add: new_cache_with_max_bytes_def)

lemma fresh_service_sound:
  "service_sound store_inv store_peek L (fresh_service L n hits tokens hosts p m, [])"
  "claims_ok (fresh_service L n hits tokens hosts p m) []"
  by (simp_all add: service_sound_def fresh_service_ok urls_ok_def claims_ok_def fresh_service_fields)

text \<open>
  Requests to the upstream are confined: however lookups, fetches and background refreshes
  interleave from a new service, the URL of every upstream call is the printed form of a parsed https
  URL with a host, without userinfo, on the default port, and on the allowlist.
\<close>

theorem upstream_calls_confined:
  assumes "service_run L l1_store_ops (fresh_service L max_bytes hits tokens hosts p m, []) calls (s, ts)"
    and "(url, token, tag) \<in> set calls"
  shows "\<exists>raw u. lib_parse L raw = Some u \<and> url = url_string u \<and>
     url_host u \<noteq> [] \<and> equal_fold L (url_scheme u) ''https'' \<and> url_user u = None \<and>
     url_port u \<in> {[], ''443''} \<and> is_allowed_host L (build_allowed_host_set L hosts) (url_hostname u)"
proof -
  have "calls_safe L (build_allowed_host_set L hosts) calls"
    using svc.run_sound [OF assms(1) fresh_service_sound(1)] by (simp add: fresh_service_fields)
  then have "safe_target L (build_allowed_host_set L hosts) url"
    using assms(2) by (auto simp: calls_safe_def)
  then show ?thesis unfolding safe_target_def safe_url_def by blast
qed

text \<open>
  C20. Background refreshes exclude each other per key: in every reachable state the refreshes that
  have been started and not finished have distinct keys, and those keys are the ones the group holds.
\<close>

theorem refreshes_exclusive:
  assumes "service_run L ops (fresh_service L max_bytes hits tokens hosts p m, []) calls (s, ts)"
  shows "distinct (refreshing_keys ts) \<and> fset (sv_refreshing s) = set (refreshing_keys ts)"
  using run_claims [OF assms] fresh_service_sound(2) by (simp add: claims_ok_def)

section \<open>Answering from the cache\<close>

text \<open>
  C19. What a lookup answers, on every branch: an error for a URL that preparation rejects, the
  stored payload with its status for a record that is still servable unless the request forces a
  refresh, and otherwise nothing yet (the request goes on to the upstream); the cached records stay
  the same.
\<close>

theorem lookup_decides:
  assumes "cache_ok store_inv s" and "prep_ok L s"
  shows "fst (handle_lookup L l1_store_ops e req s) =
     (let p = prepare_request L (Some (is_allowed_host L (sv_allowed_host_set s))) (raw_url req);
          key = prep_cache_key p
      in case prep_err p of
           Some err \<Rightarrow> Inl (invalid_parameter err)
         | None \<Rightarrow>
             (case cache_view store_peek s key of
                None \<Rightarrow> Inr (p, empty_record, False)
              | Some r \<Rightarrow>
                  if \<not> force_refresh req \<and> servable r (env_now e) (hard_ttl (sv_policy s))
                  then Inl (hit_response key (served_status r) r) else Inr (p, r, True))) \<and>
     cache_view store_peek (snd (handle_lookup L l1_store_ops e req s)) = cache_view store_peek s"
  unfolding Let_def using svc.lookup_result [OF assms, of e req, unfolded service_prepare_def]
    svc.lookup_state(2) [OF assms, of e req] by (rule conjI)

text \<open>
  C2. A hit costs nothing upstream: when the cached record is still servable and the request does not
  force a refresh, \<open>Handle\<close> returns the stored payload, makes no upstream call and leaves the cached
  records alone, whatever other requests are in flight.
\<close>

theorem hit_makes_no_call:
  assumes "cache_ok store_inv s" and "prep_ok L s" and "\<not> force_refresh req"
    and "prep_err (service_prepare L s (raw_url req)) = None"
    and "cache_view store_peek s (prep_cache_key (service_prepare L s (raw_url req))) = Some r"
    and "servable r (env_now e) (hard_ttl (sv_policy s))"
    and "handle L l1_store_ops e e' fl req s = (reply, s', calls)"
  shows "resp_content reply = Raw_Body (payload r) \<and> cache_status reply = ''HIT'' \<and>
     status_code reply = served_status r \<and> calls = [] \<and>
     cache_view store_peek s' = cache_view store_peek s"
proof -
  have "fst (handle_lookup L l1_store_ops e req s) =
      Inl (hit_response (prep_cache_key (service_prepare L s (raw_url req))) (served_status r) r)"
    using svc.lookup_result [OF assms(1,2), of e req] assms(3-6) by simp
  then obtain s1 where
    "handle_lookup L l1_store_ops e req s =
      (Inl (hit_response (prep_cache_key (service_prepare L s (raw_url req))) (served_status r) r), s1)"
    "cache_view store_peek s1 = cache_view store_peek s"
    using svc.lookup_state(2) [OF assms(1,2), of e req] by (metis prod.collapse)
  then show ?thesis using assms(7) by (auto simp: handle_def hit_response_def cache_status_hit_def)
qed

section \<open>Writing to the cache\<close>

lemma fetch_ok_reply:
  assumes "env_upstream e (url_to_fetch p) (fst (sv_next_token e s))
      (if conditional_candidate r hit then etag r else []) = Up_Resp resp"
    and "resp_status_code resp = 200" and "lib_json_valid L body"
    and "read_bounded_body (resp_body resp) (max_upstream_response_bytes (sv_policy s)) = Inr body"
  shows "resp_content (fst (handle_fetch L ops e req (p, r, hit) s)) = Raw_Body body \<and>
     status_code (fst (handle_fetch L ops e req (p, r, hit) s)) = 200"
proof -
  obtain s3 where s3: "s3 = observe_reply e (fst (sv_next_token e s)) resp
      (count inc_upstream_request (count inc_cache_miss (snd (sv_next_token e s))))" by blast
  have "sv_policy s3 = sv_policy s" by (simp add: s3 frame_simps)
  then show ?thesis
    unfolding fetch_defs Let_def split_beta fst_conv snd_conv assms(1) upstream_result.case
      s3 [symmetric]
    using assms(2-4) by (simp add: finish_ok_def Let_def)
qed

text \<open>
  C3. What may be cached: the upstream half of a request writes at most the record under the request's
  own key, and only \<open>written_record\<close> of the reply: of a 200 reply whose body fits the limit and is valid
  JSON, of a 304 that answers a conditional request, or of a 404 or 410; that record is then stored if
  it fits the cache. Records under other keys stay as they are or are evicted to make room for it. For
  any other reply, or none, nothing is written and every cached record stays as it was.
\<close>

theorem fetch_write_policy:
  assumes "cache_ok store_inv s"
    and "handle_fetch L l1_store_ops e req (p, r, hit) s = (reply, s', calls)"
  defines "w \<equiv> (case env_upstream e (url_to_fetch p) (fst (sv_next_token e s))
                  (if conditional_candidate r hit then etag r else []) of
                 Up_Err _ \<Rightarrow> None
               | Up_Resp resp \<Rightarrow> written_record L (sv_policy s) (env_now e) (url_to_fetch p) r hit resp)"
  shows "(w = None \<longrightarrow> cache_view store_peek s' = cache_view store_peek s) \<and>
     (\<forall>k. k \<noteq> prep_cache_key p \<longrightarrow>
        cache_view store_peek s' k \<in> {None, cache_view store_peek s k}) \<and>
     cache_view store_peek s' (prep_cache_key p) \<in> {None, cache_view store_peek s (prep_cache_key p), w} \<and>
     (\<forall>x. w = Some x \<and> prep_cache_key p \<noteq> [] \<and> cache_fits store_fits s (prep_cache_key p) x \<longrightarrow>
        cache_view store_peek s' (prep_cache_key p) = Some x)"
proof -
  let ?k = "prep_cache_key p"
  have c: "sv_cache s' = written l1_store_ops (sv_cache s) ?k w"
    using fetch_cache [of L l1_store_ops e req p r hit s] assms(2) by (simp add: w_def)
  show ?thesis
  proof (cases w)
    case None
    then have "cache_view store_peek s' = cache_view store_peek s"
      using c by (intro ext) (simp add: cache_view_def)
    with None show ?thesis by simp
  next
    case (Some x)
    have "cache_view store_peek s' k = cache_view store_peek (snd (set_to_cache l1_store_ops s ?k x)) k" for k
      using c Some by (simp add: set_cache cache_view_def)
    then have v: "cache_view store_peek s' k \<in> {None, if k = ?k then Some x else cache_view store_peek s k}" for k
      using svc.set_view(2) [OF assms(1), of ?k x k] by simp
    have "cache_view store_peek s' k \<in> {None, cache_view store_peek s k}" if "k \<noteq> ?k" for k
      using v [of k] that by simp
    moreover have "cache_view store_peek s' ?k \<in> {None, Some x}" using v [of ?k] by simp
    moreover have "cache_view store_peek s' ?k = Some x" if "?k \<noteq> []" "cache_fits store_fits s ?k x"
      using svc.set_view(3) [OF assms(1) that] c Some by (simp add: set_cache cache_view_def)
    ultimately show ?thesis using Some by blast
  qed
qed

text \<open>
  C4. What was fetched is served from the cache: after a lookup missed and the upstream answered 200
  with a valid JSON body within the limit, that body is returned, and, when the record fits the cache,
  the next ordinary request for the URL before the record's expiry is a hit with the same body.
\<close>

theorem fetch_then_hit:
  assumes "cache_ok store_inv s" and "prep_ok L s" and "hard_ttl (sv_policy s) > 0"
    and "handle_lookup L l1_store_ops e req s = (Inr (p, r, hit), s1)"
    and "handle_fetch L l1_store_ops e req (p, r, hit) s1 = (reply, s2, calls)"
    and "env_upstream e (url_to_fetch p) (fst (sv_next_token e s1))
           (if conditional_candidate r hit then etag r else []) = Up_Resp resp"
    and "resp_status_code resp = 200" and "lib_json_valid L body"
    and "read_bounded_body (resp_body resp) (max_upstream_response_bytes (sv_policy s)) = Inr body"
    and "env_now e + hard_ttl (sv_policy s) \<noteq> 0" and "env_now e2 < env_now e + hard_ttl (sv_policy s)"
    and "raw_url req2 = raw_url req" and "\<not> force_refresh req2"
  shows "resp_content reply = Raw_Body body \<and> status_code reply = 200 \<and>
     (cache_fits store_fits s (prep_cache_key p)
        (fresh_record body (resp_header resp ''ETag'') (url_to_fetch p) (env_now e)
           (env_now e + hard_ttl (sv_policy s)) 200) \<longrightarrow>
      fst (handle_lookup L l1_store_ops e2 req2 s2) =
        Inl \<lparr>status_code = 200, resp_content = Raw_Body body, cache_status = ''HIT'',
             cache_key = prep_cache_key p, upstream_status = 0\<rparr>)"
proof (intro conjI impI)
  let ?w = "fresh_record body (resp_header resp ''ETag'') (url_to_fetch p) (env_now e)
    (env_now e + hard_ttl (sv_policy s)) 200"
  note st = svc.lookup_state [OF assms(1,2), of e req, unfolded assms(4) snd_conv]
  have p: "p = service_prepare L s (raw_url req)" "prep_err p = None"
    using svc.lookup_result [OF assms(1,2), of e req] assms(4) by (auto split: option.splits if_splits)
  have prep1: "prep_ok L s1"
    using sv_prepare_request_ok(2) [OF assms(2), of "raw_url req"] st prep_frame [of L s "raw_url req"]
    by (simp add: prep_ok_def service_prepare_def)
  have s2: "s2 = fst (snd (handle_fetch L l1_store_ops e req (p, r, hit) s1))" using assms(5) by simp
  have "sv_cache s2 = written l1_store_ops (sv_cache s1) (prep_cache_key p) (Some ?w)"
    using fetch_cache [of L l1_store_ops e req p r hit s1] assms(3,6-9) st(4)
    by (simp add: s2 written_record_def hard_expires_at_def)
  then have c: "sv_cache s2 = sv_cache (snd (set_to_cache l1_store_ops s1 (prep_cache_key p) ?w))"
    by (simp add: set_cache)
  have key: "prep_cache_key p \<noteq> []"
    using service_prepare_ok [of L s "raw_url req"] key_nonempty p by metis
  have ok2: "cache_ok store_inv s2"
    using svc.set_view(1) [OF st(1), of "prep_cache_key p" ?w] c by (simp add: cache_ok_def)
  show "resp_content reply = Raw_Body body" "status_code reply = 200"
    using fetch_ok_reply [OF assms(6-8), of l1_store_ops req] assms(5,9) st(4) by simp_all
  assume fits: "cache_fits store_fits s (prep_cache_key p)
    (fresh_record body (resp_header resp ''ETag'') (url_to_fetch p) (env_now e)
      (env_now e + hard_ttl (sv_policy s)) 200)"
  have "cache_view store_peek s2 (prep_cache_key p) = Some ?w"
    using svc.set_view(3) [OF st(1) key] st(3) fits c by (simp add: cache_view_def)
  moreover have prep2: "prep_ok L s2" using prep1 by (simp add: s2 frame_simps)
  moreover have "sv_policy s2 = sv_policy s" "sv_allowed_host_set s2 = sv_allowed_host_set s"
    using st by (simp_all add: s2 frame_simps)
  moreover have "service_prepare L s2 (raw_url req2) = p"
    using calculation(4) p(1) assms(12) by (simp add: service_prepare_def)
  moreover have "servable ?w (env_now e2) (hard_ttl (sv_policy s))"
    using assms(3,10,11) by (simp add: servable_def fresh_record_def is_negative_cacheable_status_def
        is_hard_expired_def)
  ultimately have "fst (handle_lookup L l1_store_ops e2 req2 s2) =
      Inl (hit_response (prep_cache_key p) (served_status ?w) ?w)"
    using svc.lookup_result [OF ok2 prep2, of e2 req2] assms(13) p(2) by simp
  then show "fst (handle_lookup L l1_store_ops e2 req2 s2) =
        Inl \<lparr>status_code = 200, resp_content = Raw_Body body, cache_status = ''HIT'',
             cache_key = prep_cache_key p, upstream_status = 0\<rparr>"
    by (simp add: hit_response_def served_status_def fresh_record_def cache_status_hit_def
        is_negative_cacheable_status_def)
qed

section \<open>Going upstream\<close>

text \<open>
  A caller that leads its call and is not answered by the lookups at its own time and at the group's
  fetches with the stored record, if any, as the candidate for revalidation.
\<close>

lemma led_fetch:
  assumes "cache_ok store_inv s" and "prep_ok L s"
    and "prep_err (service_prepare L s (raw_url req)) = None"
  defines "p \<equiv> service_prepare L s (raw_url req)"
  assumes "\<And>r. cache_view store_peek s (prep_cache_key p) = Some r \<Longrightarrow> \<not> force_refresh req \<Longrightarrow>
      \<not> servable r (env_now e) (hard_ttl (sv_policy s)) \<and> \<not> servable r (env_now e') (hard_ttl (sv_policy s))"
  obtains s2 where
    "handle L l1_store_ops e e' Leads req s = handle_fetch L l1_store_ops e' req
       (case cache_view store_peek s (prep_cache_key p) of None \<Rightarrow> (p, empty_record, False) | Some r \<Rightarrow> (p, r, True)) s2"
    and "cache_ok store_inv s2" and "cache_view store_peek s2 = cache_view store_peek s"
    and "cache_fits store_fits s2 = cache_fits store_fits s" and "sv_policy s2 = sv_policy s"
    and "fst (sv_next_token e' s2) = fst (sv_next_token e' s)"
proof -
  let ?pend = "case cache_view store_peek s (prep_cache_key p) of None \<Rightarrow> (p, empty_record, False) | Some r \<Rightarrow> (p, r, True)"
  define s1 where "s1 = snd (handle_lookup L l1_store_ops e req s)"
  define s2 where "s2 = snd (handle_lookup L l1_store_ops e' req s1)"
  note st = svc.lookup_state [OF assms(1,2), of e req, folded s1_def]
  have prep1: "prep_ok L s1" and p1: "service_prepare L s1 (raw_url req) = p"
    using sv_prepare_request_ok(2) [OF assms(2), of "raw_url req"] st prep_frame [of L s "raw_url req"]
    by (simp_all add: prep_ok_def service_prepare_def p_def)
  note st2 = svc.lookup_state [OF st(1) prep1, of e' req, folded s2_def]
  have "fst (handle_lookup L l1_store_ops e req s) = Inr ?pend"
    using svc.lookup_result [OF assms(1,2), of e req] assms(3,5)
    by (auto simp: p_def split: option.splits)
  then have look: "handle_lookup L l1_store_ops e req s = (Inr ?pend, s1)" by (simp add: s1_def prod_eq_iff)
  have "fst (handle_lookup L l1_store_ops e' req s1) = Inr ?pend"
    using svc.lookup_result [OF st(1) prep1, of e' req] assms(3,5) st(2,4)
    by (auto simp: p1 p_def [symmetric] split: option.splits)
  then have "handle_lookup L l1_store_ops e' req s1 = (Inr ?pend, s2)" by (simp add: s2_def prod_eq_iff)
  with look have "handle L l1_store_ops e e' Leads req s = handle_fetch L l1_store_ops e' req ?pend s2"
    by (auto simp: handle_def handle_direct_def split: option.splits)
  moreover have "fst (sv_next_token e' s2) = fst (sv_next_token e' s)"
    using st(7) st2(7) by (simp add: sv_next_token_def split: option.splits prod.splits)
  ultimately show ?thesis using that [of s2] st st2 by simp
qed

text \<open>A raw body in a fetched reply is the upstream's own, or the stored payload that a 304 confirmed.\<close>

lemma fetch_raw_body:
  assumes "resp_content (fst (handle_fetch L ops e req (p, r, hit) s)) = Raw_Body b"
  shows "\<exists>resp. env_upstream e (url_to_fetch p) (fst (sv_next_token e s))
       (if conditional_candidate r hit then etag r else []) = Up_Resp resp \<and>
     (resp_status_code resp = 200 \<and>
        read_bounded_body (resp_body resp) (max_upstream_response_bytes (sv_policy s)) = Inr b \<or>
      resp_status_code resp = 304 \<and> conditional_candidate r hit \<and> b = payload r \<and>
        cache_status (fst (handle_fetch L ops e req (p, r, hit) s)) = ''REVALIDATED'')"
proof (cases "env_upstream e (url_to_fetch p) (fst (sv_next_token e s))
    (if conditional_candidate r hit then etag r else [])")
  case (Up_Err x)
  then show ?thesis
    using assms unfolding fetch_parts Let_def send_call fst_conv snd_conv
    by (simp add: fetch_receive_def error_body_def)
next
  case (Up_Resp resp)
  let ?t = "fst (sv_next_token e s)"
  define s1 where "s1 = observe_reply e ?t resp (snd (fetch_send e p r hit s))"
  have pol: "sv_policy s1 = sv_policy s" by (simp add: s1_def frame_simps)
  have "handle_fetch L ops e req (p, r, hit) s =
      (let reply = (if resp_status_code resp = 304 \<and> conditional_candidate r hit
          then finish_not_modified ops e p r s1
          else if resp_status_code resp = 200
          then finish_ok L ops e (if force_refresh req then cache_status_bypass else cache_status_miss) p hit resp s1
          else finish_other L ops e (if force_refresh req then cache_status_bypass else cache_status_miss) p hit resp s1)
       in (fst reply, snd reply, [fst (fetch_send e p r hit s)]))"
    unfolding fetch_parts Let_def send_call fst_conv snd_conv Up_Resp
    by (simp add: fetch_receive_def Let_def s1_def)
  then show ?thesis
    using assms Up_Resp pol
    by (auto simp: Let_def finish_not_modified_def finish_ok_def finish_other_def revalidated_record_def
        error_body_def cache_status_revalidated_def split: if_splits sum.splits option.splits)
qed

text \<open>
  C21. A forced refresh that leads its call always goes upstream, exactly once, with the entity tag of
  the stored record (if there is one and it is not of a negative status). It is never answered as a hit:
  a payload it returns is the upstream's own of a 200 reply, within the limit, or the stored one when
  the upstream has just confirmed it with a 304 to its tag.
\<close>

theorem forced_refresh_calls_upstream:
  assumes "cache_ok store_inv s" and "prep_ok L s" and "force_refresh req"
    and "prep_err (service_prepare L s (raw_url req)) = None"
    and "handle L l1_store_ops e e' Leads req s = (reply, s', calls)"
  defines "p \<equiv> service_prepare L s (raw_url req)"
  defines "stored \<equiv> cache_view store_peek s (prep_cache_key p)" and "token \<equiv> fst (sv_next_token e' s)"
  defines "tag \<equiv> (case stored of None \<Rightarrow> []
                   | Some r \<Rightarrow> if is_negative_cacheable_status (source_status r) then [] else etag r)"
  shows "calls = [(url_to_fetch p, token, tag)] \<and> cache_status reply \<noteq> ''HIT'' \<and>
     (\<forall>b. resp_content reply = Raw_Body b \<longrightarrow>
       (\<exists>resp. env_upstream e' (url_to_fetch p) token tag = Up_Resp resp \<and>
          (resp_status_code resp = 200 \<and>
             read_bounded_body (resp_body resp) (max_upstream_response_bytes (sv_policy s)) = Inr b \<or>
           resp_status_code resp = 304 \<and> tag \<noteq> [] \<and> cache_status reply = ''REVALIDATED'' \<and>
             (\<exists>r. stored = Some r \<and> b = payload r))))"
proof -
  obtain s2 where f: "handle_fetch L l1_store_ops e' req
       (case stored of None \<Rightarrow> (p, empty_record, False) | Some r \<Rightarrow> (p, r, True)) s2 = (reply, s', calls)"
    and s2: "sv_policy s2 = sv_policy s" "fst (sv_next_token e' s2) = token"
    using led_fetch [OF assms(1,2,4), of e e'] assms(3,5) unfolding p_def stored_def token_def by metis
  define r hit where "r = (case stored of None \<Rightarrow> empty_record | Some r \<Rightarrow> r)" and "hit = (stored \<noteq> None)"
  have pend: "handle_fetch L l1_store_ops e' req (p, r, hit) s2 = (reply, s', calls)"
    using f by (simp add: r_def hit_def split: option.splits)
  have tag: "(if conditional_candidate r hit then etag r else []) = tag"
    by (auto simp: tag_def r_def hit_def conditional_candidate_def split: option.splits)
  have cand: "conditional_candidate r hit \<Longrightarrow> tag \<noteq> [] \<and> stored = Some r"
    by (auto simp: tag_def r_def hit_def conditional_candidate_def split: option.splits)
  have calls: "calls = [(url_to_fetch p, token, tag)]"
    using fetch_calls [of L l1_store_ops e' req p r hit s2] unfolding pend tag s2(2) by simp
  have "cache_status reply \<noteq> ''HIT''"
    using fetch_not_hit [of L l1_store_ops e' req "(p, r, hit)" s2] unfolding pend by simp
  moreover have "\<exists>resp. env_upstream e' (url_to_fetch p) token tag = Up_Resp resp \<and>
      (resp_status_code resp = 200 \<and>
         read_bounded_body (resp_body resp) (max_upstream_response_bytes (sv_policy s)) = Inr b \<or>
       resp_status_code resp = 304 \<and> tag \<noteq> [] \<and> cache_status reply = ''REVALIDATED'' \<and>
         (\<exists>r. stored = Some r \<and> b = payload r))" if "resp_content reply = Raw_Body b" for b
    using fetch_raw_body [of L l1_store_ops e' req p r hit s2 b] that cand
    unfolding pend tag s2 fst_conv by blast
  ultimately show ?thesis using calls by blast
qed

lemma hard_expired_mono:
  "is_hard_expired r now ttl \<Longrightarrow> now \<le> now' \<Longrightarrow> is_hard_expired r now' ttl"
  by (auto simp: is_hard_expired_def Let_def split: if_splits)

text \<open>
  C22. Revalidation keeps the payload: when the stored record has an entity tag and is past its hard
  expiry, a request that leads its call asks the upstream once, with the tag; if the reply is a 304, the
  response is the stored payload, marked as revalidated, and the record is kept with only its times
  renewed (and the URL just fetched), when it fits. (The handler runs again for the group, no earlier.)
\<close>

theorem revalidation_keeps_payload:
  assumes "cache_ok store_inv s" and "prep_ok L s"
    and "prep_err (service_prepare L s (raw_url req)) = None"
  defines "p \<equiv> service_prepare L s (raw_url req)"
  assumes "cache_view store_peek s (prep_cache_key p) = Some r"
    and "etag r \<noteq> []" and "\<not> is_negative_cacheable_status (source_status r)"
    and "is_hard_expired r (env_now e) (hard_ttl (sv_policy s))" and "env_now e \<le> env_now e'"
    and "handle L l1_store_ops e e' Leads req s = (reply, s', calls)"
  defines "renewed \<equiv> r\<lparr>last_checked_at := env_now e',
             expires_at := hard_expires_at (env_now e') (hard_ttl (sv_policy s)), rec_url := url_to_fetch p\<rparr>"
  shows "calls = [(url_to_fetch p, fst (sv_next_token e' s), etag r)] \<and>
     (\<forall>resp. env_upstream e' (url_to_fetch p) (fst (sv_next_token e' s)) (etag r) = Up_Resp resp \<and>
        resp_status_code resp = 304 \<longrightarrow>
        status_code reply = 200 \<and> resp_content reply = Raw_Body (payload r) \<and>
        cache_status reply = ''REVALIDATED'' \<and> cache_key reply = prep_cache_key p \<and>
        (cache_fits store_fits s (prep_cache_key p) renewed \<longrightarrow>
           cache_view store_peek s' (prep_cache_key p) = Some renewed))"
proof (intro conjI allI impI)
  have stale: "\<not> servable r (env_now e) (hard_ttl (sv_policy s)) \<and> \<not> servable r (env_now e') (hard_ttl (sv_policy s))"
    using assms(7,8) hard_expired_mono [OF assms(8,9)] by (simp add: servable_def)
  obtain s2 where "handle L l1_store_ops e e' Leads req s = handle_fetch L l1_store_ops e' req
       (case cache_view store_peek s (prep_cache_key p) of None \<Rightarrow> (p, empty_record, False) | Some r \<Rightarrow> (p, r, True)) s2"
    and s2: "cache_ok store_inv s2" "cache_view store_peek s2 = cache_view store_peek s"
      "cache_fits store_fits s2 = cache_fits store_fits s"
      "sv_policy s2 = sv_policy s" "fst (sv_next_token e' s2) = fst (sv_next_token e' s)"
    by (rule led_fetch [OF assms(1-3), folded p_def, of e e']) (use assms(5) stale in simp)
  then have f: "handle_fetch L l1_store_ops e' req (p, r, True) s2 = (reply, s', calls)"
    using assms(5,10) by simp
  have cand: "conditional_candidate r True" using assms(6,7) by (simp add: conditional_candidate_def)
  show "calls = [(url_to_fetch p, fst (sv_next_token e' s), etag r)]"
    using fetch_calls [of L l1_store_ops e' req p r True s2] f cand s2(5) by simp
  fix resp assume resp: "env_upstream e' (url_to_fetch p) (fst (sv_next_token e' s)) (etag r) = Up_Resp resp \<and>
    resp_status_code resp = 304"
  have key: "prep_cache_key p \<noteq> []"
    using service_prepare_ok [of L s "raw_url req"] key_nonempty assms(3) unfolding p_def by metis
  have "sv_cache s' = written l1_store_ops (sv_cache s2) (prep_cache_key p) (Some renewed)"
    using fetch_cache [of L l1_store_ops e' req p r True s2] resp f cand s2(4,5)
    by (simp add: written_record_def renewed_def revalidated_record_def)
  then show "cache_view store_peek s' (prep_cache_key p) = Some renewed"
    if "cache_fits store_fits s (prep_cache_key p) renewed"
    using svc.set_view(3) [OF s2(1) key, of renewed] that s2(3)
    by (simp add: set_cache [symmetric] cache_view_def)
  obtain s3 where "fst (handle_fetch L l1_store_ops e' req (p, r, True) s2) =
      fst (finish_not_modified l1_store_ops e' p r s3)"
    unfolding fetch_parts Let_def send_call fst_conv snd_conv s2(5)
    using resp cand by (auto simp: fetch_receive_def Let_def)
  then show "status_code reply = 200" "resp_content reply = Raw_Body (payload r)"
    "cache_status reply = ''REVALIDATED''" "cache_key reply = prep_cache_key p"
    using f by (simp_all add: finish_not_modified_def Let_def revalidated_record_def cache_status_revalidated_def)
qed

section \<open>Bounded bodies\<close>

text \<open>
  C36. The limit on upstream bodies is exact: with a positive limit below the largest integer, a body
  that reads without error is returned whole when its length is within the limit and rejected as too
  large otherwise, and no result is ever longer than the limit.
\<close>

theorem bounded_body_exact:
  assumes "0 < limit" and "limit < max_int64"
  shows "(body_fails b = None \<longrightarrow> read_bounded_body b limit =
       (if int (length (body_bytes b)) \<le> limit then Inr (body_bytes b) else Inl Response_Too_Large)) \<and>
     (\<forall>p. read_bounded_body b limit = Inr p \<longrightarrow> p = body_bytes b \<and> int (length p) \<le> limit)"
proof -
  have "wrap64 (limit + 1) = limit + 1"
    using assms by (intro wrap64_id) (simp add: int64_range_def max_int64_def)
  then show ?thesis
    using assms by (auto simp: read_bounded_body_def limited_read_all_def Let_def split: option.splits)
qed

text \<open>
  With the largest limit that can be configured the bound wraps around: one byte past it is a
  negative number, and every body is read as empty.
\<close>

theorem bounded_body_wraps:
  "read_bounded_body b max_int64 = Inr []"
proof -
  have "\<not> max_int64 \<le> 0" by (simp add: max_int64_def)
  then show ?thesis
    by (simp add: read_bounded_body_def Let_def wrap64_overflow limited_read_all_def)
qed

section \<open>Counters\<close>

text \<open>
  The counters of a request are exact: one that preparation rejects changes no counter; any other
  counts one hit or one miss and not both, and one upstream request exactly when it calls upstream,
  which is when it missed.
\<close>

theorem request_counters:
  assumes "cache_ok store_inv s" and "prep_ok L s"
    and "handle_direct L l1_store_ops e req s = (reply, s', calls)"
  shows "if prep_err (service_prepare L s (raw_url req)) \<noteq> None then sv_metrics s' = sv_metrics s \<and> calls = []
     else if cache_status reply = ''HIT''
     then metric cache_hits s' = map_option (\<lambda>n. n + 1) (metric cache_hits s) \<and>
       metric cache_misses s' = metric cache_misses s \<and>
       metric upstream_requests s' = metric upstream_requests s \<and> calls = []
     else metric cache_hits s' = metric cache_hits s \<and>
       metric cache_misses s' = map_option (\<lambda>n. n + 1) (metric cache_misses s) \<and>
       metric upstream_requests s' = map_option (\<lambda>n. n + 1) (metric upstream_requests s) \<and> length calls = 1"
proof (cases "handle_lookup L l1_store_ops e req s")
  case (Pair res s1)
  note look = svc.lookup_result [OF assms(1,2), of e req, unfolded Pair fst_conv]
  note met = lookup_metrics [of L l1_store_ops e req s, unfolded Pair fst_conv snd_conv]
  show ?thesis
  proof (cases res)
    case (Inl a)
    then have "a = reply" "s1 = s'" "calls = []" using assms(3) Pair by (simp_all add: handle_direct_def)
    then show ?thesis
      using look met Inl
      by (auto simp: metric_def metrics_incs option.map_comp comp_def invalid_parameter_def
          hit_response_def cache_status_defs split: option.splits if_splits)
  next
    case (Inr pend)
    obtain p r hit where pend: "pend = (p, r, hit)" by (cases pend)
    have fetch: "handle_fetch L l1_store_ops e req (p, r, hit) s1 = (reply, s', calls)"
      using assms(3) Pair Inr pend by (simp add: handle_direct_def)
    have "prep_err (service_prepare L s (raw_url req)) = None"
      using look Inr by (auto split: option.splits)
    moreover have "cache_status reply \<noteq> ''HIT''"
      using fetch_not_hit [of L l1_store_ops e req "(p, r, hit)" s1] fetch by simp
    moreover have "sv_metrics s1 = sv_metrics s" using met Inr by simp
    ultimately show ?thesis
      using fetch_metrics [of L l1_store_ops e req "(p, r, hit)" s1] fetch
        fetch_calls [of L l1_store_ops e req p r hit s1] by (simp add: metric_def)
  qed
qed

section \<open>Background refresh\<close>

definition refresh_outcomes :: "metrics \<Rightarrow> 64 word" where
  "refresh_outcomes m = refresh_updated m + refresh_not_mod m + refresh_skipped m + refresh_failed m"

lemma observe_outcomes [simp]:
  "metric refresh_outcomes (observe_reply e t resp s) = metric refresh_outcomes s"
  by (cases "sv_metrics s")
    (simp_all add: metric_def observe_metrics observe_remaining_def refresh_outcomes_def split: option.splits)

lemma metric_count: "metric f (count g s) = map_option f (g (sv_metrics s))"
  by (simp add: metric_def frame_simps)

lemma outcome_incs:
  "map_option refresh_outcomes (inc_refresh_updated m) = map_option (\<lambda>n. n + 1) (map_option refresh_outcomes m)"
  "map_option refresh_outcomes (inc_refresh_not_mod m) = map_option (\<lambda>n. n + 1) (map_option refresh_outcomes m)"
  "map_option refresh_outcomes (inc_refresh_skipped m) = map_option (\<lambda>n. n + 1) (map_option refresh_outcomes m)"
  "map_option refresh_outcomes (inc_refresh_failed m) = map_option (\<lambda>n. n + 1) (map_option refresh_outcomes m)"
  "map_option refresh_outcomes (inc_upstream_error m) = map_option refresh_outcomes m"
  "map_option refresh_outcomes (inc_upstream_request m) = map_option refresh_outcomes m"
  by (cases m; simp add: metrics_incs refresh_outcomes_def algebra_simps)+

lemma refresh_outcome:
  "metric refresh_outcomes (fst (refresh_cached_record L ops e key url r s)) =
     map_option (\<lambda>n. n + 1) (metric refresh_outcomes s)"
proof -
  have same: "metric refresh_outcomes (snd (sv_next_token e s)) = metric refresh_outcomes s"
    "\<And>u k x. metric refresh_outcomes (snd (set_to_cache ops u k x)) = metric refresh_outcomes u"
    by (simp_all add: metric_def frame_simps)
  show ?thesis
    unfolding refresh_defs Let_def split_beta
    by (simp add: metric_count outcome_incs metric_def [symmetric] same
        split: upstream_result.splits sum.splits)
qed

lemma get_outcomes: "metric f (snd (get_from_cache ops s key)) = metric f s"
  by (simp add: metric_def frame_simps)

text \<open>
  Every background refresh has exactly one outcome: whatever the cache and the upstream do, one
  of the counters updated, not modified, skipped and failed goes up by one.
\<close>

theorem refresh_counts_once:
  "metric refresh_outcomes (fst (refresh_once_by_key L ops e key s)) =
     map_option (\<lambda>n. n + 1) (metric refresh_outcomes s) \<and>
   metric refresh_outcomes (fst (refresh_once L ops e url key s)) =
     map_option (\<lambda>n. n + 1) (metric refresh_outcomes s)"
proof -
  have "metric refresh_outcomes (count inc_refresh_failed u) = map_option (\<lambda>n. n + 1) (metric refresh_outcomes u)"
    "metric refresh_outcomes (count inc_refresh_skipped u) = map_option (\<lambda>n. n + 1) (metric refresh_outcomes u)"
    for u :: "'a service"
    by (simp_all add: metric_count outcome_incs metric_def [symmetric])
  then show ?thesis
    by (simp add: refresh_once_defs split_beta refresh_outcome get_outcomes)
qed

text \<open>
  C23. A failed refresh keeps what is cached: when the upstream cannot be reached, or replies with
  anything but 304 or a valid 200, every cached record stays as it was, and a refresh never touches
  the records under other keys except by eviction.
\<close>

theorem refresh_keeps_records:
  assumes "cache_ok store_inv s" and "refresh_cached_record L l1_store_ops e key url r s = (s', calls)"
  defines "w \<equiv> (if is_negative_cacheable_status (source_status r) then None
                else refreshed_record L (sv_policy s) (env_now e) url r
                       (env_upstream e url (fst (sv_next_token e s)) (etag r)))"
  shows "(w = None \<longrightarrow> cache_view store_peek s' = cache_view store_peek s) \<and>
     (\<forall>k. k \<noteq> key \<longrightarrow> cache_view store_peek s' k \<in> {None, cache_view store_peek s k}) \<and>
     (\<forall>x. w = Some x \<longrightarrow> payload x = payload r \<or> lib_json_valid L (payload x))"
proof -
  have c: "sv_cache s' = written l1_store_ops (sv_cache s) key w"
    using refresh_cache [of L l1_store_ops e key url r s] assms(2) by (simp add: w_def)
  have valid: "payload x = payload r \<or> lib_json_valid L (payload x)" if "w = Some x" for x
    using that by (auto simp: w_def refreshed_record_def revalidated_record_def fresh_record_def
        split: if_splits upstream_result.splits sum.splits)
  show ?thesis
  proof (cases w)
    case None
    then have "cache_view store_peek s' = cache_view store_peek s"
      using c by (intro ext) (simp add: cache_view_def)
    with None show ?thesis by simp
  next
    case (Some x)
    have "cache_view store_peek s' k = cache_view store_peek (snd (set_to_cache l1_store_ops s key x)) k" for k
      using c Some by (simp add: set_cache cache_view_def)
    then have "cache_view store_peek s' k \<in> {None, if k = key then Some x else cache_view store_peek s k}" for k
      using svc.set_view(2) [OF assms(1), of key x k] by simp
    then have "cache_view store_peek s' k \<in> {None, cache_view store_peek s k}" if "k \<noteq> key" for k
      using that by (metis (full_types))
    then show ?thesis using Some valid by blast
  qed
qed

end
