(* ===== verification/Version_Witnesses.thy ===== *)
theory Version_Witnesses
  imports Version_Properties Key_Properties
begin

text \<open>A small concrete service and upstream, on which the properties of the service are exercised.\<close>

definition sample_net :: golib where
  "sample_net = sample_lib\<lparr>lib_parse :=
     (\<lambda>x. if x = ''u'' \<or> x = url_string (sample_url ''api.github.com'' ''/'' [])
          then Some (sample_url ''api.github.com'' ''/'' []) else None)\<rparr>"

definition sample_request :: "bool \<Rightarrow> request" where
  "sample_request force = \<lparr>raw_url = ''u'', client_ip = [], request_uri = [], force_refresh = force\<rparr>"

definition sample_reply :: "int \<Rightarrow> http_response" where
  "sample_reply code = \<lparr>resp_status_code = code, resp_status = ''x'', resp_header = (\<lambda>_. ''e''),
     resp_body = \<lparr>body_bytes = ''{}'', body_fails = None\<rparr>\<rparr>"

definition sample_env :: "time \<Rightarrow> int \<Rightarrow> env" where
  "sample_env now code = \<lparr>env_now = now, env_wall = now, env_token_clock = (\<lambda>_. now),
     env_cooldown_now = now, env_upstream = (\<lambda>_ _ _. Up_Resp (sample_reply code)), env_ctx_err = False\<rparr>"

definition sample_service :: "l1_store service" where
  "sample_service = fresh_service sample_net 100000 None None [] default_policy (Some new_metrics)"

definition sample_prepared :: prepared_request where
  "sample_prepared = service_prepare sample_net sample_service ''u''"

lemma sample_trim: "trim_space ''u'' = ''u''"
  by (rule trim_space_plain) (simp add: is_space_byte_def byte_def)

lemma sample_safe: "safe_url sample_net (sample_url ''api.github.com'' ''/'' [])"
proof -
  have "equal_fold sample_net ''https'' ''https''" by code_simp
  moreover have "url_port (sample_url ''api.github.com'' ''/'' []) = []" by code_simp
  ultimately show ?thesis by (simp add: safe_url_def sample_url_def)
qed

lemma sample_parse: "parse_https_url sample_net ''u'' = Inr (sample_url ''api.github.com'' ''/'' [])"
  using sample_safe by (simp add: parse_https_url_Inr sample_trim) (simp add: sample_net_def)

lemma sample_prepared_ok:
  "prep_err sample_prepared = None"
  "url_to_fetch sample_prepared = url_string (sample_url ''api.github.com'' ''/'' [])"
  by (simp_all add: sample_prepared_def service_prepare_def prepare_request_def sample_parse
      sample_service_def fresh_service_fields build_allowed_host_set_def is_allowed_host_def Let_def)

lemma sample_service_ok:
  "cache_ok store_inv sample_service" "prep_ok sample_net sample_service"
  "cache_view store_peek sample_service k = None"
  unfolding sample_service_def by (rule fresh_service_ok)+

lemma sample_lookup:
  "fst (handle_lookup sample_net l1_store_ops e (sample_request f) sample_service) =
     Inr (sample_prepared, empty_record, False)"
  using svc.lookup_result [OF sample_service_ok(1,2), of e "sample_request f"]
  by (simp add: sample_prepared_def [symmetric] sample_prepared_ok sample_service_ok sample_request_def)

lemma sample_policy: "sv_policy sample_service = default_policy"
  by (simp add: sample_service_def fresh_service_def set_metrics_def new_service_def default_policy_def)

abbreviation sample_key :: string where
  "sample_key \<equiv> prep_cache_key sample_prepared"

lemma sample_key_length: "length sample_key = 67" "sample_key \<noteq> []"
proof -
  have "sample_key = key_from_normalized_url sample_net
      (normalize_parsed_url sample_net (sample_url ''api.github.com'' ''/'' []))"
    by (simp add: sample_prepared_def service_prepare_def prepare_request_def sample_parse
        sample_service_def fresh_service_fields build_allowed_host_set_def is_allowed_host_def Let_def
        key_from_parsed_url_def) (simp add: sample_url_def)
  then show "length sample_key = 67"
    by (simp add: key_from_normalized_url_def cache_key_version_prefix_def length_hex_encode
        sample_net_def sample_lib_def)
  then show "sample_key \<noteq> []" by auto
qed

lemma sample_url_length: "length (url_to_fetch sample_prepared) < 100"
  unfolding sample_prepared_ok by code_simp

lemma sample_fits:
  "length (payload r) + length (etag r) < 1000 \<Longrightarrow> rec_url r = url_to_fetch sample_prepared \<Longrightarrow>
   cache_fits store_fits sample_service sample_key r"
  using sample_url_length sample_key_length(1)
  by (simp add: cache_fits_def sample_service_def fresh_service_fields store_fits_def
      estimate_entry_usage_def record_metadata_overhead_bytes_def new_cache_with_max_bytes_def)

lemma sample_body:
  "read_bounded_body (resp_body (sample_reply code)) (max_upstream_response_bytes (sv_policy sample_service)) =
     Inr ''{}''"
  by (simp add: sample_policy default_policy_def sample_reply_def read_bounded_body_def Let_def
      wrap64_def limited_read_all_def)

section \<open>Witnesses\<close>

lemma upstream_calls_confined_witness:
  "\<exists>raw u. lib_parse sample_net raw = Some u \<and> url_to_fetch sample_prepared = url_string u \<and>
     url_host u \<noteq> [] \<and> equal_fold sample_net (url_scheme u) ''https'' \<and> url_user u = None \<and>
     url_port u \<in> {[], ''443''} \<and>
     is_allowed_host sample_net (build_allowed_host_set sample_net []) (url_hostname u)"
proof -
  let ?e = "sample_env 100 200" and ?req = "sample_request False"
  obtain s1 where look: "handle_lookup sample_net l1_store_ops ?e ?req sample_service =
      (Inr (sample_prepared, empty_record, False), s1)"
    using sample_lookup [of ?e False] by (metis prod.collapse)
  let ?call = "(url_to_fetch sample_prepared, fst (sv_next_token ?e s1), [])"
  have sent: "fetch_send ?e sample_prepared empty_record False s1 =
      (?call, snd (fetch_send ?e sample_prepared empty_record False s1))"
    by (simp add: prod_eq_iff send_call conditional_candidate_def)
  have "service_run sample_net l1_store_ops (sample_service, []) (([] @ []) @ [?call])
      (snd (fetch_send ?e sample_prepared empty_record False s1),
       Fetch_Sent ?req sample_prepared empty_record False (fst (sv_next_token ?e s1)) #
         remove1 (Fetch ?req sample_prepared empty_record False) [Fetch ?req sample_prepared empty_record False])"
    by (rule sr_snoc [OF sr_snoc [OF sr_nil await [OF look]] service_step.send [OF _ sent]]) simp
  then show ?thesis
    unfolding sample_service_def
    by (intro upstream_calls_confined [of _ _ _ _ _ _ _ "[?call]"]) (auto intro: list.set_intros(1))
qed

lemma refreshes_exclusive_witness:
  "distinct (refreshing_keys [Refresh_Key ''k'']) \<and>
   fset (sv_refreshing (snd (refresh_start ''k'' sample_service))) = set (refreshing_keys [Refresh_Key ''k''])"
proof -
  have claim: "refresh_start ''k'' sample_service = (True, snd (refresh_start ''k'' sample_service))"
    by (simp add: refresh_start_def sample_service_def fresh_service_fields)
  have "service_run sample_net l1_store_ops (sample_service, []) ([] @ [])
      (snd (refresh_start ''k'' sample_service), [Refresh_Key ''k''])"
    by (rule sr_snoc [OF sr_nil claim_key [OF _ claim]]) simp
  then show ?thesis unfolding sample_service_def by (rule refreshes_exclusive)
qed

lemma lookup_decides_witness:
  "fst (handle_lookup sample_net l1_store_ops (sample_env 100 200) (sample_request True) sample_service) =
     Inr (sample_prepared, empty_record, False)"
  using lookup_decides [OF sample_service_ok(1,2), of "sample_env 100 200" "sample_request True"]
  by (simp add: sample_service_ok Let_def sample_request_def sample_prepared_ok
      service_prepare_def [symmetric] sample_prepared_def [symmetric] del: prod.collapse)

lemma bounded_body_exact_witness:
  "read_bounded_body \<lparr>body_bytes = ''abc'', body_fails = None\<rparr> 2 = Inl Response_Too_Large"
  using bounded_body_exact [of 2 "\<lparr>body_bytes = ''abc'', body_fails = None\<rparr>"]
  by (simp add: max_int64_def)

text \<open>The service with one record in its cache.\<close>

definition sample_record :: cache_record where
  "sample_record = fresh_record ''[]'' ''tag'' (url_to_fetch sample_prepared) 50 200 200"

definition sample_cached :: "l1_store service" where
  "sample_cached = snd (set_to_cache l1_store_ops sample_service sample_key sample_record)"

lemma sample_cached_ok:
  "cache_ok store_inv sample_cached" "prep_ok sample_net sample_cached"
  "cache_view store_peek sample_cached sample_key = Some sample_record"
  "sv_policy sample_cached = default_policy"
  "service_prepare sample_net sample_cached ''u'' = sample_prepared"
proof -
  have "cache_fits store_fits sample_service sample_key sample_record"
    by (rule sample_fits) (simp_all add: sample_record_def fresh_record_def)
  then show "cache_view store_peek sample_cached sample_key = Some sample_record"
    unfolding sample_cached_def by (rule svc.set_view(3) [OF sample_service_ok(1) sample_key_length(2)])
  show "cache_ok store_inv sample_cached"
    unfolding sample_cached_def by (rule svc.set_view(1) [OF sample_service_ok(1)])
  show "prep_ok sample_net sample_cached"
    using sample_service_ok(2) by (simp add: sample_cached_def prep_ok_def service_prepare_def frame_simps)
  show "sv_policy sample_cached = default_policy" by (simp add: sample_cached_def frame_simps sample_policy)
  show "service_prepare sample_net sample_cached ''u'' = sample_prepared"
    by (simp add: sample_cached_def sample_prepared_def service_prepare_def frame_simps)
qed

text \<open>A forced refresh while the stored record could still be served, which the upstream confirms.\<close>

lemma forced_refresh_calls_upstream_witness:
  "\<exists>reply s' token. handle sample_net l1_store_ops (sample_env 100 304) (sample_env 100 304) Leads
       (sample_request True) sample_cached = (reply, s', [(url_to_fetch sample_prepared, token, ''tag'')]) \<and>
     cache_status reply \<noteq> ''HIT''"
proof -
  obtain reply s' calls where h: "handle sample_net l1_store_ops (sample_env 100 304) (sample_env 100 304)
      Leads (sample_request True) sample_cached = (reply, s', calls)" by (metis prod.collapse)
  show ?thesis
    using forced_refresh_calls_upstream [OF sample_cached_ok(1,2) _ _ h] h
    by (auto simp: sample_request_def sample_cached_ok sample_prepared_ok sample_record_def fresh_record_def
        is_negative_cacheable_status_def)
qed

lemma hit_makes_no_call_witness:
  "\<exists>reply s'. handle sample_net l1_store_ops (sample_env 100 200) (sample_env 100 200) Leads
       (sample_request False) sample_cached = (reply, s', []) \<and>
     resp_content reply = Raw_Body ''[]'' \<and> cache_status reply = ''HIT''"
proof -
  obtain reply s' calls where h: "handle sample_net l1_store_ops (sample_env 100 200) (sample_env 100 200)
      Leads (sample_request False) sample_cached = (reply, s', calls)" by (metis prod.collapse)
  show ?thesis
    using hit_makes_no_call [OF sample_cached_ok(1,2) _ _ _ _ h, of sample_record] h
    by (simp add: sample_request_def sample_cached_ok sample_prepared_ok sample_env_def sample_record_def
        fresh_record_def servable_def is_negative_cacheable_status_def is_hard_expired_def default_policy_def)
qed

lemma fetch_write_policy_witness:
  "cache_view store_peek (fst (snd (handle_fetch sample_net l1_store_ops (sample_env 100 500)
       (sample_request False) (sample_prepared, sample_record, True) sample_cached))) sample_key =
     Some sample_record"
proof -
  obtain reply s' calls where h: "handle_fetch sample_net l1_store_ops (sample_env 100 500)
      (sample_request False) (sample_prepared, sample_record, True) sample_cached = (reply, s', calls)"
    by (metis prod.collapse)
  show ?thesis
    using fetch_write_policy [OF sample_cached_ok(1) h] h
    by (simp add: sample_env_def sample_reply_def written_record_def is_negative_cacheable_status_def
        sample_cached_ok)
qed

lemma fetch_then_hit_witness:
  "\<exists>s2. fst (handle_lookup sample_net l1_store_ops (sample_env 200 500) (sample_request False) s2) =
     Inl \<lparr>status_code = 200, resp_content = Raw_Body ''{}'', cache_status = ''HIT'',
          cache_key = sample_key, upstream_status = 0\<rparr>"
proof -
  let ?e = "sample_env 100 200" and ?req = "sample_request False"
  obtain s1 where look: "handle_lookup sample_net l1_store_ops ?e ?req sample_service =
      (Inr (sample_prepared, empty_record, False), s1)"
    using sample_lookup [of ?e False] by (metis prod.collapse)
  obtain reply s2 calls where fetch: "handle_fetch sample_net l1_store_ops ?e ?req
      (sample_prepared, empty_record, False) s1 = (reply, s2, calls)" by (metis prod.collapse)
  have fits: "cache_fits store_fits sample_service sample_key
      (fresh_record ''{}'' ''e'' (url_to_fetch sample_prepared) t x 200)" for t x
    by (rule sample_fits) (simp_all add: fresh_record_def)
  show ?thesis
    using fetch_then_hit [OF sample_service_ok(1,2) _ look fetch, of "sample_reply 200" "''{}''"
        "sample_env 200 500" "sample_request False"] sample_body [of 200] fits
    by (auto simp: sample_env_def sample_reply_def sample_policy default_policy_def sample_net_def
        sample_lib_def sample_request_def)
qed

lemma revalidation_keeps_payload_witness:
  "\<exists>reply s' calls. handle sample_net l1_store_ops (sample_env 250 304) (sample_env 300 304) Leads
       (sample_request False) sample_cached = (reply, s', calls) \<and>
     resp_content reply = Raw_Body ''[]'' \<and> cache_status reply = ''REVALIDATED'' \<and>
     map_option last_checked_at (cache_view store_peek s' sample_key) = Some 300"
proof -
  obtain reply s' calls where h: "handle sample_net l1_store_ops (sample_env 250 304) (sample_env 300 304)
      Leads (sample_request False) sample_cached = (reply, s', calls)" by (metis prod.collapse)
  have "cache_fits store_fits sample_cached sample_key r = cache_fits store_fits sample_service sample_key r" for r
    by (simp add: sample_cached_def cache_fits_def set_cache written_def l1_store_ops_def
        sample_service_def fresh_service_fields store_set_peek(3) store_inv_def new_cache_inv)
  then have fits: "cache_fits store_fits sample_cached sample_key
      (sample_record\<lparr>last_checked_at := t, expires_at := x, rec_url := url_to_fetch sample_prepared\<rparr>)" for t x
    using sample_fits by (simp add: sample_record_def fresh_record_def)
  have prep: "service_prepare sample_net sample_cached (raw_url (sample_request False)) = sample_prepared"
    by (simp add: sample_request_def sample_cached_ok)
  have rec: "etag sample_record \<noteq> []" "\<not> is_negative_cacheable_status (source_status sample_record)"
    "is_hard_expired sample_record 250 (hard_ttl (sv_policy sample_cached))" "payload sample_record = ''[]''"
    by (simp_all add: sample_record_def fresh_record_def is_negative_cacheable_status_def
        is_hard_expired_def sample_cached_ok default_policy_def)
  show ?thesis
    using revalidation_keeps_payload [OF sample_cached_ok(1,2) _ _ rec(1,2) _ _ h, unfolded prep] h rec(3,4) fits
    by (simp add: sample_env_def sample_reply_def sample_prepared_ok sample_cached_ok)
qed

lemma request_counters_witness:
  "\<exists>reply s' calls. handle_direct sample_net l1_store_ops (sample_env 100 200) (sample_request True)
       sample_service = (reply, s', calls) \<and> length calls = 1 \<and>
     metric cache_misses s' = map_option (\<lambda>n. n + 1) (metric cache_misses sample_service)"
proof -
  obtain reply s' calls where h: "handle_direct sample_net l1_store_ops (sample_env 100 200)
      (sample_request True) sample_service = (reply, s', calls)" by (metis prod.collapse)
  obtain s1 where look: "handle_lookup sample_net l1_store_ops (sample_env 100 200) (sample_request True)
      sample_service = (Inr (sample_prepared, empty_record, False), s1)"
    using sample_lookup [of "sample_env 100 200" True] by (metis prod.collapse)
  have "cache_status reply \<noteq> ''HIT''"
    using h look fetch_not_hit [of sample_net l1_store_ops "sample_env 100 200" "sample_request True"
        "(sample_prepared, empty_record, False)" s1] by (simp add: handle_direct_def)
  then show ?thesis
    using request_counters [OF sample_service_ok(1,2) h] h sample_prepared_ok(1)
    by (simp add: sample_request_def sample_prepared_def [symmetric])
qed

lemma refresh_keeps_records_witness:
  "cache_view store_peek (fst (refresh_cached_record sample_net l1_store_ops (sample_env 100 500) sample_key
       ''x'' sample_record sample_cached)) sample_key = Some sample_record"
proof -
  obtain s' calls where h: "refresh_cached_record sample_net l1_store_ops (sample_env 100 500) sample_key
      ''x'' sample_record sample_cached = (s', calls)" by (metis prod.collapse)
  show ?thesis
    using refresh_keeps_records [OF sample_cached_ok(1) h] h
    by (simp add: sample_env_def sample_reply_def refreshed_record_def sample_cached_ok)
qed

end
