(* ===== verification/Single_Flight.thy ===== *)
theory Single_Flight
  imports Version_Service
begin

text \<open>
  \<open>foregroundRequestGroup\<close> of \<open>service.go\<close>: concurrent requests for one key share one run of the
  handler. The state is the group's map with the calls it points to (a call is an address, the
  position in \<open>fg_calls\<close>) and the callers that wait. Sections under the group's lock are atomic steps;
  the goroutine of a call first writes the response and then, under the lock, removes the call from
  the map and closes its channel.
\<close>

section \<open>State\<close>

datatype call_phase = Running | Responded | Closed

text \<open>\<open>fc_response\<close> is \<open>None\<close> while the field still holds the zero \<open>Response\<close>.\<close>

record foreground_call =
  fc_key :: string
  fc_phase :: call_phase
  fc_response :: "response option"

record foreground_group =
  fg_in_flight :: "(string, nat) fmap"
  fg_calls :: "foreground_call list"
  fg_waiting :: "(nat, nat) fmap"

definition new_foreground_request_group :: foreground_group where
  "new_foreground_request_group = \<lparr>fg_in_flight = fmempty, fg_calls = [], fg_waiting = fmempty\<rparr>"

section \<open>The parts of \<open>Do\<close>\<close>

text \<open>The section under the lock: the call to wait for, and whether the caller started it.\<close>

definition fg_join :: "nat \<Rightarrow> string \<Rightarrow> foreground_group \<Rightarrow> (nat \<times> bool) \<times> foreground_group" where
  "fg_join caller key g =
     (case fmlookup (fg_in_flight g) key of
        Some i \<Rightarrow> ((i, False), g\<lparr>fg_waiting := fmupd caller i (fg_waiting g)\<rparr>)
      | None \<Rightarrow>
          (let i = length (fg_calls g)
           in ((i, True),
               g\<lparr>fg_calls := fg_calls g @ [\<lparr>fc_key = key, fc_phase = Running, fc_response = None\<rparr>],
                 fg_in_flight := fmupd key i (fg_in_flight g),
                 fg_waiting := fmupd caller i (fg_waiting g)\<rparr>)))"

text \<open>The goroutine: the result of the handler is stored, then the call ends.\<close>

definition fg_respond :: "nat \<Rightarrow> response \<Rightarrow> foreground_group \<Rightarrow> foreground_group" where
  "fg_respond i r g =
     g\<lparr>fg_calls := (fg_calls g)[i := (fg_calls g ! i)\<lparr>fc_phase := Responded, fc_response := Some r\<rparr>]\<rparr>"

definition fg_finish :: "nat \<Rightarrow> foreground_group \<Rightarrow> foreground_group" where
  "fg_finish i g =
     g\<lparr>fg_in_flight := fmdrop (fc_key (fg_calls g ! i)) (fg_in_flight g),
       fg_calls := (fg_calls g)[i := (fg_calls g ! i)\<lparr>fc_phase := Closed\<rparr>]\<rparr>"

text \<open>The final \<open>select\<close> of the caller.\<close>

definition fg_leave :: "nat \<Rightarrow> foreground_group \<Rightarrow> foreground_group" where
  "fg_leave caller g = g\<lparr>fg_waiting := fmdrop caller (fg_waiting g)\<rparr>"

section \<open>Interleavings\<close>

datatype flight_event =
    FJoin nat string nat bool
  | FRespond nat response
  | FFinish nat
  | FReturn nat nat "response option"
  | FCancel nat

inductive fg_step :: "foreground_group \<Rightarrow> flight_event \<Rightarrow> foreground_group \<Rightarrow> bool" where
  join: "fmlookup (fg_waiting g) caller = None \<Longrightarrow> fg_join caller key g = ((i, leader), g') \<Longrightarrow>
    fg_step g (FJoin caller key i leader) g'"
| respond: "i < length (fg_calls g) \<Longrightarrow> fc_phase (fg_calls g ! i) = Running \<Longrightarrow>
    fg_step g (FRespond i r) (fg_respond i r g)"
| finish: "i < length (fg_calls g) \<Longrightarrow> fc_phase (fg_calls g ! i) = Responded \<Longrightarrow>
    fg_step g (FFinish i) (fg_finish i g)"
| give: "fmlookup (fg_waiting g) caller = Some i \<Longrightarrow> fc_phase (fg_calls g ! i) = Closed \<Longrightarrow>
    fg_step g (FReturn caller i (fc_response (fg_calls g ! i))) (fg_leave caller g)"
| cancel: "fmlookup (fg_waiting g) caller = Some i \<Longrightarrow> fg_step g (FCancel caller) (fg_leave caller g)"

inductive fg_run :: "foreground_group \<Rightarrow> flight_event list \<Rightarrow> foreground_group \<Rightarrow> bool" where
  fg_nil: "fg_run g [] g"
| fg_snoc: "fg_run g es g' \<Longrightarrow> fg_step g' e g'' \<Longrightarrow> fg_run g (es @ [e]) g''"

section \<open>Invariant\<close>

text \<open>
  The map holds exactly the calls that have not ended, each under its key; a response is present once
  the handler has returned; a waiter's call exists.
\<close>

definition fg_open :: "foreground_group \<Rightarrow> string \<Rightarrow> nat \<Rightarrow> bool" where
  "fg_open g k i \<longleftrightarrow>
     i < length (fg_calls g) \<and> fc_key (fg_calls g ! i) = k \<and> fc_phase (fg_calls g ! i) \<noteq> Closed"

definition fg_inv :: "foreground_group \<Rightarrow> bool" where
  "fg_inv g \<longleftrightarrow>
     (\<forall>k i. fmlookup (fg_in_flight g) k = Some i \<longleftrightarrow> fg_open g k i) \<and>
     (\<forall>c \<in> set (fg_calls g). fc_response c = None \<longleftrightarrow> fc_phase c = Running) \<and>
     (\<forall>c i. fmlookup (fg_waiting g) c = Some i \<longrightarrow> i < length (fg_calls g))"

lemma fg_inv_new: "fg_inv new_foreground_request_group"
  by (simp add: fg_inv_def fg_open_def new_foreground_request_group_def)

lemma fg_open_unique: "fg_inv g \<Longrightarrow> fg_open g k i \<Longrightarrow> fg_open g k j \<Longrightarrow> i = j"
  unfolding fg_inv_def by (metis option.inject)

lemma fg_open_join:
  "fg_open (snd (fg_join caller key g)) k i \<longleftrightarrow>
     fg_open g k i \<or> (fmlookup (fg_in_flight g) key = None \<and> k = key \<and> i = length (fg_calls g))"
  by (auto simp: fg_open_def fg_join_def Let_def nth_append less_Suc_eq split: option.splits)

lemma fg_open_respond:
  "i < length (fg_calls g) \<Longrightarrow> fc_phase (fg_calls g ! i) = Running \<Longrightarrow>
   fg_open (fg_respond i r g) k j \<longleftrightarrow> fg_open g k j"
  by (auto simp: fg_open_def fg_respond_def nth_list_update)

lemma fg_open_finish:
  "i < length (fg_calls g) \<Longrightarrow> fg_open (fg_finish i g) k j \<longleftrightarrow> fg_open g k j \<and> j \<noteq> i"
  by (auto simp: fg_open_def fg_finish_def nth_list_update)

lemma fg_join_inv:
  assumes inv: "fg_inv g"
  shows "fg_inv (snd (fg_join caller key g))"
proof -
  let ?h = "snd (fg_join caller key g)"
  have "fmlookup (fg_in_flight ?h) k = Some i \<longleftrightarrow> fg_open ?h k i" for k i
  proof (cases "fmlookup (fg_in_flight g) key")
    case None
    then have "\<not> fg_open g key j" for j using inv by (metis fg_inv_def option.distinct(1))
    then show ?thesis
      using None inv unfolding fg_open_join by (auto simp: fg_inv_def fg_join_def Let_def)
  next
    case (Some j)
    moreover have "snd (fg_join caller key g) = g\<lparr>fg_waiting := fmupd caller j (fg_waiting g)\<rparr>"
      using Some by (simp add: fg_join_def)
    ultimately show ?thesis using inv unfolding fg_open_join by (simp add: Some fg_inv_def)
  qed
  moreover have "\<forall>c \<in> set (fg_calls ?h). fc_response c = None \<longleftrightarrow> fc_phase c = Running"
    using inv by (auto simp: fg_inv_def fg_join_def Let_def split: option.splits)
  moreover have old: "j < length (fg_calls g)" if "fmlookup (fg_in_flight g) key = Some j" for j
    using inv that by (simp add: fg_inv_def fg_open_def)
  have wait: "fmlookup (fg_waiting g) c = Some j \<Longrightarrow> j < length (fg_calls g)" for c j
    using inv by (simp add: fg_inv_def)
  have "i < length (fg_calls ?h)" if "fmlookup (fg_waiting ?h) c = Some i" for c i
    using that old wait [of c i]
    by (cases "fmlookup (fg_in_flight g) key") (auto simp: fg_join_def Let_def split: if_splits)
  ultimately show ?thesis by (simp add: fg_inv_def)
qed

lemma fg_respond_inv:
  assumes "fg_inv g" and "i < length (fg_calls g)" and "fc_phase (fg_calls g ! i) = Running"
  shows "fg_inv (fg_respond i r g)"
proof -
  have "\<forall>c \<in> set (fg_calls (fg_respond i r g)). fc_response c = None \<longleftrightarrow> fc_phase c = Running"
    using assms(1) set_update_subset_insert [of "fg_calls g" i]
    by (fastforce simp: fg_inv_def fg_respond_def)
  with assms show ?thesis
    by (simp add: fg_inv_def fg_open_respond) (simp add: fg_respond_def)
qed

lemma fg_finish_inv:
  assumes inv: "fg_inv g" and i: "i < length (fg_calls g)" "fc_phase (fg_calls g ! i) = Responded"
  shows "fg_inv (fg_finish i g)"
proof -
  let ?k = "fc_key (fg_calls g ! i)"
  have own: "fg_open g ?k i" using i by (simp add: fg_open_def)
  have "fmlookup (fg_in_flight (fg_finish i g)) k = Some j \<longleftrightarrow> fg_open (fg_finish i g) k j" for k j
  proof (cases "k = ?k")
    case True
    then have "\<not> (fg_open g k j \<and> j \<noteq> i)" using fg_open_unique [OF inv own] by blast
    then show ?thesis using True i by (simp add: fg_open_finish) (simp add: fg_finish_def)
  next
    case False
    then have "fg_open g k j \<Longrightarrow> j \<noteq> i" by (auto simp: fg_open_def)
    then show ?thesis using False i inv by (auto simp: fg_open_finish) (auto simp: fg_finish_def fg_inv_def)
  qed
  moreover have "fc_response (fg_calls g ! i) \<noteq> None"
    using inv i nth_mem [OF i(1)] by (auto simp: fg_inv_def)
  then have "\<forall>c \<in> set (fg_calls (fg_finish i g)). fc_response c = None \<longleftrightarrow> fc_phase c = Running"
    using inv set_update_subset_insert [of "fg_calls g" i] by (fastforce simp: fg_inv_def fg_finish_def)
  moreover have "\<forall>c j. fmlookup (fg_waiting (fg_finish i g)) c = Some j \<longrightarrow> j < length (fg_calls (fg_finish i g))"
    using inv by (simp add: fg_inv_def fg_finish_def)
  ultimately show ?thesis by (simp add: fg_inv_def)
qed

lemma fg_leave_inv: "fg_inv g \<Longrightarrow> fg_inv (fg_leave c g)"
  by (auto simp: fg_inv_def fg_open_def fg_leave_def split: if_splits)

lemma fg_step_inv: "fg_step g e g' \<Longrightarrow> fg_inv g \<Longrightarrow> fg_inv g'"
proof (induction rule: fg_step.induct)
  case (join g caller key i leader g')
  then show ?case using fg_join_inv [of g caller key] by simp
qed (simp_all add: fg_respond_inv fg_finish_inv fg_leave_inv)

lemma fg_run_inv: "fg_run g es g' \<Longrightarrow> fg_inv g \<Longrightarrow> fg_inv g'"
  by (induction rule: fg_run.induct) (auto dest: fg_step_inv)

section \<open>What callers are given\<close>

definition responses :: "nat \<Rightarrow> flight_event list \<Rightarrow> response list" where
  "responses i es = concat (map (\<lambda>e. case e of FRespond j r \<Rightarrow> if j = i then [r] else [] | _ \<Rightarrow> []) es)"

definition leaders :: "nat \<Rightarrow> flight_event list \<Rightarrow> nat list" where
  "leaders i es =
     concat (map (\<lambda>e. case e of FJoin c k j l \<Rightarrow> if j = i \<and> l then [c] else [] | _ \<Rightarrow> []) es)"

lemma responses_append [simp]: "responses i (es @ fs) = responses i es @ responses i fs"
  and leaders_append [simp]: "leaders i (es @ fs) = leaders i es @ leaders i fs"
  and responses_nil [simp]: "responses i [] = []"
  and leaders_nil [simp]: "leaders i [] = []"
  by (simp_all add: responses_def leaders_def)

lemma responses_single [simp]:
  "responses i [FJoin c k j l] = []" "responses i [FRespond j r] = (if j = i then [r] else [])"
  "responses i [FFinish j] = []" "responses i [FReturn c j v] = []" "responses i [FCancel c] = []"
  and leaders_single [simp]:
  "leaders i [FJoin c k j l] = (if j = i \<and> l then [c] else [])" "leaders i [FRespond j r] = []"
  "leaders i [FFinish j] = []" "leaders i [FReturn c j v] = []" "leaders i [FCancel c] = []"
  by (simp_all add: responses_def leaders_def)

text \<open>What a run has done up to a state, per call and per caller.\<close>

definition fg_traced :: "flight_event list \<Rightarrow> foreground_group \<Rightarrow> bool" where
  "fg_traced es g \<longleftrightarrow>
     (\<forall>i. responses i es = (if i < length (fg_calls g)
            then (case fc_response (fg_calls g ! i) of None \<Rightarrow> [] | Some r \<Rightarrow> [r]) else [])) \<and>
     (\<forall>i. length (leaders i es) = (if i < length (fg_calls g) then 1 else 0)) \<and>
     (\<forall>c i. fmlookup (fg_waiting g) c = Some i \<longrightarrow>
        (\<exists>l. FJoin c (fc_key (fg_calls g ! i)) i l \<in> set es)) \<and>
     (\<forall>c i v. FReturn c i v \<in> set es \<longrightarrow>
        i < length (fg_calls g) \<and> v = fc_response (fg_calls g ! i) \<and> v \<noteq> None \<and>
        (\<exists>l. FJoin c (fc_key (fg_calls g ! i)) i l \<in> set es))"

lemma fg_traced_join:
  assumes "fg_inv g" and tr: "fg_traced es g" and j: "fg_join caller key g = ((i, l), g')"
  shows "fg_traced (es @ [FJoin caller key i l]) g'"
proof (cases "fmlookup (fg_in_flight g) key")
  case None
  then have "i = length (fg_calls g)" "l"
    "g' = g\<lparr>fg_calls := fg_calls g @ [\<lparr>fc_key = key, fc_phase = Running, fc_response = None\<rparr>],
            fg_in_flight := fmupd key i (fg_in_flight g), fg_waiting := fmupd caller i (fg_waiting g)\<rparr>"
    using j by (auto simp: fg_join_def Let_def)
  with tr assms(1) show ?thesis
    by (fastforce simp: fg_traced_def fg_inv_def nth_append less_Suc_eq)
next
  case (Some k)
  then have "fg_open g key i" "\<not> l" "g' = g\<lparr>fg_waiting := fmupd caller i (fg_waiting g)\<rparr>"
    using j assms(1) by (auto simp: fg_join_def fg_inv_def)
  with tr show ?thesis by (fastforce simp: fg_traced_def fg_open_def)
qed

lemma fg_traced_step:
  assumes "fg_step g e g'" and "fg_inv g" and "fg_traced es g"
  shows "fg_traced (es @ [e]) g'"
  using assms
proof (induction rule: fg_step.induct)
  case (join g caller key i leader g')
  then show ?case by (intro fg_traced_join)
next
  case (respond i g r)
  have old: "fc_response (fg_calls g ! i) = None"
    using respond nth_mem [of i "fg_calls g"] by (auto simp: fg_inv_def)
  have "i \<noteq> j" if "FReturn c j v \<in> set es" for c j v
    using that respond.prems(2) old unfolding fg_traced_def by metis
  with respond old show ?case
    by (fastforce simp: fg_traced_def fg_respond_def nth_list_update)
next
  case (finish i g)
  then show ?case by (fastforce simp: fg_traced_def fg_finish_def nth_list_update)
next
  case (give g caller i)
  have "i < length (fg_calls g)" using give by (auto simp: fg_inv_def)
  then have "fc_response (fg_calls g ! i) \<noteq> None"
    using give nth_mem [of i "fg_calls g"] by (auto simp: fg_inv_def)
  with give \<open>i < length (fg_calls g)\<close> show ?case by (fastforce simp: fg_traced_def fg_leave_def split: if_splits)
next
  case (cancel g caller i)
  then show ?case by (fastforce simp: fg_traced_def fg_leave_def split: if_splits)
qed

lemma fg_run_traced:
  assumes "fg_run new_foreground_request_group es g"
  shows "fg_inv g \<and> fg_traced es g"
proof -
  have "fg_run g0 es g \<Longrightarrow> g0 = new_foreground_request_group \<Longrightarrow> fg_inv g \<and> fg_traced es g" for g0
  proof (induction rule: fg_run.induct)
    case (fg_nil g)
    then show ?case using fg_inv_new by (simp add: fg_traced_def new_foreground_request_group_def)
  next
    case (fg_snoc g es g' e g'')
    then show ?case using fg_step_inv fg_traced_step by blast
  qed
  then show ?thesis using assms by blast
qed

section \<open>Progress of a call\<close>

text \<open>The steps the goroutine of a call still has to take, and the events that are its steps.\<close>

definition flight_steps_left :: "foreground_group \<Rightarrow> nat \<Rightarrow> nat" where
  "flight_steps_left g i =
     (case fc_phase (fg_calls g ! i) of Running \<Rightarrow> 2 | Responded \<Rightarrow> 1 | Closed \<Rightarrow> 0)"

fun goroutine_step :: "nat \<Rightarrow> flight_event \<Rightarrow> bool" where
  "goroutine_step i (FRespond j r) \<longleftrightarrow> j = i"
| "goroutine_step i (FFinish j) \<longleftrightarrow> j = i"
| "goroutine_step i _ \<longleftrightarrow> False"

lemma fg_step_left:
  assumes "fg_step g e h" and "fg_inv g" and "i < length (fg_calls g)"
  shows "flight_steps_left g i = flight_steps_left h i + (if goroutine_step i e then 1 else 0)"
  using assms
proof (induction rule: fg_step.induct)
  case (join g caller key j leader g')
  then show ?case
    by (auto simp: flight_steps_left_def fg_join_def Let_def nth_append split: option.splits)
qed (auto simp: flight_steps_left_def fg_respond_def fg_finish_def fg_leave_def nth_list_update)

lemma fg_given_response:
  assumes "fg_inv g" and "i < length (fg_calls g)" and "fc_phase (fg_calls g ! i) \<noteq> Running"
  obtains v where "fc_response (fg_calls g ! i) = Some v"
  using assms nth_mem [of i "fg_calls g"] by (auto simp: fg_inv_def)

lemma fg_step_waiting:
  assumes "fg_step g e h" and "fg_inv g" and "fmlookup (fg_waiting g) c = Some i"
  shows "fmlookup (fg_waiting h) c = Some i \<or> e = FCancel c \<or> (\<exists>v. e = FReturn c i (Some v))"
  using assms
proof (induction rule: fg_step.induct)
  case (join g caller key j leader g')
  then show ?case by (auto simp: fg_join_def Let_def split: option.splits if_splits)
next
  case (give g caller j)
  have "j < length (fg_calls g)" using give by (simp add: fg_inv_def)
  then obtain v where "fc_response (fg_calls g ! j) = Some v"
    using fg_given_response [of g j] give by auto
  then show ?case using give by (auto simp: fg_leave_def)
qed (simp_all add: fg_respond_def fg_finish_def fg_leave_def)

lemma fg_run_cons:
  assumes "fg_step g e g'" and "fg_run g' es h"
  shows "fg_run g (e # es) h"
  using assms(2,1)
proof (induction rule: fg_run.induct)
  case (fg_nil g')
  then show ?case using fg_run.fg_snoc [OF fg_run.fg_nil, of g e g'] by simp
next
  case (fg_snoc g1 es g2 e2 g3)
  then show ?case using fg_run.fg_snoc [of g "e # es" g2 e2 g3] by simp
qed

text \<open>A closed call serves its waiter; a responded one closes first; a running one responds before.\<close>

lemma fg_run_closed:
  assumes "fmlookup (fg_waiting g) c = Some i" and "fc_phase (fg_calls g ! i) = Closed"
    and "fc_response (fg_calls g ! i) = Some v"
  shows "\<exists>h. fg_run g [FReturn c i (Some v)] h \<and> fmlookup (fg_waiting h) c = None"
  using fg_run_cons [OF fg_step.give [OF assms(1,2)] fg_run.fg_nil] assms(3)
  by (auto simp: fg_leave_def)

lemma fg_run_responded:
  assumes "i < length (fg_calls g)" and "fmlookup (fg_waiting g) c = Some i"
    and "fc_phase (fg_calls g ! i) = Responded" and "fc_response (fg_calls g ! i) = Some v"
  shows "\<exists>h. fg_run g [FFinish i, FReturn c i (Some v)] h \<and> fmlookup (fg_waiting h) c = None"
proof -
  have "\<exists>h. fg_run (fg_finish i g) [FReturn c i (Some v)] h \<and> fmlookup (fg_waiting h) c = None"
    by (rule fg_run_closed) (simp_all add: fg_finish_def assms)
  then show ?thesis using fg_run_cons [OF fg_step.finish [OF assms(1,3)]] by blast
qed

lemma fg_run_running:
  assumes "i < length (fg_calls g)" and "fmlookup (fg_waiting g) c = Some i"
    and "fc_phase (fg_calls g ! i) = Running"
  shows "\<exists>h. fg_run g [FRespond i r, FFinish i, FReturn c i (Some r)] h \<and>
     fmlookup (fg_waiting h) c = None"
proof -
  have "\<exists>h. fg_run (fg_respond i r g) [FFinish i, FReturn c i (Some r)] h \<and>
      fmlookup (fg_waiting h) c = None"
    by (rule fg_run_responded) (simp_all add: fg_respond_def assms)
  then show ?thesis using fg_run_cons [OF fg_step.respond [OF assms(1,3)]] by blast
qed

lemma fg_run_served:
  assumes inv: "fg_inv g" and i: "i < length (fg_calls g)" and w: "fmlookup (fg_waiting g) c = Some i"
  shows "\<exists>h. fg_run g ((case fc_phase (fg_calls g ! i) of
             Running \<Rightarrow> [FRespond i r, FFinish i] | Responded \<Rightarrow> [FFinish i] | Closed \<Rightarrow> []) @
           [FReturn c i (Some (case fc_response (fg_calls g ! i) of None \<Rightarrow> r | Some r' \<Rightarrow> r'))]) h \<and>
     fmlookup (fg_waiting h) c = None"
proof (cases "fc_phase (fg_calls g ! i)")
  case Running
  then have "fc_response (fg_calls g ! i) = None"
    using inv nth_mem [OF i] by (auto simp: fg_inv_def)
  then show ?thesis using Running fg_run_running [OF i w Running] by simp
next
  case Responded
  then obtain v where "fc_response (fg_calls g ! i) = Some v"
    using fg_given_response [OF inv i] by auto
  then show ?thesis using Responded fg_run_responded [OF i w Responded] by simp
next
  case Closed
  then obtain v where "fc_response (fg_calls g ! i) = Some v"
    using fg_given_response [OF inv i] by auto
  then show ?thesis using Closed fg_run_closed [OF w Closed] by simp
qed

section \<open>Properties\<close>

text \<open>
  C15. At most one handler runs per key: in every reachable state of the request group any two calls
  under one key of which neither has ended are the same call.
\<close>

theorem flights_exclusive:
  assumes "fg_run new_foreground_request_group es g"
    and "i < length (fg_calls g)" and "j < length (fg_calls g)"
    and "fc_key (fg_calls g ! i) = fc_key (fg_calls g ! j)"
    and "fc_phase (fg_calls g ! i) \<noteq> Closed" and "fc_phase (fg_calls g ! j) \<noteq> Closed"
  shows "i = j"
proof (rule fg_open_unique)
  show "fg_inv g" using fg_run_traced [OF assms(1)] by simp
  show "fg_open g (fc_key (fg_calls g ! i)) i" "fg_open g (fc_key (fg_calls g ! i)) j"
    using assms by (simp_all add: fg_open_def)
qed

text \<open>
  C7. Callers share one result: a caller that is given a response joined that call under its own key,
  exactly one caller started the call, and the response is the only one its handler produced; no
  caller ever sees a response that was not written yet.
\<close>

theorem flights_agree:
  assumes "fg_run new_foreground_request_group es g" and "FReturn c i v \<in> set es"
  shows "\<exists>r l. v = Some r \<and> responses i es = [r] \<and> FJoin c (fc_key (fg_calls g ! i)) i l \<in> set es \<and>
     length (leaders i es) = 1"
proof -
  have "fg_traced es g" using fg_run_traced [OF assms(1)] by simp
  then have "i < length (fg_calls g)" "v = fc_response (fg_calls g ! i)" "v \<noteq> None"
    "\<exists>l. FJoin c (fc_key (fg_calls g ! i)) i l \<in> set es"
    "responses i es = (if i < length (fg_calls g)
       then (case fc_response (fg_calls g ! i) of None \<Rightarrow> [] | Some r \<Rightarrow> [r]) else [])"
    "length (leaders i es) = (if i < length (fg_calls g) then 1 else 0)"
    using assms(2) unfolding fg_traced_def by blast+
  then show ?thesis by auto
qed

text \<open>
  C16. No caller is stuck: in every reachable state, whatever call a caller waits for, the goroutine of
  that call has at most two steps left (the handler returns, the call closes) and carrying out just
  these gives the caller its response: the one already stored, or else the one \<open>r\<close> the handler returns.
  No step of anyone else delays it: every step of the group leaves the caller waiting for the same call
  unless it is the caller's own return or cancellation, and takes the call no step back; each step of
  the call's goroutine takes it exactly one step further. That the handler returns at all is not part of
  the group: it is the step \<open>FRespond\<close>.
\<close>

theorem flights_progress:
  assumes "fg_run new_foreground_request_group es g" and "fmlookup (fg_waiting g) c = Some i"
  shows "(\<exists>h. fg_run g ((case fc_phase (fg_calls g ! i) of
             Running \<Rightarrow> [FRespond i r, FFinish i] | Responded \<Rightarrow> [FFinish i] | Closed \<Rightarrow> []) @
           [FReturn c i (Some (case fc_response (fg_calls g ! i) of None \<Rightarrow> r | Some r' \<Rightarrow> r'))]) h \<and>
         fmlookup (fg_waiting h) c = None) \<and>
     (\<forall>e h. fg_step g e h \<longrightarrow>
        flight_steps_left g i = flight_steps_left h i + (if goroutine_step i e then 1 else 0) \<and>
        (fmlookup (fg_waiting h) c = Some i \<or> e = FCancel c \<or> (\<exists>v. e = FReturn c i (Some v))))"
proof (intro conjI allI impI)
  have inv: "fg_inv g" using fg_run_traced [OF assms(1)] by simp
  then have i: "i < length (fg_calls g)" using assms(2) by (simp add: fg_inv_def)
  show "\<exists>h. fg_run g ((case fc_phase (fg_calls g ! i) of
             Running \<Rightarrow> [FRespond i r, FFinish i] | Responded \<Rightarrow> [FFinish i] | Closed \<Rightarrow> []) @
           [FReturn c i (Some (case fc_response (fg_calls g ! i) of None \<Rightarrow> r | Some r' \<Rightarrow> r'))]) h \<and>
         fmlookup (fg_waiting h) c = None"
    using fg_run_served [OF inv i assms(2)] by blast
  fix e h assume step: "fg_step g e h"
  show "flight_steps_left g i = flight_steps_left h i + (if goroutine_step i e then 1 else 0)"
    using fg_step_left [OF step inv i] .
  show "fmlookup (fg_waiting h) c = Some i \<or> e = FCancel c \<or> (\<exists>v. e = FReturn c i (Some v))"
    using fg_step_waiting [OF step inv assms(2)] .
qed

section \<open>Witnesses\<close>

definition sample_response :: response where
  "sample_response = \<lparr>status_code = 200, resp_content = Raw_Body ''x'', cache_status = ''MISS'',
     cache_key = ''k'', upstream_status = 200\<rparr>"

definition joined :: foreground_group where
  "joined = snd (fg_join 7 ''k'' new_foreground_request_group)"

definition ended :: foreground_group where
  "ended = fg_finish 0 (fg_respond 0 sample_response joined)"

lemma joined_run: "fg_run new_foreground_request_group [FJoin 7 ''k'' 0 True] joined"
  using fg_snoc [OF fg_nil fg_step.join [of new_foreground_request_group 7 "''k''" 0 True joined]]
  by (simp add: joined_def fg_join_def new_foreground_request_group_def)

lemma ended_run:
  "fg_run new_foreground_request_group
     [FJoin 7 ''k'' 0 True, FRespond 0 sample_response, FFinish 0, FReturn 7 0 (Some sample_response)]
     (fg_leave 7 ended)"
proof -
  have j: "fg_calls joined = [\<lparr>fc_key = ''k'', fc_phase = Running, fc_response = None\<rparr>]"
    "fmlookup (fg_waiting joined) 7 = Some 0"
    by (simp_all add: joined_def fg_join_def new_foreground_request_group_def)
  have "fg_step joined (FRespond 0 sample_response) (fg_respond 0 sample_response joined)"
    by (rule fg_step.respond) (simp_all add: j)
  moreover have "fg_step (fg_respond 0 sample_response joined) (FFinish 0) ended"
    unfolding ended_def by (rule fg_step.finish) (simp_all add: j fg_respond_def)
  moreover have "fg_step ended (FReturn 7 0 (fc_response (fg_calls ended ! 0))) (fg_leave 7 ended)"
    by (rule fg_step.give) (simp_all add: ended_def j fg_respond_def fg_finish_def)
  moreover have "fc_response (fg_calls ended ! 0) = Some sample_response"
    by (simp add: ended_def j fg_respond_def fg_finish_def)
  ultimately show ?thesis using fg_snoc [OF fg_snoc [OF fg_snoc [OF joined_run]]] by simp
qed

lemma flights_exclusive_witness: "(0::nat) = 0 \<and> fc_phase (fg_calls joined ! 0) = Running"
  using flights_exclusive [OF joined_run, of 0 0]
  by (simp add: joined_def fg_join_def new_foreground_request_group_def)

lemma flights_agree_witness:
  "\<exists>r l. Some sample_response = Some r \<and>
     responses 0 [FJoin 7 ''k'' 0 True, FRespond 0 sample_response, FFinish 0,
       FReturn 7 0 (Some sample_response)] = [r] \<and>
     FJoin 7 (fc_key (fg_calls (fg_leave 7 ended) ! 0)) 0 l \<in>
       set [FJoin 7 ''k'' 0 True, FRespond 0 sample_response, FFinish 0, FReturn 7 0 (Some sample_response)] \<and>
     length (leaders 0 [FJoin 7 ''k'' 0 True, FRespond 0 sample_response, FFinish 0,
       FReturn 7 0 (Some sample_response)]) = 1"
  by (rule flights_agree [OF ended_run]) simp

lemma flights_progress_witness:
  "\<exists>h. fg_run joined [FRespond 0 sample_response, FFinish 0, FReturn 7 0 (Some sample_response)] h \<and>
     fmlookup (fg_waiting h) 7 = None"
  using flights_progress [OF joined_run, of 7 0 sample_response, THEN conjunct1]
  by (simp add: joined_def fg_join_def new_foreground_request_group_def)

end
