(* ===== verification/Refresh_Queue.thy ===== *)
theory Refresh_Queue
  imports Prelude
begin

text \<open>
  \<open>internal/service/version/refresh_queue.go\<close>: the bounded job queue between the revalidation
  scheduler and the refresh workers. The Go channel is modelled with its two panics (send on and
  close of a closed channel), so that their absence is a theorem. \<open>Enqueue\<close> and \<open>Close\<close> run under
  the queue's lock and \<open>Dequeue\<close> is one receive: each is an atomic step.
\<close>

section \<open>Channels\<close>

record 'a chan =
  ch_buf :: "'a list"
  ch_cap :: nat
  ch_closed :: bool

datatype 'a send_result = Sent 'a | Full | Send_Panic

text \<open>A send in a \<open>select\<close> with a \<open>default\<close> branch.\<close>

definition try_send :: "'a chan \<Rightarrow> 'a \<Rightarrow> 'a chan send_result" where
  "try_send c x =
     (if ch_closed c then Send_Panic
      else if length (ch_buf c) < ch_cap c then Sent (c\<lparr>ch_buf := ch_buf c @ [x]\<rparr>)
      else Full)"

text \<open>
  A receive: the buffered value first; then the zero value with \<open>ok = False\<close> if the channel is
  closed; otherwise it blocks.
\<close>

datatype ('a, 'c) recv_result = Received 'a 'c | Drained | Blocks

definition receive :: "'a chan \<Rightarrow> ('a, 'a chan) recv_result" where
  "receive c =
     (case ch_buf c of
        x # xs \<Rightarrow> Received x (c\<lparr>ch_buf := xs\<rparr>)
      | [] \<Rightarrow> if ch_closed c then Drained else Blocks)"

definition close_chan :: "'a chan \<Rightarrow> 'a chan option" where
  "close_chan c = (if ch_closed c then None else Some (c\<lparr>ch_closed := True\<rparr>))"

section \<open>The queue\<close>

record refresh_job =
  job_key :: string

definition empty_job :: refresh_job where
  "empty_job = \<lparr>job_key = []\<rparr>"

record refresh_queue =
  rq_closed :: bool
  rq_keys :: "refresh_job chan"

definition default_refresh_queue_size :: int where
  "default_refresh_queue_size = 256"

definition new_refresh_queue :: "int \<Rightarrow> refresh_queue" where
  "new_refresh_queue capacity =
     (let capacity = (if capacity \<le> 0 then default_refresh_queue_size else capacity)
      in \<lparr>rq_closed = False, rq_keys = \<lparr>ch_buf = [], ch_cap = nat capacity, ch_closed = False\<rparr>\<rparr>)"

text \<open>\<open>None\<close> is a panic of the channel operation.\<close>

definition enqueue ::
  "refresh_queue option \<Rightarrow> refresh_job \<Rightarrow> (bool \<times> refresh_queue option) option" where
  "enqueue q job =
     (case q of
        None \<Rightarrow> Some (False, q)
      | Some s \<Rightarrow>
          if job_key job = [] then Some (False, q)
          else if rq_closed s then Some (False, q)
          else (case try_send (rq_keys s) job of
                  Sent c \<Rightarrow> Some (True, Some (s\<lparr>rq_keys := c\<rparr>))
                | Full \<Rightarrow> Some (False, q)
                | Send_Panic \<Rightarrow> None))"

text \<open>
  The results \<open>Dequeue\<close> may return: with the context done and a job ready the \<open>select\<close> may take
  either branch; with no branch ready it blocks (no result).
\<close>

definition dequeue ::
  "refresh_queue option \<Rightarrow> bool \<Rightarrow> ((refresh_job \<times> bool) \<times> refresh_queue option) list" where
  "dequeue q ctx_done =
     (case q of
        None \<Rightarrow> [((empty_job, False), q)]
      | Some s \<Rightarrow>
          (if ctx_done then [((empty_job, False), q)] else []) @
          (case receive (rq_keys s) of
             Received job c \<Rightarrow> [((job, True), Some (s\<lparr>rq_keys := c\<rparr>))]
           | Drained \<Rightarrow> [((empty_job, False), q)]
           | Blocks \<Rightarrow> []))"

definition close_queue :: "refresh_queue option \<Rightarrow> refresh_queue option option" where
  "close_queue q =
     (case q of
        None \<Rightarrow> Some None
      | Some s \<Rightarrow>
          if rq_closed s then Some q
          else (case close_chan (rq_keys s) of
                  None \<Rightarrow> None
                | Some c \<Rightarrow> Some (Some (s\<lparr>rq_closed := True, rq_keys := c\<rparr>))))"

section \<open>Interleaved use\<close>

text \<open>
  The events of any number of goroutines sharing one queue, each an atomic step; \<open>QPanic\<close> would be
  a crash of the program.
\<close>

datatype queue_event =
    QEnqueued refresh_job
  | QRejected refresh_job
  | QDequeued refresh_job
  | QStopped
  | QClosed
  | QPanic

inductive queue_step :: "refresh_queue \<Rightarrow> queue_event \<Rightarrow> refresh_queue \<Rightarrow> bool" where
  enq_ok: "enqueue (Some q) job = Some (True, Some q') \<Longrightarrow> queue_step q (QEnqueued job) q'"
| enq_no: "enqueue (Some q) job = Some (False, Some q') \<Longrightarrow> queue_step q (QRejected job) q'"
| enq_panic: "enqueue (Some q) job = None \<Longrightarrow> queue_step q QPanic q"
| deq_ok: "((job, True), Some q') \<in> set (dequeue (Some q) ctx) \<Longrightarrow> queue_step q (QDequeued job) q'"
| deq_stop: "((job, False), Some q') \<in> set (dequeue (Some q) ctx) \<Longrightarrow> queue_step q QStopped q'"
| closes: "close_queue (Some q) = Some (Some q') \<Longrightarrow> queue_step q QClosed q'"
| close_panic: "close_queue (Some q) = None \<Longrightarrow> queue_step q QPanic q"

inductive queue_run :: "refresh_queue \<Rightarrow> queue_event list \<Rightarrow> refresh_queue \<Rightarrow> bool" where
  run_nil: "queue_run q [] q"
| run_snoc: "queue_run q es q' \<Longrightarrow> queue_step q' e q'' \<Longrightarrow> queue_run q (es @ [e]) q''"

text \<open>The queue's flag and the channel's agree, and the buffer respects its capacity.\<close>

definition rq_inv :: "refresh_queue \<Rightarrow> bool" where
  "rq_inv q \<longleftrightarrow>
     rq_closed q = ch_closed (rq_keys q) \<and> length (ch_buf (rq_keys q)) \<le> ch_cap (rq_keys q) \<and>
     (\<forall>j \<in> set (ch_buf (rq_keys q)). job_key j \<noteq> [])"

definition accepted :: "queue_event list \<Rightarrow> refresh_job list" where
  "accepted es = concat (map (\<lambda>e. case e of QEnqueued j \<Rightarrow> [j] | _ \<Rightarrow> []) es)"

definition delivered :: "queue_event list \<Rightarrow> refresh_job list" where
  "delivered es = concat (map (\<lambda>e. case e of QDequeued j \<Rightarrow> [j] | _ \<Rightarrow> []) es)"

lemmas queue_defs = enqueue_def dequeue_def close_queue_def try_send_def receive_def close_chan_def
lemmas queue_splits = option.splits list.splits if_splits send_result.splits recv_result.splits

lemma new_refresh_queue_inv: "rq_inv (new_refresh_queue capacity)"
  by (simp add: rq_inv_def new_refresh_queue_def Let_def)

lemma queue_step_inv:
  assumes "queue_step q e q'" and "rq_inv q"
  shows "rq_inv q' \<and> e \<noteq> QPanic \<and> ch_cap (rq_keys q') = ch_cap (rq_keys q)"
  using assms
  by (induction rule: queue_step.induct) (auto simp: rq_inv_def queue_defs split: queue_splits)

lemma queue_step_fifo:
  assumes "queue_step q e q'"
  shows "ch_buf (rq_keys q) @ accepted [e] = delivered [e] @ ch_buf (rq_keys q')"
  using assms
  by (induction rule: queue_step.induct)
    (auto simp: accepted_def delivered_def queue_defs split: queue_splits)

lemma queue_step_closed:
  assumes "queue_step q e q'" and "rq_closed q"
  shows "rq_closed q' \<and> accepted [e] = []"
  using assms
  by (induction rule: queue_step.induct) (auto simp: accepted_def queue_defs split: queue_splits)

lemma accepted_append: "accepted (es @ fs) = accepted es @ accepted fs"
  and delivered_append: "delivered (es @ fs) = delivered es @ delivered fs"
  by (simp_all add: accepted_def delivered_def)

lemma queue_run_inv:
  assumes "queue_run q es q'" and "rq_inv q"
  shows "rq_inv q' \<and> QPanic \<notin> set es \<and> ch_cap (rq_keys q') = ch_cap (rq_keys q)"
  using assms
proof (induction rule: queue_run.induct)
  case (run_snoc q es q' e q'')
  then show ?case using queue_step_inv [OF run_snoc.hyps(2)] by auto
qed simp

lemma queue_run_fifo:
  assumes "queue_run q es q'"
  shows "ch_buf (rq_keys q) @ accepted es = delivered es @ ch_buf (rq_keys q')"
  using assms
proof (induction rule: queue_run.induct)
  case (run_snoc q es q' e q'')
  have "ch_buf (rq_keys q) @ accepted (es @ [e]) =
      delivered es @ ch_buf (rq_keys q') @ accepted [e]"
    using run_snoc.IH by (simp add: accepted_append flip: append_assoc)
  also have "\<dots> = delivered (es @ [e]) @ ch_buf (rq_keys q'')"
    using queue_step_fifo [OF run_snoc.hyps(2)] by (simp add: delivered_append)
  finally show ?case .
qed (simp add: accepted_def delivered_def)

section \<open>The interface of a bounded queue\<close>

text \<open>
  What the scheduler needs of \<open>refreshEnqueuer\<close>: a call either appends the job and uses one place,
  or leaves the queue alone because it has no room.
\<close>

locale job_queue =
  fixes enq :: "'q \<Rightarrow> refresh_job \<Rightarrow> bool \<times> 'q"
    and pending :: "'q \<Rightarrow> refresh_job list"
    and room :: "'q \<Rightarrow> nat"
    and inv :: "'q \<Rightarrow> bool"
  assumes enq_inv: "inv q \<Longrightarrow> inv (snd (enq q j))"
    and enq_accept: "inv q \<Longrightarrow> job_key j \<noteq> [] \<Longrightarrow> 0 < room q \<Longrightarrow>
      fst (enq q j) \<and> pending (snd (enq q j)) = pending q @ [j] \<and> Suc (room (snd (enq q j))) = room q"
    and enq_reject: "inv q \<Longrightarrow> job_key j = [] \<or> room q = 0 \<Longrightarrow> \<not> fst (enq q j) \<and> snd (enq q j) = q"

text \<open>\<open>Enqueue\<close> as the scheduler calls it; it cannot panic under the invariant.\<close>

definition try_enqueue :: "refresh_queue option \<Rightarrow> refresh_job \<Rightarrow> bool \<times> refresh_queue option" where
  "try_enqueue q job = (case enqueue q job of Some res \<Rightarrow> res | None \<Rightarrow> (False, q))"

definition rq_pending :: "refresh_queue option \<Rightarrow> refresh_job list" where
  "rq_pending q = (case q of None \<Rightarrow> [] | Some s \<Rightarrow> ch_buf (rq_keys s))"

definition rq_room :: "refresh_queue option \<Rightarrow> nat" where
  "rq_room q =
     (case q of None \<Rightarrow> 0
      | Some s \<Rightarrow> if rq_closed s then 0 else ch_cap (rq_keys s) - length (ch_buf (rq_keys s)))"

definition rq_inv_opt :: "refresh_queue option \<Rightarrow> bool" where
  "rq_inv_opt q = (case q of None \<Rightarrow> True | Some s \<Rightarrow> rq_inv s)"

lemma enqueue_no_panic: "rq_inv_opt q \<Longrightarrow> enqueue q job = Some (try_enqueue q job)"
  by (auto simp: try_enqueue_def enqueue_def rq_inv_opt_def rq_inv_def try_send_def
      split: option.splits send_result.splits)

interpretation rq: job_queue try_enqueue rq_pending rq_room rq_inv_opt
  by unfold_locales
    (auto simp: try_enqueue_def rq_pending_def rq_room_def rq_inv_opt_def rq_inv_def enqueue_def
      try_send_def split: queue_splits)

section \<open>Properties\<close>

text \<open>
  C18. However enqueues, dequeues and closes interleave from a new queue, none of them panics (no send
  on, and no second close of, a closed channel) and at most the configured number of jobs waits.
\<close>

theorem queue_never_panics:
  assumes "queue_run (new_refresh_queue capacity) es q"
  shows "QPanic \<notin> set es \<and>
     int (length (rq_pending (Some q))) \<le> (if capacity \<le> 0 then default_refresh_queue_size else capacity)"
  using queue_run_inv [OF assms new_refresh_queue_inv]
  by (auto simp: rq_inv_def rq_pending_def new_refresh_queue_def default_refresh_queue_size_def
      split: if_splits)

text \<open>
  C17. No job is lost, duplicated or reordered: the jobs accepted are, in order, those delivered
  followed by those that still wait; and once closed the queue accepts nothing more.
\<close>

theorem queue_fifo:
  assumes "queue_run (new_refresh_queue capacity) es q" and "queue_run q fs q'"
  shows "accepted (es @ fs) = delivered (es @ fs) @ rq_pending (Some q') \<and>
     (QClosed \<in> set es \<longrightarrow> accepted fs = [])"
proof -
  have start: "ch_buf (rq_keys (new_refresh_queue capacity)) = []"
    by (simp add: new_refresh_queue_def Let_def)
  have es: "accepted es = delivered es @ ch_buf (rq_keys q)"
    using queue_run_fifo [OF assms(1)] start by simp
  have fs: "ch_buf (rq_keys q) @ accepted fs = delivered fs @ ch_buf (rq_keys q')"
    by (rule queue_run_fifo [OF assms(2)])
  have all: "accepted (es @ fs) = delivered (es @ fs) @ ch_buf (rq_keys q')"
    using es fs by (simp add: accepted_append delivered_append)
  have closed: "queue_run q0 gs q1 \<Longrightarrow> QClosed \<in> set gs \<Longrightarrow> rq_closed q1" for q0 gs q1
  proof (induction rule: queue_run.induct)
    case (run_snoc q0 gs q1 e q2)
    have "queue_step q1 QClosed q2 \<Longrightarrow> rq_closed q2"
      by (auto elim!: queue_step.cases simp: close_queue_def split: if_splits option.splits)
    then show ?case using run_snoc queue_step_closed by auto
  qed simp
  have rest: "queue_run q0 gs q1 \<Longrightarrow> rq_closed q0 \<Longrightarrow> rq_closed q1 \<and> accepted gs = []" for q0 gs q1
  proof (induction rule: queue_run.induct)
    case (run_snoc q0 gs q1 e q2)
    then show ?case using queue_step_closed [OF run_snoc.hyps(2)] by (simp add: accepted_append)
  qed (simp add: accepted_def)
  show ?thesis using all closed [OF assms(1)] rest [OF assms(2)] by (simp add: rq_pending_def)
qed

section \<open>Witnesses\<close>

lemma queue_step_witness:
  "queue_step (new_refresh_queue 1) (QEnqueued \<lparr>job_key = ''a''\<rparr>)
     (new_refresh_queue 1 \<lparr>rq_keys := \<lparr>ch_buf = [\<lparr>job_key = ''a''\<rparr>], ch_cap = 1, ch_closed = False\<rparr>\<rparr>)"
  by (rule enq_ok) (simp add: enqueue_def try_send_def new_refresh_queue_def)

lemma queue_run_witness:
  "queue_run (new_refresh_queue 1) [QEnqueued \<lparr>job_key = ''a''\<rparr>]
     (new_refresh_queue 1 \<lparr>rq_keys := \<lparr>ch_buf = [\<lparr>job_key = ''a''\<rparr>], ch_cap = 1, ch_closed = False\<rparr>\<rparr>)"
  using run_snoc [OF run_nil queue_step_witness] by simp

lemma queue_never_panics_witness:
  "QPanic \<notin> set [QEnqueued \<lparr>job_key = ''a''\<rparr>] \<and> int (length [\<lparr>job_key = ''a''\<rparr>]) \<le> 1"
  using queue_never_panics [OF queue_run_witness] by (simp add: rq_pending_def)

lemma queue_fifo_witness:
  "accepted [QEnqueued \<lparr>job_key = ''a''\<rparr>] = delivered [QEnqueued \<lparr>job_key = ''a''\<rparr>] @ [\<lparr>job_key = ''a''\<rparr>]"
  using queue_fifo [OF queue_run_witness run_nil] by (simp add: rq_pending_def)

end
