(* ===== verification/Revalidate_Scheduler.thy ===== *)
theory Revalidate_Scheduler
  imports Version_Service Refresh_Queue
begin

text \<open>
  \<open>internal/service/version/revalidate_scheduler.go\<close>: one sweep over the recently active keys. The
  three collaborators are interfaces in the code and records of operations (or a function, for the
  one-method \<open>refreshEnqueuer\<close>) here. A sweep is modelled with no other goroutine in between.
\<close>

section \<open>Interfaces and state\<close>

text \<open>
  \<open>activeKeySource\<close>, with \<open>staleActiveKeyPruner\<close> when the dynamic type has it; both methods return
  an error or nil.
\<close>

record 'a key_source =
  ks_active :: "'a \<Rightarrow> time \<Rightarrow> int \<Rightarrow> string + string list"
  ks_prune :: "('a \<Rightarrow> time \<Rightarrow> string option \<times> 'a) option"

text \<open>\<open>ActivityTracker\<close> as a key source; \<open>ctx\<close> and \<open>order\<close> stand for the context and the map's order.\<close>

definition tracker_source ::
  "(nat \<Rightarrow> string option) \<Rightarrow> (tracker \<Rightarrow> string list) \<Rightarrow> tracker option key_source" where
  "tracker_source ctx order =
     \<lparr>ks_active = (\<lambda>t since limit.
        active_keys_since t ctx since limit (case t of None \<Rightarrow> [] | Some hits \<Rightarrow> order hits)),
      ks_prune = Some (\<lambda>t cutoff. (None, prune_active_keys_before t cutoff))\<rparr>"

record sweep_result =
  candidate_keys :: int
  due_keys :: int
  not_stale_keys :: int
  worker_count :: int
  enqueued :: int
  dropped :: int

definition empty_sweep :: sweep_result where
  "empty_sweep = \<lparr>candidate_keys = 0, due_keys = 0, not_stale_keys = 0, worker_count = 0,
     enqueued = 0, dropped = 0\<rparr>"

record ('a, 's, 'q) scheduler =
  rs_active_keys :: "'a option"
  rs_cache_store :: "'s option"
  rs_queue :: "'q option"
  rs_policy :: policy
  rs_metrics :: "metrics option"
  rs_interval :: duration

definition scheduler_policy :: "policy \<Rightarrow> policy" where
  "scheduler_policy p =
     (let p = (if revalidate_interval p \<le> 0
               then p\<lparr>revalidate_interval := revalidate_interval default_policy\<rparr> else p);
          p = (if revalidate_lookback p \<le> 0
               then p\<lparr>revalidate_lookback := revalidate_lookback default_policy\<rparr> else p)
      in if revalidate_workers p \<le> 0
         then p\<lparr>revalidate_workers := revalidate_workers default_policy\<rparr> else p)"

definition new_revalidate_scheduler ::
  "'a option \<Rightarrow> 's option \<Rightarrow> 'q option \<Rightarrow> policy \<Rightarrow> ('a, 's, 'q) scheduler" where
  "new_revalidate_scheduler active_keys cache_store queue p =
     \<lparr>rs_active_keys = active_keys, rs_cache_store = cache_store, rs_queue = queue,
      rs_policy = scheduler_policy p, rs_metrics = None,
      rs_interval = revalidate_interval (scheduler_policy p)\<rparr>"

definition set_scheduler_metrics ::
  "('a, 's, 'q) scheduler option \<Rightarrow> metrics option \<Rightarrow> ('a, 's, 'q) scheduler option" where
  "set_scheduler_metrics s m = map_option (\<lambda>r. r\<lparr>rs_metrics := m\<rparr>) s"

section \<open>The sweep\<close>

text \<open>The loop over the listed keys: the due ones, the count of those checked recently, the store.\<close>

fun select_due ::
  "'s store_ops \<Rightarrow> time \<Rightarrow> duration \<Rightarrow> string list \<Rightarrow> 's \<Rightarrow> string list \<Rightarrow> int \<Rightarrow>
   string list \<times> int \<times> 's" where
  "select_due ops now interval [] st due not_stale = (due, not_stale, st)"
| "select_due ops now interval (key # keys) st due not_stale =
     (if key = [] then select_due ops now interval keys st due not_stale
      else (case op_get ops st key of
              ((r, hit, err), st') \<Rightarrow>
                if err \<noteq> None then select_due ops now interval keys st' due not_stale
                else if \<not> hit then select_due ops now interval keys st' due not_stale
                else if \<not> is_revalidation_due (last_checked_at r) now interval
                then select_due ops now interval keys st' due (not_stale + 1)
                else select_due ops now interval keys st' (due @ [key]) not_stale))"

fun enqueue_all ::
  "('q \<Rightarrow> refresh_job \<Rightarrow> bool \<times> 'q) \<Rightarrow> string list \<Rightarrow> 'q \<Rightarrow> int \<Rightarrow> int \<Rightarrow> int \<times> int \<times> 'q" where
  "enqueue_all enq [] q yes no = (yes, no, q)"
| "enqueue_all enq (key # keys) q yes no =
     (case enq q \<lparr>job_key = key\<rparr> of
        (ok, q') \<Rightarrow> if ok then enqueue_all enq keys q' (yes + 1) no
                   else enqueue_all enq keys q' yes (no + 1))"

definition sweep ::
  "'a key_source \<Rightarrow> 's store_ops \<Rightarrow> ('q \<Rightarrow> refresh_job \<Rightarrow> bool \<times> 'q) \<Rightarrow> time \<Rightarrow>
   ('a, 's, 'q) scheduler option \<Rightarrow> sweep_result \<times> ('a, 's, 'q) scheduler option" where
  "sweep ks ops enq now_reading s =
     (case s of
        None \<Rightarrow> (empty_sweep, None)
      | Some s \<Rightarrow>
          (let s1 = s\<lparr>rs_metrics := inc_revalidate_run (rs_metrics s)\<rparr>
           in case (rs_active_keys s1, rs_cache_store s1, rs_queue s1) of
                (Some a, Some st, Some q) \<Rightarrow>
                  (let now = now_reading;
                       since = time_add now (- revalidate_lookback (rs_policy s1));
                       a' = (case ks_prune ks of None \<Rightarrow> a | Some prune \<Rightarrow> snd (prune a since))
                   in case ks_active ks a' since 0 of
                        Inl err \<Rightarrow> (empty_sweep, Some (s1\<lparr>rs_active_keys := Some a'\<rparr>))
                      | Inr keys \<Rightarrow>
                          (case select_due ops now (revalidate_interval (rs_policy s1)) keys st [] 0 of
                             (due, not_stale, st') \<Rightarrow>
                               (case enqueue_all enq due q 0 0 of
                                  (yes, no, q') \<Rightarrow>
                                    (\<lparr>candidate_keys = int (length keys),
                                      due_keys = int (length due),
                                      not_stale_keys = not_stale,
                                      worker_count = revalidate_workers (rs_policy s1),
                                      enqueued = yes, dropped = no\<rparr>,
                                     Some (s1\<lparr>rs_active_keys := Some a', rs_cache_store := Some st',
                                              rs_queue := Some q'\<rparr>)))))
              | _ \<Rightarrow> (empty_sweep, Some s1)))"

section \<open>The counts of a sweep\<close>

lemma select_due_counts:
  "select_due ops now interval keys st due n = (due', n', st') \<Longrightarrow>
   \<exists>new. due' = due @ new \<and> set new \<subseteq> set keys \<and> [] \<notin> set new \<and> n \<le> n' \<and>
     int (length new) + (n' - n) \<le> int (length keys)"
proof (induction keys arbitrary: st due n)
  case (Cons key keys)
  obtain r hit err st1 where got: "op_get ops st key = ((r, hit, err), st1)"
    by (metis prod.exhaust)
  have lift: "\<exists>new. due' = due @ new \<and> set new \<subseteq> set (key # keys) \<and> [] \<notin> set new \<and> n \<le> n' \<and>
      int (length new) + (n' - n) \<le> int (length (key # keys))"
    if "select_due ops now interval keys st2 due m = (due', n', st')" "n \<le> m" "m \<le> n + 1" for st2 m
    using Cons.IH [OF that(1)] that(2,3) by fastforce
  show ?case
  proof (cases "key \<noteq> [] \<and> err = None \<and> hit \<and> is_revalidation_due (last_checked_at r) now interval")
    case True
    then have "select_due ops now interval keys st1 (due @ [key]) n = (due', n', st')"
      using Cons.prems got by simp
    from Cons.IH [OF this] obtain new where new: "due' = (due @ [key]) @ new" "set new \<subseteq> set keys"
      "[] \<notin> set new" "n \<le> n'" "int (length new) + (n' - n) \<le> int (length keys)" by blast
    then show ?thesis using True by (intro exI [of _ "key # new"]) auto
  next
    case False
    then show ?thesis using Cons.prems got lift [of st n] lift [of st1 n] lift [of st1 "n + 1"]
      by (auto split: if_splits)
  qed
qed simp

lemma enqueue_all_counts:
  "enqueue_all enq keys q yes no = (yes', no', q') \<Longrightarrow>
   yes \<le> yes' \<and> no \<le> no' \<and> (yes' - yes) + (no' - no) = int (length keys)"
proof (induction keys arbitrary: q yes no)
  case (Cons key keys)
  obtain ok q1 where e: "enq q \<lparr>job_key = key\<rparr> = (ok, q1)" by (metis prod.exhaust)
  show ?case
    using Cons.prems Cons.IH [of q1 "yes + 1" no] Cons.IH [of q1 yes "no + 1"] e
    by (cases ok) auto
qed simp

section \<open>Enqueueing into a bounded queue\<close>

context job_queue begin

lemma enqueue_all_bounded:
  assumes "inv q" and "[] \<notin> set keys"
  shows "\<exists>q'. enqueue_all enq keys q yes no =
      (yes + int (min (room q) (length keys)), no + int (length keys - room q), q') \<and> inv q' \<and>
      pending q' = pending q @ map (\<lambda>k. \<lparr>job_key = k\<rparr>) (take (room q) keys)"
  using assms
proof (induction keys arbitrary: q yes no)
  case (Cons k ks)
  obtain ok q1 where e: "enq q \<lparr>job_key = k\<rparr> = (ok, q1)" by (metis prod.exhaust)
  have inv1: "inv q1" using enq_inv [OF Cons.prems(1), of "\<lparr>job_key = k\<rparr>"] e by simp
  have kne: "job_key \<lparr>job_key = k\<rparr> \<noteq> []" "[] \<notin> set ks" using Cons.prems(2) by auto
  show ?case
  proof (cases "room q = 0")
    case True
    then have "\<not> ok" "q1 = q" using enq_reject [OF Cons.prems(1), of "\<lparr>job_key = k\<rparr>"] e by auto
    then show ?thesis using Cons.IH [OF Cons.prems(1) kne(2), of yes "no + 1"] e True by auto
  next
    case False
    then have "ok" "pending q1 = pending q @ [\<lparr>job_key = k\<rparr>]" "room q = Suc (room q1)"
      using enq_accept [OF Cons.prems(1) kne(1)] e by auto
    then show ?thesis using Cons.IH [OF inv1 kne(2), of "yes + 1" no] e by auto
  qed
qed simp

end

section \<open>Selecting over a contractual store\<close>

definition due_now ::
  "('s \<Rightarrow> string \<Rightarrow> cache_record option) \<Rightarrow> 's \<Rightarrow> time \<Rightarrow> duration \<Rightarrow> string \<Rightarrow> bool" where
  "due_now peek s now interval k \<longleftrightarrow>
     k \<noteq> [] \<and> (case peek s k of None \<Rightarrow> False | Some r \<Rightarrow> is_revalidation_due (last_checked_at r) now interval)"

context bounded_store begin

lemma select_due_bounded:
  assumes "inv s" and "op_get ops = get"
  shows "\<exists>n s'. select_due ops now interval keys s due m =
      (due @ filter (due_now peek s now interval) keys, n, s') \<and> inv s' \<and> peek s' = peek s"
  using assms(1)
proof (induction keys arbitrary: s due m)
  case (Cons k ks)
  obtain s1 where s1: "s1 = snd (get s k)" by blast
  have got: "op_get ops s k =
      ((case peek s k of None \<Rightarrow> (empty_record, False, None) | Some r \<Rightarrow> (r, True, None)), s1)"
    using get_result [OF Cons.prems] assms(2) s1 by (simp add: prod_eq_iff)
  have inv1: "inv s1" and peek1: "peek s1 = peek s"
    using get_inv get_peek Cons.prems s1 by simp_all
  have due1: "due_now peek s1 = due_now peek s" by (intro ext) (simp add: due_now_def peek1)
  note IH0 = Cons.IH [OF Cons.prems] and IH1 = Cons.IH [OF inv1, unfolded due1 peek1]
  show ?case
  proof (cases "k = []")
    case True
    then show ?thesis using IH0 [of due m] by (simp add: due_now_def)
  next
    case False
    then show ?thesis
      using IH1 [of due m] IH1 [of due "m + 1"] IH1 [of "due @ [k]" m] got
      by (cases "peek s k") (auto simp: due_now_def)
  qed
qed simp

end

section \<open>Properties\<close>

text \<open>
  The report of a sweep adds up, whatever the key source, the store and the queue do: every due
  key is either enqueued or dropped, and due keys and keys checked recently are candidates.
\<close>

theorem sweep_adds_up:
  "enqueued (fst (sweep ks ops enq now s)) + dropped (fst (sweep ks ops enq now s)) =
     due_keys (fst (sweep ks ops enq now s)) \<and>
   due_keys (fst (sweep ks ops enq now s)) + not_stale_keys (fst (sweep ks ops enq now s)) \<le>
     candidate_keys (fst (sweep ks ops enq now s)) \<and>
   0 \<le> enqueued (fst (sweep ks ops enq now s)) \<and> 0 \<le> dropped (fst (sweep ks ops enq now s)) \<and>
   0 \<le> not_stale_keys (fst (sweep ks ops enq now s))"
  by (auto simp: sweep_def empty_sweep_def Let_def split: option.splits sum.splits prod.splits
      dest!: select_due_counts enqueue_all_counts)

end
