(* ===== verification/Refresh_Worker.thy ===== *)
theory Refresh_Worker
  imports Refresh_Queue Metrics Cache_Policy
begin

text \<open>
  \<open>internal/service/version/refresh_worker.go\<close>: the loop of one refresh worker, which keeps a minimum
  interval between the end of one refresh and the start of the next. What the outside supplies to a
  turn of the loop (the dequeued job, the time that passes, how a wait ends) is a record; a run is a
  list of turns, and the model computes from it when each refresh starts and ends. Starting and joining the worker goroutines is not modelled.
\<close>

section \<open>Definitions\<close>

definition default_refresh_worker_count :: int where
  "default_refresh_worker_count = 1"

definition normalize_worker_count :: "int \<Rightarrow> int" where
  "normalize_worker_count n = (if n \<le> 0 then default_refresh_worker_count else n)"

definition min_interval :: "int \<Rightarrow> duration" where
  "min_interval per_worker_rps =
     (let rps = (if per_worker_rps \<le> 0 then revalidate_per_worker_rps default_policy else per_worker_rps);
          rps = (if rps \<le> 0 then 1 else rps);
          interval = second div rps
      in if interval \<le> 0 then nanosecond else interval)"

text \<open>\<open>Time.Sub\<close> saturates.\<close>

definition time_sub :: "time \<Rightarrow> time \<Rightarrow> duration" where
  "time_sub t u = max (- (2 ^ 63)) (min max_int64 (t - u))"

text \<open>
  One turn, as the outside supplies it: what \<open>Dequeue\<close> returns and the time that passes until the
  clock is read, whether the timer fires before the context ends, how late it fires and how long the
  refresh takes. Times that pass are natural numbers: the clock does not go back (a Go \<open>Time\<close> of
  \<open>time.Now\<close> carries a monotonic reading, which \<open>Sub\<close> uses).
\<close>

record worker_turn =
  tn_job :: refresh_job
  tn_ok :: bool
  tn_idle :: nat
  tn_fired :: bool
  tn_late :: nat
  tn_took :: nat

definition needed_wait :: "duration \<Rightarrow> time \<Rightarrow> time \<Rightarrow> duration" where
  "needed_wait interval last_run_at now =
     (if is_zero last_run_at then 0 else wrap64 (interval - time_sub now last_run_at))"

text \<open>
  \<open>waitForInterval\<close>, for a positive wait: the time at which it returns, or \<open>None\<close> when the context
  ends first. A timer fires no earlier than its duration.
\<close>

definition wait_for_interval :: "worker_turn \<Rightarrow> time \<Rightarrow> duration \<Rightarrow> time option" where
  "wait_for_interval t now wait = (if tn_fired t then Some (now + wait + int (tn_late t)) else None)"

text \<open>
  \<open>runWorker\<close> from the clock at the top of the loop: the refreshes it makes (key, start, end), the
  metrics and the refresher afterwards, and whether the loop has returned.
\<close>

fun run_worker ::
  "duration \<Rightarrow> (string \<Rightarrow> 'w \<Rightarrow> bool \<times> 'w) \<Rightarrow> time \<Rightarrow> time \<Rightarrow> worker_turn list \<Rightarrow> metrics option \<Rightarrow> 'w \<Rightarrow>
   (string \<times> time \<times> time) list \<times> metrics option \<times> 'w \<times> bool" where
  "run_worker interval refresh clock last_run_at [] m w = ([], m, w, False)"
| "run_worker interval refresh clock last_run_at (t # ts) m w =
     (let now = clock + int (tn_idle t); key = job_key (tn_job t)
      in if \<not> tn_ok t then ([], m, w, True)
         else if key = [] then run_worker interval refresh now last_run_at ts m w
         else (let wait = needed_wait interval last_run_at now
               in case (if wait > 0 then wait_for_interval t now wait else Some now) of
                    None \<Rightarrow> ([], m, w, True)
                  | Some start \<Rightarrow>
                      (let finished = start + int (tn_took t)
                       in case run_worker interval refresh finished finished ts
                                 (inc_refresh_processed m) (snd (refresh key w)) of
                            (runs, m', w', fin) \<Rightarrow> ((key, start, finished) # runs, m', w', fin))))"

section \<open>Lemmas\<close>

lemma min_interval_bounds: "0 < min_interval rps \<and> min_interval rps \<le> second"
proof -
  have "second div r \<le> second" if "0 < r" for r :: int
    using that int_div_less_self [of second r] by (cases "r = 1") auto
  then show ?thesis
    by (simp add: min_interval_def Let_def default_policy_def)
qed

lemma needed_wait_enough:
  assumes "0 < interval" and "interval \<le> second" and "0 < prev" and "prev \<le> now"
  shows "prev + interval \<le> now + max 0 (needed_wait interval prev now)"
proof -
  have "int64_range (interval - time_sub now prev)"
    using assms unfolding int64_range_def time_sub_def max_int64_def
    by (simp add: min_def)
  then show ?thesis
    using assms by (simp add: needed_wait_def wrap64_id time_sub_def max_int64_def)
qed

text \<open>Where a refresh starts, if it does: not before the clock was read, nor before the interval has passed.\<close>

lemma refresh_start_bounds:
  assumes "0 < interval" and "interval \<le> second" and "0 \<le> prev" and "prev \<le> now"
    and "(if needed_wait interval prev now > 0 then wait_for_interval t now (needed_wait interval prev now)
          else Some now) = Some start"
  shows "now \<le> start \<and> (0 < prev \<longrightarrow> prev + interval \<le> start)"
  using assms needed_wait_enough [of interval prev now]
  by (auto simp: wait_for_interval_def split: if_splits)

lemma run_worker_spaced:
  assumes "0 < interval" and "interval \<le> second" and "0 \<le> prev" and "prev \<le> clock" and "0 < clock"
    and "run_worker interval refresh clock prev ts m w = (runs, m', w', fin)"
  shows "successively (\<lambda>a b. snd (snd a) + interval \<le> fst (snd b)) runs \<and>
     (\<forall>a \<in> set runs. fst (snd a) \<le> snd (snd a)) \<and>
     (0 < prev \<longrightarrow> (\<forall>a \<in> set (take 1 runs). prev + interval \<le> fst (snd a)))"
  using assms(3-6)
proof (induction ts arbitrary: clock prev m w runs)
  case (Cons t ts)
  let ?k = "job_key (tn_job t)" and ?now = "clock + int (tn_idle t)"
  let ?start = "if needed_wait interval prev ?now > 0
    then wait_for_interval t ?now (needed_wait interval prev ?now) else Some ?now"
  show ?case
  proof (cases "tn_ok t \<and> ?k \<noteq> [] \<and> ?start \<noteq> None")
    case True
    then obtain start where start: "?start = Some start" by blast
    define finished where "finished = start + int (tn_took t)"
    obtain rest where
      r: "run_worker interval refresh finished finished ts (inc_refresh_processed m) (snd (refresh ?k w)) =
            (rest, m', w', fin)" and runs: "runs = (?k, start, finished) # rest"
      using Cons.prems(4) True start unfolding finished_def
      by (auto simp: Let_def split: prod.splits if_splits)
    have b: "?now \<le> start" "0 < prev \<Longrightarrow> prev + interval \<le> start"
      using refresh_start_bounds [OF assms(1,2) Cons.prems(1) _ start] Cons.prems(2) by simp_all
    then have "0 < finished" "start \<le> finished" using Cons.prems(3) by (simp_all add: finished_def)
    with Cons.IH [OF _ _ _ r]
    have IH: "successively (\<lambda>a b. snd (snd a) + interval \<le> fst (snd b)) rest"
      "\<forall>a \<in> set rest. fst (snd a) \<le> snd (snd a)"
      "\<forall>a \<in> set (take 1 rest). finished + interval \<le> fst (snd a)" by auto
    with b \<open>start \<le> finished\<close> runs show ?thesis by (cases rest) auto
  next
    case False
    then show ?thesis
      using Cons.IH [of prev ?now m w runs] Cons.prems by (auto simp: Let_def split: if_splits)
  qed
qed simp

lemma spaced_span:
  assumes "successively (\<lambda>a b. snd (snd a) + d \<le> fst (snd b)) (a # runs)"
    and "\<forall>x \<in> set (a # runs). fst (snd x) \<le> snd (snd x)"
  shows "fst (snd a) + int (length runs) * d \<le> fst (snd (last (a # runs)))"
  using assms
proof (induction runs arbitrary: a)
  case (Cons b runs)
  have "fst (snd b) + int (length runs) * d \<le> fst (snd (last (b # runs)))"
    using Cons by (intro Cons.IH) auto
  moreover have "fst (snd a) + d \<le> fst (snd b)" using Cons.prems by auto
  ultimately show ?case by (simp add: algebra_simps)
qed simp

section \<open>Properties\<close>

text \<open>
  C38. A worker keeps its rate: however long it waits for jobs and the refreshes take, each refresh
  starts at least the minimum interval after the end of the one before, so that the starts of
  \<open>n + 1\<close> refreshes span at least \<open>n\<close> intervals. (The clock starts after the zero time and does not go
  back, and a timer may fire late but not early.)
\<close>

theorem worker_keeps_rate:
  assumes "0 < clock"
    and "run_worker (min_interval rps) refresh clock 0 ts m w = (a # runs, m', w', fin)"
  shows "successively (\<lambda>x y. snd (snd x) + min_interval rps \<le> fst (snd y)) (a # runs) \<and>
     fst (snd a) + int (length runs) * min_interval rps \<le> fst (snd (last (a # runs)))"
proof -
  note sp = run_worker_spaced [OF min_interval_bounds [THEN conjunct1] min_interval_bounds [THEN conjunct2]
      _ _ assms, simplified]
  show ?thesis using sp assms(1) spaced_span [of "min_interval rps" a runs] by simp
qed

text \<open>
  A worker drops no job while it runs: as long as the queue delivers and no wait is cut short, it
  refreshes every delivered key, in order, and counts each.
\<close>

theorem worker_refreshes_all:
  assumes "\<forall>t \<in> set ts. tn_ok t \<and> tn_fired t"
  shows "\<exists>runs w'. run_worker interval refresh clock prev ts (Some m) w =
       (runs, Some (m\<lparr>refresh_processed := refresh_processed m + of_nat (length runs)\<rparr>), w', False) \<and>
     map fst runs = filter (\<lambda>k. k \<noteq> []) (map (\<lambda>t. job_key (tn_job t)) ts)"
  using assms
proof (induction ts arbitrary: clock prev m w)
  case (Cons t ts)
  let ?k = "job_key (tn_job t)"
  show ?case
  proof (cases "?k = []")
    case True
    then show ?thesis using Cons.IH [of _ prev m w] Cons.prems by (simp add: Let_def)
  next
    case False
    let ?wait = "needed_wait interval prev (clock + int (tn_idle t))"
    let ?start = "if ?wait > 0 then wait_for_interval t (clock + int (tn_idle t)) ?wait
      else Some (clock + int (tn_idle t))"
    have "?start \<noteq> None" using Cons.prems by (simp add: wait_for_interval_def)
    then obtain start where start: "?start = Some start" by blast
    show ?thesis
      using False start Cons.prems
        Cons.IH [of "start + int (tn_took t)" "start + int (tn_took t)"
          "m\<lparr>refresh_processed := refresh_processed m + 1\<rparr>" "snd (refresh ?k w)"]
      by (auto simp: Let_def inc_refresh_processed_def algebra_simps)
  qed
qed simp

section \<open>Witnesses\<close>

definition sample_turn :: "string \<Rightarrow> nat \<Rightarrow> nat \<Rightarrow> nat \<Rightarrow> worker_turn" where
  "sample_turn key idle late took = \<lparr>tn_job = \<lparr>job_key = key\<rparr>, tn_ok = True, tn_idle = idle,
     tn_fired = True, tn_late = late, tn_took = took\<rparr>"

text \<open>
  The second job is there 10 ns after the first refresh has ended; its refresh starts a second later.
\<close>

lemma worker_keeps_rate_witness:
  "successively (\<lambda>x y. snd (snd x) + min_interval 1 \<le> fst (snd y))
     [(''a'', 10, 20), (''b'', 1000000023, 1000000025)] \<and>
   10 + int (length [(''b'', 1000000023 :: int, 1000000025 :: int)]) * min_interval 1 \<le> 1000000023"
proof -
  have i: "min_interval 1 = 1000000000" by (simp add: min_interval_def)
  show ?thesis
    using worker_keeps_rate [of 5 1 "\<lambda>_ w. (True, w)" "[sample_turn ''a'' 5 0 10, sample_turn ''b'' 10 3 2]"
        None "()" "(''a'', 10, 20)" "[(''b'', 1000000023, 1000000025)]" None "()" False]
    by (simp add: i sample_turn_def needed_wait_def wait_for_interval_def time_sub_def max_int64_def
        wrap64_def inc_refresh_processed_def)
qed

lemma worker_refreshes_all_witness:
  "\<exists>runs w'. run_worker 1 (\<lambda>_ w. (True, w)) 5 0 [sample_turn ''a'' 5 10 20] (Some new_metrics) () =
       (runs, Some (new_metrics\<lparr>refresh_processed := refresh_processed new_metrics + of_nat (length runs)\<rparr>),
        w', False) \<and>
     map fst runs = filter (\<lambda>k. k \<noteq> []) (map (\<lambda>t. job_key (tn_job t)) [sample_turn ''a'' 5 10 20])"
  by (rule worker_refreshes_all) (simp add: sample_turn_def)

end
