(* ===== verification/Background.thy ===== *)
theory Background
  imports Refresh_Worker
begin

text \<open>
  The background goroutines of the program and how they are stopped: the loops of
  \<open>revalidate_scheduler.go\<close> (\<open>runWithFixedDelay\<close>) and \<open>refresh_worker.go\<close> (\<open>run\<close>, \<open>runWorker\<close>) over the shared
  queue, and \<open>CloseOnShutdown\<close> of \<open>internal/app/app.go\<close> on the scheduler, the workers and the queue. A step
  is one channel operation, one enqueue of a sweep or one refresh; any goroutine may take the next one,
  and a \<open>select\<close> with several ready branches may take any of them.
\<close>

section \<open>State\<close>

text \<open>
  The scheduler waits for its timer, offers the due keys of a sweep one after the other, or has
  returned (and closed its \<open>done\<close> channel). A worker dequeues, holds a key until its rate allows the
  refresh, refreshes, or has returned.
\<close>

datatype scheduler_state = Sched_Waiting | Sched_Sweeping "string list" | Sched_Returned

datatype worker_state = W_Dequeuing | W_Holding string | W_Refreshing string | W_Returned

datatype closer = Scheduler_Closer | Workers_Closer | Queue_Closer

text \<open>
  \<open>bg_closers\<close> are the closers \<open>CloseOnShutdown\<close> has still to finish; \<open>None\<close> before it is called.
\<close>

record background =
  bg_scheduler :: scheduler_state
  bg_scheduler_cancelled :: bool
  bg_workers :: "worker_state list"
  bg_workers_cancelled :: bool
  bg_workers_done :: bool
  bg_queue :: refresh_queue
  bg_closers :: "closer list option"

definition start_background :: "int \<Rightarrow> int \<Rightarrow> background" where
  "start_background queue_size workers =
     \<lparr>bg_scheduler = Sched_Waiting, bg_scheduler_cancelled = False,
      bg_workers = replicate (nat (normalize_worker_count workers)) W_Dequeuing,
      bg_workers_cancelled = False, bg_workers_done = False,
      bg_queue = new_refresh_queue queue_size, bg_closers = None\<rparr>"

definition close_on_shutdown :: "background \<Rightarrow> background" where
  "close_on_shutdown b = b\<lparr>bg_closers := Some [Scheduler_Closer, Workers_Closer, Queue_Closer]\<rparr>"

section \<open>Steps\<close>

datatype background_event =
    Sweep_Begins
  | Offered string bool
  | Sweep_Ends
  | Scheduler_Returns
  | Job_Taken string
  | Refresh_Begins string
  | Refresh_Ends
  | Worker_Returns
  | Workers_Done
  | Closing_Begins
  | Cancelled closer
  | Closer_Done closer
  | Crash

text \<open>The scheduler's loop. A cancelled context does not interrupt a sweep.\<close>

inductive scheduler_step :: "background \<Rightarrow> background_event \<Rightarrow> background \<Rightarrow> bool" where
  tick: "bg_scheduler b = Sched_Waiting \<Longrightarrow>
    scheduler_step b Sweep_Begins (b\<lparr>bg_scheduler := Sched_Sweeping due\<rparr>)"
| offer: "bg_scheduler b = Sched_Sweeping (k # due) \<Longrightarrow>
    enqueue (Some (bg_queue b)) \<lparr>job_key = k\<rparr> = Some (ok, Some q) \<Longrightarrow>
    scheduler_step b (Offered k ok) (b\<lparr>bg_scheduler := Sched_Sweeping due, bg_queue := q\<rparr>)"
| offer_crash: "bg_scheduler b = Sched_Sweeping (k # due) \<Longrightarrow>
    enqueue (Some (bg_queue b)) \<lparr>job_key = k\<rparr> = None \<Longrightarrow> scheduler_step b Crash b"
| sweep_ends: "bg_scheduler b = Sched_Sweeping [] \<Longrightarrow>
    scheduler_step b Sweep_Ends (b\<lparr>bg_scheduler := Sched_Waiting\<rparr>)"
| scheduler_returns: "bg_scheduler b = Sched_Waiting \<Longrightarrow> bg_scheduler_cancelled b \<Longrightarrow>
    scheduler_step b Scheduler_Returns (b\<lparr>bg_scheduler := Sched_Returned\<rparr>)"

text \<open>The workers' loops, and \<open>run\<close>, which closes \<open>done\<close> when all of them have returned after the cancel.\<close>

inductive worker_step :: "background \<Rightarrow> background_event \<Rightarrow> background \<Rightarrow> bool" where
  take: "i < length (bg_workers b) \<Longrightarrow> bg_workers b ! i = W_Dequeuing \<Longrightarrow>
    ((job, True), Some q) \<in> set (dequeue (Some (bg_queue b)) (bg_workers_cancelled b)) \<Longrightarrow>
    worker_step b (Job_Taken (job_key job))
      (b\<lparr>bg_workers := (bg_workers b)[i := if job_key job = [] then W_Dequeuing else W_Holding (job_key job)],
         bg_queue := q\<rparr>)"
| stop: "i < length (bg_workers b) \<Longrightarrow> bg_workers b ! i = W_Dequeuing \<Longrightarrow>
    ((job, False), Some q) \<in> set (dequeue (Some (bg_queue b)) (bg_workers_cancelled b)) \<Longrightarrow>
    worker_step b Worker_Returns (b\<lparr>bg_workers := (bg_workers b)[i := W_Returned], bg_queue := q\<rparr>)"
| stop_waiting: "i < length (bg_workers b) \<Longrightarrow> bg_workers b ! i = W_Holding k \<Longrightarrow> bg_workers_cancelled b \<Longrightarrow>
    worker_step b Worker_Returns (b\<lparr>bg_workers := (bg_workers b)[i := W_Returned]\<rparr>)"
| refresh_begins: "i < length (bg_workers b) \<Longrightarrow> bg_workers b ! i = W_Holding k \<Longrightarrow>
    worker_step b (Refresh_Begins k) (b\<lparr>bg_workers := (bg_workers b)[i := W_Refreshing k]\<rparr>)"
| refresh_ends: "i < length (bg_workers b) \<Longrightarrow> bg_workers b ! i = W_Refreshing k \<Longrightarrow>
    worker_step b Refresh_Ends (b\<lparr>bg_workers := (bg_workers b)[i := W_Dequeuing]\<rparr>)"
| workers_done: "bg_workers_cancelled b \<Longrightarrow> set (bg_workers b) \<subseteq> {W_Returned} \<Longrightarrow> \<not> bg_workers_done b \<Longrightarrow>
    worker_step b Workers_Done (b\<lparr>bg_workers_done := True\<rparr>)"

text \<open>The closing goroutine: the two \<open>Close\<close> methods cancel and then wait for \<open>done\<close>; the queue's closes at once.\<close>

inductive closing_step :: "background \<Rightarrow> background_event \<Rightarrow> background \<Rightarrow> bool" where
  closing: "bg_closers b = None \<Longrightarrow> closing_step b Closing_Begins (close_on_shutdown b)"
| cancel_scheduler: "bg_closers b = Some (Scheduler_Closer # cs) \<Longrightarrow> \<not> bg_scheduler_cancelled b \<Longrightarrow>
    closing_step b (Cancelled Scheduler_Closer) (b\<lparr>bg_scheduler_cancelled := True\<rparr>)"
| scheduler_joined: "bg_closers b = Some (Scheduler_Closer # cs) \<Longrightarrow> bg_scheduler_cancelled b \<Longrightarrow>
    bg_scheduler b = Sched_Returned \<Longrightarrow>
    closing_step b (Closer_Done Scheduler_Closer) (b\<lparr>bg_closers := Some cs\<rparr>)"
| cancel_workers: "bg_closers b = Some (Workers_Closer # cs) \<Longrightarrow> \<not> bg_workers_cancelled b \<Longrightarrow>
    closing_step b (Cancelled Workers_Closer) (b\<lparr>bg_workers_cancelled := True\<rparr>)"
| workers_joined: "bg_closers b = Some (Workers_Closer # cs) \<Longrightarrow> bg_workers_cancelled b \<Longrightarrow>
    bg_workers_done b \<Longrightarrow>
    closing_step b (Closer_Done Workers_Closer) (b\<lparr>bg_closers := Some cs\<rparr>)"
| close_queue_ok: "bg_closers b = Some (Queue_Closer # cs) \<Longrightarrow> close_queue (Some (bg_queue b)) = Some (Some q) \<Longrightarrow>
    closing_step b (Closer_Done Queue_Closer) (b\<lparr>bg_queue := q, bg_closers := Some cs\<rparr>)"
| close_queue_crash: "bg_closers b = Some (Queue_Closer # cs) \<Longrightarrow> close_queue (Some (bg_queue b)) = None \<Longrightarrow>
    closing_step b Crash b"

inductive background_step :: "background \<Rightarrow> background_event \<Rightarrow> background \<Rightarrow> bool" where
  by_scheduler: "scheduler_step b e b' \<Longrightarrow> background_step b e b'"
| by_worker: "worker_step b e b' \<Longrightarrow> background_step b e b'"
| by_closing: "closing_step b e b' \<Longrightarrow> background_step b e b'"

inductive_simps background_step_iff: "background_step b e b'"
inductive_cases scheduler_stepE: "scheduler_step b e b'"
inductive_cases worker_stepE: "worker_step b e b'"
inductive_cases closing_stepE: "closing_step b e b'"

inductive background_run :: "background \<Rightarrow> background_event list \<Rightarrow> background \<Rightarrow> bool" where
  bg_nil: "background_run b [] b"
| bg_snoc: "background_run b es b' \<Longrightarrow> background_step b' e b'' \<Longrightarrow> background_run b (es @ [e]) b''"

section \<open>Nothing runs past its close\<close>

text \<open>
  The closers are finished in order; the scheduler has returned once its closer is done, all workers
  have once theirs is, and the queue is closed by its own closer only.
\<close>

definition closing_order :: "closer list option list" where
  "closing_order = [None, Some [Scheduler_Closer, Workers_Closer, Queue_Closer],
     Some [Workers_Closer, Queue_Closer], Some [Queue_Closer], Some []]"

definition background_inv :: "background \<Rightarrow> bool" where
  "background_inv b \<longleftrightarrow>
     rq_inv (bg_queue b) \<and> bg_closers b \<in> set closing_order \<and>
     (rq_closed (bg_queue b) \<longleftrightarrow> bg_closers b = Some []) \<and>
     (bg_closers b \<in> set (drop 2 closing_order) \<longrightarrow> bg_scheduler b = Sched_Returned) \<and>
     (bg_closers b \<in> set (drop 3 closing_order) \<longrightarrow> bg_workers_done b) \<and>
     (bg_workers_done b \<longrightarrow> bg_workers_cancelled b \<and> set (bg_workers b) \<subseteq> {W_Returned})"

text \<open>A closer is done in \<open>b\<close> if \<open>CloseOnShutdown\<close> has gone past it.\<close>

definition closer_done :: "closer \<Rightarrow> background \<Rightarrow> bool" where
  "closer_done c b \<longleftrightarrow> (case bg_closers b of None \<Rightarrow> False | Some cs \<Rightarrow> c \<notin> set cs)"

lemma start_background_inv: "background_inv (start_background queue_size workers)"
  using new_refresh_queue_inv
  by (simp add: background_inv_def start_background_def closing_order_def new_refresh_queue_def Let_def)

lemma enqueue_open:
  assumes "rq_inv q"
  shows "\<exists>ok q'. enqueue (Some q) job = Some (ok, Some q') \<and> rq_inv q' \<and> rq_closed q' = rq_closed q"
  using assms by (cases "job_key job = []"; cases "rq_closed q")
    (auto simp: rq_inv_def enqueue_def try_send_def)

lemma dequeue_open:
  assumes "((job, ok), Some q') \<in> set (dequeue (Some q) c)" and "rq_inv q"
  shows "rq_inv q' \<and> rq_closed q' = rq_closed q"
  using assms by (cases "ch_buf (rq_keys q)")
    (auto simp: rq_inv_def dequeue_def receive_def split: if_splits)

lemma worker_slot:
  "i < length ws \<Longrightarrow> ws ! i \<noteq> W_Returned \<Longrightarrow> \<not> set ws \<subseteq> {W_Returned}"
  using nth_mem by fastforce

lemma scheduler_step_inv:
  assumes "scheduler_step b e b'" and "background_inv b"
  shows "background_inv b' \<and> e \<noteq> Crash \<and> \<not> closer_done Scheduler_Closer b"
  using assms
proof (induction rule: scheduler_step.induct)
  case (offer b k due ok q)
  then show ?case using enqueue_open [of "bg_queue b" "\<lparr>job_key = k\<rparr>"]
    by (auto simp: background_inv_def closer_done_def closing_order_def)
next
  case (offer_crash b k due)
  then show ?case using enqueue_open [of "bg_queue b" "\<lparr>job_key = k\<rparr>"] by (auto simp: background_inv_def)
qed (auto simp: background_inv_def closer_done_def closing_order_def)

lemma worker_step_inv:
  assumes "worker_step b e b'" and "background_inv b"
  shows "background_inv b' \<and> e \<noteq> Crash \<and> \<not> closer_done Workers_Closer b"
  using assms
proof (induction rule: worker_step.induct)
  case (take i b job q)
  then show ?case using dequeue_open [OF take.hyps(3)] worker_slot [OF take.hyps(1)]
    by (auto simp: background_inv_def closer_done_def closing_order_def)
next
  case (stop i b job q)
  then show ?case using dequeue_open [OF stop.hyps(3)] worker_slot [OF stop.hyps(1)]
    by (auto simp: background_inv_def closer_done_def closing_order_def)
qed (use worker_slot in \<open>auto simp: background_inv_def closer_done_def closing_order_def\<close>)

lemma closing_step_inv:
  assumes "closing_step b e b'" and "background_inv b"
  shows "background_inv b' \<and> e \<noteq> Crash"
  using assms
proof (induction rule: closing_step.induct)
  case (close_queue_ok b cs q)
  then show ?case
    by (auto simp: background_inv_def closing_order_def rq_inv_def close_queue_def close_chan_def split: if_splits)
next
  case (close_queue_crash b cs)
  then show ?case
    by (auto simp: background_inv_def rq_inv_def close_queue_def close_chan_def split: if_splits)
qed (auto simp: background_inv_def closing_order_def close_on_shutdown_def)

lemma background_step_inv:
  "background_step b e b' \<Longrightarrow> background_inv b \<Longrightarrow> background_inv b' \<and> e \<noteq> Crash"
  by (auto simp: background_step_iff dest: scheduler_step_inv worker_step_inv closing_step_inv)

lemma background_run_inv:
  assumes "background_run b es b'" and "background_inv b"
  shows "background_inv b' \<and> Crash \<notin> set es"
  using assms
proof (induction rule: background_run.induct)
  case (bg_snoc b es b' e b'')
  then show ?case using background_step_inv [OF bg_snoc.hyps(2)] by auto
qed simp

section \<open>Order of closing\<close>

fun scheduler_event :: "background_event \<Rightarrow> bool" where
  "scheduler_event Sweep_Begins \<longleftrightarrow> True"
| "scheduler_event (Offered _ _) \<longleftrightarrow> True"
| "scheduler_event Sweep_Ends \<longleftrightarrow> True"
| "scheduler_event _ \<longleftrightarrow> False"

fun worker_event :: "background_event \<Rightarrow> bool" where
  "worker_event (Job_Taken _) \<longleftrightarrow> True"
| "worker_event (Refresh_Begins _) \<longleftrightarrow> True"
| "worker_event Refresh_Ends \<longleftrightarrow> True"
| "worker_event _ \<longleftrightarrow> False"

lemma closing_step_closers:
  "closing_step b e b' \<Longrightarrow> background_inv b \<Longrightarrow> closer_done c b \<or> e = Closer_Done c \<Longrightarrow> closer_done c b'"
  by (induction rule: closing_step.induct)
    (auto simp: closer_done_def background_inv_def closing_order_def close_on_shutdown_def)

lemma scheduler_step_frame:
  "scheduler_step b e b' \<Longrightarrow> bg_closers b' = bg_closers b \<and> \<not> worker_event e \<and> e \<noteq> Closer_Done c"
  by (induction rule: scheduler_step.induct) auto

lemma worker_step_frame:
  "worker_step b e b' \<Longrightarrow> bg_closers b' = bg_closers b \<and> \<not> scheduler_event e \<and> e \<noteq> Closer_Done c"
  by (induction rule: worker_step.induct) auto

lemma closing_step_frame: "closing_step b e b' \<Longrightarrow> \<not> scheduler_event e \<and> \<not> worker_event e"
  by (induction rule: closing_step.induct) auto

lemma closer_done_kept:
  assumes "background_step b e b'" and "background_inv b" and "closer_done c b \<or> e = Closer_Done c"
  shows "closer_done c b'"
  using assms(1)
proof (cases rule: background_step.cases)
  case by_closing
  then show ?thesis using closing_step_closers assms(2,3) by blast
qed (use assms(3) scheduler_step_frame worker_step_frame in \<open>auto simp: closer_done_def\<close>)

lemma closed_is_quiet:
  assumes "background_step b e b'" and "background_inv b"
  shows "(closer_done Scheduler_Closer b \<longrightarrow> \<not> scheduler_event e) \<and>
    (closer_done Workers_Closer b \<longrightarrow> \<not> worker_event e)"
  using assms(1)
proof (cases rule: background_step.cases)
  case by_scheduler
  then show ?thesis using scheduler_step_inv assms(2) scheduler_step_frame by blast
next
  case by_worker
  then show ?thesis using worker_step_inv assms(2) worker_step_frame by blast
next
  case by_closing
  then show ?thesis using closing_step_frame by blast
qed

lemma run_closer_done:
  "background_run b es b' \<Longrightarrow> background_inv b \<Longrightarrow> Closer_Done c \<in> set es \<Longrightarrow> closer_done c b'"
proof (induction rule: background_run.induct)
  case (bg_snoc b es b' e b'')
  then show ?case using closer_done_kept [OF bg_snoc.hyps(2)] background_run_inv [OF bg_snoc.hyps(1)] by auto
qed simp

lemma run_quiet:
  assumes "background_run b es b'" and "background_inv b"
    and "\<And>b e b'. background_step b e b' \<Longrightarrow> background_inv b \<Longrightarrow> closer_done c b \<Longrightarrow> \<not> P e"
    and "es = pre @ Closer_Done c # post"
  shows "\<forall>e \<in> set post. \<not> P e"
  using assms(1,2,4)
proof (induction arbitrary: post rule: background_run.induct)
  case (bg_snoc b es b' e b'')
  show ?case
  proof (cases post rule: rev_exhaust)
    case (snoc post' f)
    then have es: "es = pre @ Closer_Done c # post'" "f = e" using bg_snoc.prems(2) by auto
    have "closer_done c b'" using run_closer_done [OF bg_snoc.hyps(1) bg_snoc.prems(1)] es by auto
    then show ?thesis
      using bg_snoc.IH [OF bg_snoc.prems(1) es(1)] assms(3) [OF bg_snoc.hyps(2)]
        background_run_inv [OF bg_snoc.hyps(1) bg_snoc.prems(1)] snoc es(2) by auto
  qed simp
qed simp

text \<open>
  C8. Background work stops in order and nothing runs past its close: however sweeps, workers and a
  shutdown interleave, no channel operation crashes; once the scheduler's \<open>Close\<close> has returned no sweep
  begins, goes on or offers a key, once the workers' has none of them takes a job or refreshes, and the
  queue is closed only after both.
\<close>

theorem background_stops_in_order:
  assumes "background_run (start_background queue_size workers) es b"
  shows "Crash \<notin> set es \<and>
     (\<forall>pre post. es = pre @ Closer_Done Scheduler_Closer # post \<longrightarrow> (\<forall>e \<in> set post. \<not> scheduler_event e)) \<and>
     (\<forall>pre post. es = pre @ Closer_Done Workers_Closer # post \<longrightarrow> (\<forall>e \<in> set post. \<not> worker_event e)) \<and>
     (rq_closed (bg_queue b) \<longrightarrow> bg_scheduler b = Sched_Returned \<and> set (bg_workers b) \<subseteq> {W_Returned})"
proof (intro conjI allI impI)
  note inv = background_run_inv [OF assms start_background_inv]
  show "Crash \<notin> set es" using inv by blast
  show "bg_scheduler b = Sched_Returned" if "rq_closed (bg_queue b)"
    using inv that by (auto simp: background_inv_def closing_order_def)
  show "set (bg_workers b) \<subseteq> {W_Returned}" if "rq_closed (bg_queue b)"
    using inv that by (auto simp: background_inv_def closing_order_def)
  show "\<forall>e \<in> set post. \<not> scheduler_event e" if "es = pre @ Closer_Done Scheduler_Closer # post" for pre post
    by (rule run_quiet [OF assms start_background_inv _ that]) (use closed_is_quiet in blast)
  show "\<forall>e \<in> set post. \<not> worker_event e" if "es = pre @ Closer_Done Workers_Closer # post" for pre post
    by (rule run_quiet [OF assms start_background_inv _ that]) (use closed_is_quiet in blast)
qed

section \<open>A shutdown comes to its end\<close>

fun scheduler_work :: "scheduler_state \<Rightarrow> nat" where
  "scheduler_work Sched_Waiting = 1"
| "scheduler_work (Sched_Sweeping due) = 4 * length due + 2"
| "scheduler_work Sched_Returned = 0"

fun worker_work :: "worker_state \<Rightarrow> nat" where
  "worker_work W_Dequeuing = 1"
| "worker_work (W_Holding _) = 3"
| "worker_work (W_Refreshing _) = 2"
| "worker_work W_Returned = 0"

text \<open>What is left to do, as a bound on the steps.\<close>

definition remaining_work :: "background \<Rightarrow> nat" where
  "remaining_work b =
     scheduler_work (bg_scheduler b) + sum_list (map worker_work (bg_workers b)) +
     3 * length (ch_buf (rq_keys (bg_queue b))) +
     (if bg_workers_done b then 0 else 1) +
     (if bg_scheduler_cancelled b then 0 else 1) + (if bg_workers_cancelled b then 0 else 1) +
     (case bg_closers b of None \<Rightarrow> 4 | Some cs \<Rightarrow> length cs)"

lemma work_update:
  assumes "i < length ws"
  shows "sum_list (map worker_work (ws[i := w])) + worker_work (ws ! i) = sum_list (map worker_work ws) + worker_work w"
  using assms by (induction ws arbitrary: i) (auto split: nat.splits)

lemma enqueue_buffer:
  "enqueue (Some q) j = Some (ok, Some q') \<Longrightarrow> length (ch_buf (rq_keys q')) \<le> Suc (length (ch_buf (rq_keys q)))"
  by (auto simp: enqueue_def try_send_def split: if_splits send_result.splits)

lemma dequeue_buffer:
  "((job, ok), Some q') \<in> set (dequeue (Some q) c) \<Longrightarrow>
   length (ch_buf (rq_keys q)) = length (ch_buf (rq_keys q')) + (if ok then 1 else 0)"
  by (cases "ch_buf (rq_keys q)") (auto simp: dequeue_def receive_def split: if_splits)

lemma scheduler_step_uses_work:
  assumes "scheduler_step b e b'" and "e \<noteq> Sweep_Begins" and "e \<noteq> Crash"
  shows "remaining_work b' < remaining_work b"
  using assms
proof (induction rule: scheduler_step.induct)
  case (offer b k due ok q)
  then show ?case using enqueue_buffer [OF offer.hyps(2)] by (simp add: remaining_work_def)
qed (simp_all add: remaining_work_def)

lemma worker_step_uses_work:
  assumes "worker_step b e b'"
  shows "remaining_work b' < remaining_work b"
  using assms
proof (induction rule: worker_step.induct)
  case (take i b job q)
  then show ?case
    using dequeue_buffer [OF take.hyps(3)] work_update [OF take.hyps(1), of W_Dequeuing]
      work_update [OF take.hyps(1), of "W_Holding (job_key job)"]
    by (auto simp: remaining_work_def split: if_splits)
next
  case (stop i b job q)
  then show ?case using dequeue_buffer [OF stop.hyps(3)] work_update [OF stop.hyps(1), of W_Returned]
    by (simp add: remaining_work_def)
next
  case (stop_waiting i b k)
  then show ?case using work_update [OF stop_waiting.hyps(1), of W_Returned] by (simp add: remaining_work_def)
next
  case (refresh_begins i b k)
  then show ?case using work_update [OF refresh_begins.hyps(1), of "W_Refreshing k"]
    by (simp add: remaining_work_def)
next
  case (refresh_ends i b k)
  then show ?case using work_update [OF refresh_ends.hyps(1), of W_Dequeuing] by (simp add: remaining_work_def)
qed (simp add: remaining_work_def)

lemma closing_step_uses_work:
  assumes "closing_step b e b'" and "e \<noteq> Crash"
  shows "remaining_work b' < remaining_work b"
  using assms
proof (induction rule: closing_step.induct)
  case (close_queue_ok b cs q)
  then show ?case by (auto simp: remaining_work_def close_queue_def close_chan_def split: if_splits)
qed (simp_all add: remaining_work_def close_on_shutdown_def)

lemma step_uses_work:
  assumes "background_step b e b'" and "background_inv b" and "e \<noteq> Sweep_Begins"
  shows "remaining_work b' < remaining_work b"
proof -
  have "e \<noteq> Crash" using background_step_inv assms(1,2) by blast
  with assms(1) show ?thesis
    by (cases rule: background_step.cases)
      (use assms(3) scheduler_step_uses_work worker_step_uses_work closing_step_uses_work in blast)+
qed

lemma worker_can_stop:
  assumes "i < length (bg_workers b)" and "bg_workers b ! i \<noteq> W_Returned" and "bg_workers_cancelled b"
  shows "\<exists>e b'. background_step b e b' \<and> e \<noteq> Sweep_Begins"
proof (cases "bg_workers b ! i")
  case W_Dequeuing
  have "((empty_job, False), Some (bg_queue b)) \<in> set (dequeue (Some (bg_queue b)) (bg_workers_cancelled b))"
    using assms(3) by (simp add: dequeue_def)
  from worker_step.stop [OF assms(1) W_Dequeuing this, THEN by_worker] show ?thesis by blast
next
  case (W_Holding k)
  from worker_step.stop_waiting [OF assms(1) this assms(3), THEN by_worker] show ?thesis by blast
next
  case (W_Refreshing k)
  from worker_step.refresh_ends [OF assms(1) this, THEN by_worker] show ?thesis by blast
qed (use assms(2) in simp)

lemma scheduler_can_stop:
  assumes "background_inv b" and "bg_scheduler_cancelled b" and "bg_scheduler b \<noteq> Sched_Returned"
  shows "\<exists>e b'. background_step b e b' \<and> e \<noteq> Sweep_Begins"
proof (cases "bg_scheduler b")
  case Sched_Waiting
  from scheduler_step.scheduler_returns [OF this assms(2), THEN by_scheduler] show ?thesis by blast
next
  case (Sched_Sweeping due)
  have "rq_inv (bg_queue b)" using assms(1) by (simp add: background_inv_def)
  then show ?thesis
    using scheduler_step.offer [of b, THEN by_scheduler] enqueue_open
      scheduler_step.sweep_ends [of b, THEN by_scheduler] Sched_Sweeping
    by (cases due) blast+
qed (use assms(3) in simp)

lemma closing_progresses:
  assumes "background_inv b" and "bg_closers b = Some (c # cs)"
  shows "\<exists>e b'. background_step b e b' \<and> e \<noteq> Sweep_Begins"
proof (cases c)
  case Scheduler_Closer
  then show ?thesis
    using cancel_scheduler [of b cs, THEN by_closing] scheduler_joined [of b cs, THEN by_closing]
      scheduler_can_stop [OF assms(1)] assms(2) by blast
next
  case Workers_Closer
  then have cs: "bg_closers b = Some (Workers_Closer # cs)" using assms(2) by simp
  show ?thesis
  proof (cases "bg_workers_cancelled b \<and> \<not> bg_workers_done b")
    case True
    show ?thesis
    proof (cases "set (bg_workers b) \<subseteq> {W_Returned}")
      case False
      then obtain i where "i < length (bg_workers b)" "bg_workers b ! i \<noteq> W_Returned"
        by (metis in_set_conv_nth singleton_iff subsetI)
      then show ?thesis using worker_can_stop True by blast
    qed (use worker_step.workers_done [of b, THEN by_worker] True in blast)
  next
    case False
    then show ?thesis using cancel_workers [OF cs, THEN by_closing] workers_joined [OF cs, THEN by_closing] by blast
  qed
next
  case Queue_Closer
  have "\<not> ch_closed (rq_keys (bg_queue b)) \<and> \<not> rq_closed (bg_queue b)"
    using assms by (auto simp: background_inv_def rq_inv_def)
  then obtain q where "close_queue (Some (bg_queue b)) = Some (Some q)"
    by (simp add: close_queue_def close_chan_def)
  from close_queue_ok [OF assms(2) [unfolded Queue_Closer] this, THEN by_closing] show ?thesis by blast
qed

lemma run_uses_work:
  "background_run b es b' \<Longrightarrow> background_inv b \<Longrightarrow> Sweep_Begins \<notin> set es \<Longrightarrow>
   length es + remaining_work b' \<le> remaining_work b"
proof (induction rule: background_run.induct)
  case (bg_snoc b es b' e b'')
  then show ?case
    using step_uses_work [OF bg_snoc.hyps(2)] background_run_inv [OF bg_snoc.hyps(1)] by fastforce
qed simp

lemma background_run_Cons:
  "background_step b e b1 \<Longrightarrow> background_run b1 es b2 \<Longrightarrow> background_run b (e # es) b2"
proof (rotate_tac, induction rule: background_run.induct)
  case (bg_nil b1)
  then show ?case using background_run.bg_snoc [OF background_run.bg_nil] by force
next
  case (bg_snoc b1 es b' f b'')
  then show ?case using background_run.bg_snoc [of b "e # es" b' f b''] by simp
qed

lemma closers_kept:
  "background_step b e b' \<Longrightarrow> bg_closers b \<noteq> None \<Longrightarrow> bg_closers b' \<noteq> None"
  by (auto simp: background_step_iff close_on_shutdown_def elim!: scheduler_stepE worker_stepE closing_stepE)

lemma closing_completes:
  assumes "background_inv b" and "bg_closers b \<noteq> None"
  shows "\<exists>es b'. background_run b es b' \<and> Sweep_Begins \<notin> set es \<and> bg_closers b' = Some []"
  using assms
proof (induction "remaining_work b" arbitrary: b rule: less_induct)
  case less
  show ?case
  proof (cases "bg_closers b = Some []")
    case True
    then show ?thesis using bg_nil by force
  next
    case False
    then obtain c cs where "bg_closers b = Some (c # cs)" using less.prems(2) by (metis neq_Nil_conv not_None_eq)
    then obtain e b1 where e: "background_step b e b1" "e \<noteq> Sweep_Begins"
      using closing_progresses [OF less.prems(1)] by blast
    obtain es b' where "background_run b1 es b'" "Sweep_Begins \<notin> set es" "bg_closers b' = Some []"
      using less.hyps [OF step_uses_work [OF e(1) less.prems(1) e(2)]] background_step_inv [OF e(1) less.prems(1)]
        closers_kept [OF e(1) less.prems(2)] by blast
    then show ?thesis using background_run_Cons [OF e(1)] e(2) by (metis set_ConsD)
  qed
qed

text \<open>
  C9. Stopping the background work comes to an end: after \<open>CloseOnShutdown\<close> is called there is no
  deadlock - from every state the run can be completed - and the number of steps is bounded unless
  the scheduler keeps preferring an elapsed timer to its cancelled context; nothing can happen after
  the last closer.
\<close>

theorem background_shutdown_ends:
  assumes "background_run (start_background queue_size workers) es b" and "bg_closers b \<noteq> None"
  shows "(\<exists>fs b'. background_run b fs b' \<and> Sweep_Begins \<notin> set fs \<and> bg_closers b' = Some []) \<and>
     (\<forall>fs b'. background_run b fs b' \<longrightarrow> Sweep_Begins \<notin> set fs \<longrightarrow> length fs \<le> remaining_work b) \<and>
     (bg_closers b = Some [] \<longrightarrow> (\<forall>e b'. \<not> background_step b e b'))"
proof (intro conjI allI impI notI)
  note inv = background_run_inv [OF assms(1) start_background_inv, THEN conjunct1]
  show "\<exists>fs b'. background_run b fs b' \<and> Sweep_Begins \<notin> set fs \<and> bg_closers b' = Some []"
    by (rule closing_completes [OF inv assms(2)])
  show "length fs \<le> remaining_work b" if "background_run b fs b'" "Sweep_Begins \<notin> set fs" for fs b'
    using run_uses_work [OF that(1) inv that(2)] by simp
  show False if "bg_closers b = Some []" "background_step b e b'" for e b'
    using that(2,1) inv
    by (auto simp: background_step_iff background_inv_def closing_order_def
        elim!: scheduler_stepE worker_stepE closing_stepE dest!: worker_slot)
qed

section \<open>Witnesses\<close>

text \<open>A program without work that is asked to stop.\<close>

lemma sample_closing:
  "background_run (start_background 2 1) [Closing_Begins, Cancelled Scheduler_Closer, Scheduler_Returns,
     Closer_Done Scheduler_Closer]
     (close_on_shutdown (start_background 2 1)\<lparr>bg_scheduler_cancelled := True, bg_scheduler := Sched_Returned,
        bg_closers := Some [Workers_Closer, Queue_Closer]\<rparr>)"
proof -
  let ?b = "start_background 2 1"
  let ?c = "close_on_shutdown ?b" let ?d = "?c\<lparr>bg_scheduler_cancelled := True\<rparr>"
  let ?e = "?d\<lparr>bg_scheduler := Sched_Returned\<rparr>"
  have "background_step ?b Closing_Begins ?c" by (rule closing [THEN by_closing]) (simp add: start_background_def)
  moreover have "background_step ?c (Cancelled Scheduler_Closer) ?d"
    by (rule cancel_scheduler [THEN by_closing]) (simp_all add: start_background_def close_on_shutdown_def)
  moreover have "background_step ?d Scheduler_Returns ?e"
    by (rule scheduler_returns [THEN by_scheduler]) (simp_all add: start_background_def close_on_shutdown_def)
  moreover have "background_step ?e (Closer_Done Scheduler_Closer) (?e\<lparr>bg_closers := Some [Workers_Closer, Queue_Closer]\<rparr>)"
    by (rule scheduler_joined [THEN by_closing]) (simp_all add: close_on_shutdown_def)
  ultimately show ?thesis
    by (intro background_run_Cons) (use bg_nil in \<open>auto simp: close_on_shutdown_def\<close>)
qed

lemma background_stops_in_order_witness:
  "\<exists>b. background_run (start_background 2 1) [Closing_Begins, Cancelled Scheduler_Closer, Scheduler_Returns,
     Closer_Done Scheduler_Closer] b \<and> \<not> rq_closed (bg_queue b) \<and>
     Crash \<notin> set [Closing_Begins, Cancelled Scheduler_Closer, Scheduler_Returns, Closer_Done Scheduler_Closer]"
  using background_stops_in_order [OF sample_closing] sample_closing
  by (intro exI conjI) (auto simp: close_on_shutdown_def start_background_def new_refresh_queue_def)

lemma background_shutdown_ends_witness:
  "\<exists>b fs b'. bg_scheduler b = Sched_Returned \<and> background_run b fs b' \<and> Sweep_Begins \<notin> set fs \<and> bg_closers b' = Some []"
proof -
  let ?b = "close_on_shutdown (start_background 2 1)\<lparr>bg_scheduler_cancelled := True,
    bg_scheduler := Sched_Returned, bg_closers := Some [Workers_Closer, Queue_Closer]\<rparr>"
  have "bg_closers ?b \<noteq> None" by simp
  from background_shutdown_ends [OF sample_closing this] obtain fs b'
    where "background_run ?b fs b'" "Sweep_Begins \<notin> set fs" "bg_closers b' = Some []"
    by (elim conjE exE)
  moreover have "bg_scheduler ?b = Sched_Returned" by simp
  ultimately show ?thesis by (intro exI conjI)
qed

end
