(* ===== verification/Background_Queue.thy ===== *)
theory Background_Queue
  imports Background
begin

text \<open>
  The background runtime uses the queue as the queue's own theory describes it: every run of the
  goroutines is a run of the queue, so that its guarantees carry over to sweeps and workers.
\<close>

section \<open>A simulation\<close>

text \<open>What an event of the runtime is for the queue.\<close>

fun queue_events :: "background_event \<Rightarrow> queue_event list" where
  "queue_events (Offered k True) = [QEnqueued \<lparr>job_key = k\<rparr>]"
| "queue_events (Offered k False) = [QRejected \<lparr>job_key = k\<rparr>]"
| "queue_events (Job_Taken k) = [QDequeued \<lparr>job_key = k\<rparr>]"
| "queue_events (Closer_Done Queue_Closer) = [QClosed]"
| "queue_events _ = []"

lemma dequeue_stop_same:
  "((job, False), Some q') \<in> set (dequeue (Some q) c) \<Longrightarrow> q' = q"
  by (cases "ch_buf (rq_keys q)") (auto simp: dequeue_def receive_def split: if_splits)

lemma job_eta: "\<lparr>job_key = job_key job\<rparr> = (job :: refresh_job)"
  by simp

lemma queue_run_one: "queue_step q e q' \<Longrightarrow> queue_run q [e] q'"
  using run_snoc [OF run_nil] by fastforce

lemma scheduler_step_queue:
  assumes "scheduler_step b e b'" and "e \<noteq> Crash"
  shows "queue_run (bg_queue b) (queue_events e) (bg_queue b')"
  using assms
proof (induction rule: scheduler_step.induct)
  case (offer b k due ok q)
  then show ?case
    using queue_run_one [OF enq_ok [of "bg_queue b" "\<lparr>job_key = k\<rparr>" q]]
      queue_run_one [OF enq_no [of "bg_queue b" "\<lparr>job_key = k\<rparr>" q]] by (cases ok) simp_all
qed (simp_all add: run_nil)

lemma worker_step_queue:
  assumes "worker_step b e b'"
  shows "queue_run (bg_queue b) (queue_events e) (bg_queue b')"
  using assms
proof (induction rule: worker_step.induct)
  case (take i b job q)
  then show ?case using queue_run_one [OF deq_ok [OF take.hyps(3)]] by (simp add: job_eta)
next
  case (stop i b job q)
  then show ?case using dequeue_stop_same [OF stop.hyps(3)] by (simp add: run_nil)
qed (simp_all add: run_nil)

lemma closing_step_queue:
  assumes "closing_step b e b'" and "e \<noteq> Crash"
  shows "queue_run (bg_queue b) (queue_events e) (bg_queue b')"
  using assms
proof (induction rule: closing_step.induct)
  case (close_queue_ok b cs q)
  then show ?case using queue_run_one [OF closes [OF close_queue_ok.hyps(2)]] by simp
qed (simp_all add: run_nil close_on_shutdown_def)

lemma queue_run_append: "queue_run q es q' \<Longrightarrow> queue_run q' fs q'' \<Longrightarrow> queue_run q (es @ fs) q''"
proof (rotate_tac, induction rule: queue_run.induct)
  case (run_snoc q' fs r e r')
  then show ?case using queue_run.run_snoc [of q "es @ fs" r e r'] by simp
qed simp

lemma background_run_queue:
  assumes "background_run b es b'" and "background_inv b"
  shows "queue_run (bg_queue b) (concat (map queue_events es)) (bg_queue b')"
  using assms
proof (induction rule: background_run.induct)
  case (bg_snoc b es b' e b'')
  have ok: "e \<noteq> Crash" using background_run_inv [OF background_run.bg_snoc [OF bg_snoc.hyps] bg_snoc.prems] by auto
  from bg_snoc.hyps(2) have "queue_run (bg_queue b') (queue_events e) (bg_queue b'')"
    by (cases rule: background_step.cases)
      (use ok scheduler_step_queue worker_step_queue closing_step_queue in blast)+
  then show ?case using queue_run_append [OF bg_snoc.IH [OF bg_snoc.prems]] by simp
qed (simp add: run_nil)

section \<open>Jobs\<close>

definition offered :: "background_event list \<Rightarrow> string list" where
  "offered es = concat (map (\<lambda>e. case e of Offered k True \<Rightarrow> [k] | _ \<Rightarrow> []) es)"

definition taken :: "background_event list \<Rightarrow> string list" where
  "taken es = concat (map (\<lambda>e. case e of Job_Taken k \<Rightarrow> [k] | _ \<Rightarrow> []) es)"

definition refreshed :: "background_event list \<Rightarrow> string list" where
  "refreshed es = concat (map (\<lambda>e. case e of Refresh_Begins k \<Rightarrow> [k] | _ \<Rightarrow> []) es)"

lemma events_snoc:
  "offered (es @ [e]) = offered es @ offered [e]" "taken (es @ [e]) = taken es @ taken [e]"
  "refreshed (es @ [e]) = refreshed es @ refreshed [e]"
  by (simp_all add: offered_def taken_def refreshed_def)

lemma accepted_offered: "map job_key (accepted (concat (map queue_events es))) = offered es"
proof (induction es)
  case (Cons e es)
  have "map job_key (accepted (queue_events e)) = offered [e]"
    by (cases e rule: queue_events.cases) (auto simp: accepted_def offered_def)
  then show ?case using Cons by (simp add: accepted_append) (simp add: offered_def)
qed (simp add: accepted_def offered_def)

lemma delivered_taken: "map job_key (delivered (concat (map queue_events es))) = taken es"
proof (induction es)
  case (Cons e es)
  have "map job_key (delivered (queue_events e)) = taken [e]"
    by (cases e rule: queue_events.cases) (auto simp: delivered_def taken_def)
  then show ?case using Cons by (simp add: delivered_append) (simp add: taken_def)
qed (simp add: delivered_def taken_def)

text \<open>The keys the workers hold.\<close>

fun held :: "worker_state \<Rightarrow> string list" where
  "held (W_Holding k) = [k]"
| "held _ = []"

definition held_keys :: "background \<Rightarrow> string multiset" where
  "held_keys b = mset (concat (map held (bg_workers b)))"

lemma held_update:
  assumes "i < length ws"
  shows "mset (concat (map held (ws[i := w]))) + mset (held (ws ! i)) = mset (concat (map held ws)) + mset (held w)"
  using assms by (induction ws arbitrary: i) (auto split: nat.splits)

lemma worker_step_held:
  assumes "worker_step b e b'"
  shows "held_keys b' + mset (refreshed [e]) \<subseteq># held_keys b + mset (taken [e])"
  using assms
proof (induction rule: worker_step.induct)
  case (take i b job q)
  then show ?case
    using held_update [OF take.hyps(1), of W_Dequeuing] held_update [OF take.hyps(1), of "W_Holding (job_key job)"]
    by (auto simp: held_keys_def refreshed_def taken_def)
next
  case (stop i b job q)
  then show ?case using held_update [OF stop.hyps(1), of W_Returned] by (simp add: held_keys_def refreshed_def)
next
  case (stop_waiting i b k)
  then have "mset (concat (map held (bg_workers b))) =
      mset (concat (map held ((bg_workers b)[i := W_Returned]))) + {#k#}"
    using held_update [OF stop_waiting.hyps(1), of W_Returned] by simp
  then show ?case by (simp add: held_keys_def refreshed_def taken_def)
next
  case (refresh_begins i b k)
  then show ?case using held_update [OF refresh_begins.hyps(1), of "W_Refreshing k"]
    by (auto simp: held_keys_def refreshed_def)
next
  case (refresh_ends i b k)
  then show ?case using held_update [OF refresh_ends.hyps(1), of W_Dequeuing] by (simp add: held_keys_def refreshed_def)
qed (simp add: held_keys_def refreshed_def)

lemma other_step_held:
  "scheduler_step b e b' \<Longrightarrow> bg_workers b' = bg_workers b \<and> refreshed [e] = []"
  "closing_step b e b' \<Longrightarrow> bg_workers b' = bg_workers b \<and> refreshed [e] = []"
  by (induct rule: scheduler_step.induct; simp add: refreshed_def)
    (induct rule: closing_step.induct; simp add: refreshed_def close_on_shutdown_def)

lemma background_step_held:
  assumes "background_step b e b'"
  shows "held_keys b' + mset (refreshed [e]) \<subseteq># held_keys b + mset (taken [e])"
  using assms
proof (cases rule: background_step.cases)
  case by_worker
  then show ?thesis by (rule worker_step_held)
qed (use other_step_held in \<open>auto simp: held_keys_def\<close>)

lemma background_run_held:
  "background_run b es b' \<Longrightarrow> held_keys b' + mset (refreshed es) \<subseteq># held_keys b + mset (taken es)"
proof (induction rule: background_run.induct)
  case (bg_snoc b es b' e b'')
  have "held_keys b'' + mset (refreshed [e]) + mset (refreshed es) \<subseteq># held_keys b' + mset (taken [e]) + mset (refreshed es)"
    using background_step_held [OF bg_snoc.hyps(2)] by simp
  also have "\<dots> \<subseteq># held_keys b + mset (taken es) + mset (taken [e])"
    using bg_snoc.IH by (simp add: ac_simps)
  finally show ?case by (simp add: events_snoc ac_simps)
qed (simp add: refreshed_def taken_def)

text \<open>
  C10. Work flows from the sweeps to the workers without loss, reordering or repetition: in every run of
  the background goroutines, the keys the queue accepted from sweeps are, in order, those the workers
  took followed by those that wait; no key is refreshed more often than it was taken; and the runtime
  drives the queue through one of its own runs.
\<close>

theorem jobs_reach_workers:
  assumes "background_run (start_background queue_size workers) es b"
  shows "offered es = taken es @ map job_key (ch_buf (rq_keys (bg_queue b))) \<and>
     mset (refreshed es) \<subseteq># mset (taken es) \<and>
     queue_run (new_refresh_queue queue_size) (concat (map queue_events es)) (bg_queue b)"
proof -
  have run: "queue_run (new_refresh_queue queue_size) (concat (map queue_events es)) (bg_queue b)"
    using background_run_queue [OF assms start_background_inv] by (simp add: start_background_def)
  have "offered es = taken es @ map job_key (ch_buf (rq_keys (bg_queue b)))"
    using arg_cong [OF queue_run_fifo [OF run], of "map job_key"]
    by (simp add: accepted_offered delivered_taken new_refresh_queue_def Let_def)
  moreover have "mset (refreshed es) \<subseteq># mset (taken es)"
  proof -
    have "held_keys (start_background queue_size workers) = {#}"
      by (simp add: held_keys_def start_background_def map_replicate_const [symmetric] concat_replicate_trivial)
    then have "held_keys b + mset (refreshed es) \<subseteq># mset (taken es)" using background_run_held [OF assms] by simp
    then show ?thesis by (rule subset_mset.order_trans [OF mset_subset_eq_add_right])
  qed
  ultimately show ?thesis using run by blast
qed

section \<open>Witness\<close>

text \<open>A sweep offers one key and the worker refreshes it.\<close>

lemma sample_job:
  "\<exists>b. background_run (start_background 2 1) [Sweep_Begins, Offered ''a'' True, Job_Taken ''a'', Refresh_Begins ''a''] b"
proof -
  let ?b = "start_background 2 1" let ?c = "?b\<lparr>bg_scheduler := Sched_Sweeping [''a'']\<rparr>"
  let ?q = "(bg_queue ?b)\<lparr>rq_keys := (rq_keys (bg_queue ?b))\<lparr>ch_buf := [\<lparr>job_key = ''a''\<rparr>]\<rparr>\<rparr>"
  let ?d = "?c\<lparr>bg_scheduler := Sched_Sweeping [], bg_queue := ?q\<rparr>"
  let ?e = "?d\<lparr>bg_workers := (bg_workers ?d)[0 := W_Holding ''a''], bg_queue := bg_queue ?b\<rparr>"
  let ?f = "?e\<lparr>bg_workers := (bg_workers ?e)[0 := W_Refreshing ''a'']\<rparr>"
  have one: "bg_workers ?b = [W_Dequeuing]" by (simp add: start_background_def normalize_worker_count_def)
  have queue: "bg_queue ?b = \<lparr>rq_closed = False, rq_keys = \<lparr>ch_buf = [], ch_cap = 2, ch_closed = False\<rparr>\<rparr>"
    by (simp add: start_background_def new_refresh_queue_def)
  have s1: "background_step ?b Sweep_Begins ?c"
    by (rule tick [THEN by_scheduler]) (simp add: start_background_def)
  have s2: "background_step ?c (Offered ''a'' True) ?d"
    by (rule offer [THEN by_scheduler]) (simp_all add: queue enqueue_def try_send_def)
  have s3: "background_step ?d (Job_Taken ''a'') ?e"
    using take [of 0 ?d "\<lparr>job_key = ''a''\<rparr>" "bg_queue ?b", THEN by_worker]
    by (simp add: one queue dequeue_def receive_def)
  have s4: "background_step ?e (Refresh_Begins ''a'') ?f"
    by (rule refresh_begins [THEN by_worker]) (simp_all add: one)
  show ?thesis
    by (rule exI, rule background_run_Cons [OF s1 background_run_Cons [OF s2 background_run_Cons [OF s3
            background_run_Cons [OF s4 bg_nil]]]])
qed

lemma jobs_reach_workers_witness:
  "\<exists>b :: background. offered [Sweep_Begins, Offered ''a'' True, Job_Taken ''a'', Refresh_Begins ''a''] =
     [''a''] @ map job_key (ch_buf (rq_keys (bg_queue b)))"
proof -
  obtain b where "background_run (start_background 2 1)
      [Sweep_Begins, Offered ''a'' True, Job_Taken ''a'', Refresh_Begins ''a''] b" using sample_job by blast
  moreover have "taken [Sweep_Begins, Offered ''a'' True, Job_Taken ''a'', Refresh_Begins ''a''] = [''a'']"
    by (simp add: taken_def)
  ultimately have "offered [Sweep_Begins, Offered ''a'' True, Job_Taken ''a'', Refresh_Begins ''a''] =
      [''a''] @ map job_key (ch_buf (rq_keys (bg_queue b)))" using jobs_reach_workers by metis
  then show ?thesis by (rule exI)
qed

end
