(* ===== verification/Go_Numbers.thy ===== *)
theory Go_Numbers
  imports Cache_Policy "HOL-Library.Log_Nat"
begin

text \<open>
  Numbers of the language and of \<open>strconv\<close>: the product of two \<open>float64\<close> values (the exact product
  rounded to nearest, ties to even), unsigned parsing and decimal printing, with the laws the
  components need: a product that is a 53-bit integer times a power of two is exact, and a printed
  number parses back.
\<close>

section \<open>Rounding to \<open>float64\<close>\<close>

definition round_half_even :: "rat \<Rightarrow> int" where
  "round_half_even q =
     (let f = \<lfloor>q\<rfloor>; r = q - of_int f
      in if r < 1 / 2 then f else if r > 1 / 2 then f + 1 else if even f then f else f + 1)"

definition power_of_two :: "int \<Rightarrow> rat" where
  "power_of_two e = (if 0 \<le> e then 2 ^ nat e else 1 / 2 ^ nat (- e))"

text \<open>The binary exponent of a positive number: \<open>2 ^ e \<le> q < 2 ^ (e + 1)\<close>.\<close>

definition binary_exponent :: "rat \<Rightarrow> int" where
  "binary_exponent q =
     (case quotient_of q of
        (n, d) \<Rightarrow> (let k = bitlen n - bitlen d in if power_of_two k \<le> q then k else k - 1))"

text \<open>53 significant bits, exponents down to \<open>-1074\<close>, infinity from \<open>2 ^ 1024\<close> on.\<close>

definition round_float :: "rat \<Rightarrow> float64" where
  "round_float q =
     (if q = 0 then Finite 0
      else
        (let a = \<bar>q\<bar>;
             e = max (- 1074) (binary_exponent a - 52);
             v = of_int (round_half_even (a / power_of_two e)) * power_of_two e
         in if v \<ge> 2 ^ 1024 then (if q < 0 then Neg_Inf else Pos_Inf)
            else Finite (if q < 0 then - v else v)))"

text \<open>The product with a positive finite constant.\<close>

definition float_times :: "float64 \<Rightarrow> rat \<Rightarrow> float64" where
  "float_times x c = (case x of Finite q \<Rightarrow> round_float (q * c) | y \<Rightarrow> y)"

lemma round_half_even_int [simp]: "round_half_even (of_int n) = n"
  by (simp add: round_half_even_def)

lemma power_of_two_pos [simp]: "0 < power_of_two e"
  by (simp add: power_of_two_def)

lemma power_of_two_add: "0 \<le> n \<Longrightarrow> power_of_two (e + n) = power_of_two e * 2 ^ nat n"
proof -
  assume n: "0 \<le> n"
  consider "0 \<le> e" | "e < 0" "e + n < 0" | "e < 0" "0 \<le> e + n" by linarith
  then show ?thesis
  proof cases
    case 2
    then have "nat (- e) = nat (- (e + n)) + nat n" using n by simp
    with 2 show ?thesis by (simp add: power_of_two_def power_add)
  next
    case 3
    then have "nat n = nat (e + n) + nat (- e)" using n by simp
    with 3 show ?thesis by (simp add: power_of_two_def power_add)
  qed (use n in \<open>simp add: power_of_two_def nat_add_distrib power_add\<close>)
qed

lemma power_of_two_le_iff: "power_of_two d \<le> power_of_two e \<longleftrightarrow> d \<le> e"
proof -
  have less: "power_of_two a < power_of_two b" if "a < b" for a b
    using power_of_two_add [of "b - a" a] one_less_power [of "2::rat" "nat (b - a)"] that by simp
  show ?thesis using less [of e d] less [of d e] by (cases d e rule: linorder_cases) auto
qed

lemma binary_exponent_le: "0 < q \<Longrightarrow> power_of_two (binary_exponent q) \<le> q"
proof -
  assume q: "0 < q"
  obtain n d where nd: "quotient_of q = (n, d)" by fastforce
  have d: "0 < d" and eq: "q = of_int n / of_int d"
    using quotient_of_denom_pos [OF nd] quotient_of_div [OF nd] by auto
  then have n: "0 < n" using q by (simp add: zero_less_divide_iff)
  let ?k = "bitlen n - bitlen d"
  have bn: "1 \<le> bitlen n" and bd: "1 \<le> bitlen d"
    using n d bitlen_nonneg [of n] bitlen_nonneg [of d] bitlen_eq_zero_iff [of n] bitlen_eq_zero_iff [of d]
    by linarith+
  have "(2::rat) ^ nat (bitlen n - 1) \<le> of_int n"
    using bitlen_bounds [OF n] by (metis of_int_le_iff of_int_numeral of_int_power)
  moreover have "of_int d \<le> (2::rat) ^ nat (bitlen d)"
    using bitlen_bounds [OF d] by (metis less_imp_le of_int_le_iff of_int_numeral of_int_power)
  moreover have "power_of_two (?k - 1) * 2 ^ nat (bitlen d) = 2 ^ nat (bitlen n - 1)"
    using power_of_two_add [of "bitlen d" "?k - 1"] bn bd by (simp add: power_of_two_def)
  ultimately have "power_of_two (?k - 1) * of_int d \<le> of_int n"
    by (smt (verit) mult_left_mono power_of_two_pos order_less_imp_le order_trans)
  then have "power_of_two (?k - 1) \<le> q" using d by (simp add: eq pos_le_divide_eq)
  then show ?thesis by (simp add: binary_exponent_def nd Let_def)
qed

lemma round_float_exact:
  assumes "0 < a" and "a < 2 ^ 53" and "j < 900"
  shows "round_float (of_int (a * 2 ^ j)) = Finite (of_int (a * 2 ^ j))"
proof -
  let ?q = "of_int (a * 2 ^ j) :: rat"
  let ?e = "max (- 1074) (binary_exponent ?q - 52)"
  have q: "0 < ?q" using assms(1) by simp
  have lt: "?q < power_of_two (53 + int j)"
  proof -
    have "a * 2 ^ j < 2 ^ 53 * 2 ^ j" using assms(2) by simp
    then have "?q < of_int (2 ^ 53 * 2 ^ j)" by (simp only: of_int_less_iff)
    then show ?thesis by (simp add: power_of_two_def power_add nat_add_distrib)
  qed
  have "power_of_two (binary_exponent ?q) < power_of_two (53 + int j)"
    using binary_exponent_le [OF q] lt by (rule le_less_trans)
  then have "binary_exponent ?q < 53 + int j" by (metis linorder_not_less power_of_two_le_iff)
  then have e: "?e \<le> int j" by simp
  define n where "n = nat (int j - ?e)"
  have "2 ^ j = power_of_two ?e * 2 ^ n"
    using power_of_two_add [of "int j - ?e" ?e] e by (simp add: power_of_two_def [of "int j"] n_def)
  then have eq: "?q = of_int (a * 2 ^ n) * power_of_two ?e" by (simp add: mult.commute)
  then have quo: "?q / power_of_two ?e = of_int (a * 2 ^ n)"
    using power_of_two_pos [of ?e] by (metis less_irrefl nonzero_mult_div_cancel_right)
  then have undo: "of_int (round_half_even (?q / power_of_two ?e)) * power_of_two ?e = ?q"
    using eq by (metis round_half_even_int)
  have "power_of_two (53 + int j) \<le> power_of_two 1024"
    using assms(3) by (simp add: power_of_two_le_iff)
  then have "?q < 2 ^ 1024" using lt by (simp add: power_of_two_def)
  then show ?thesis
    using q undo by (simp add: round_float_def Let_def)
qed

text \<open>Rounding does not take a large number below \<open>2 ^ 63\<close>.\<close>

lemma round_half_even_floor: "\<lfloor>q\<rfloor> \<le> round_half_even q"
  by (simp add: round_half_even_def Let_def)

lemma round_float_large:
  assumes "2 ^ 63 \<le> q"
  shows "round_float q = Pos_Inf \<or> (\<exists>v. round_float q = Finite v \<and> 2 ^ 63 \<le> v)"
proof -
  have q: "0 < q" using assms by (rule less_le_trans [rotated]) simp
  let ?e = "max (- 1074) (binary_exponent q - 52)"
  let ?P = "power_of_two ?e" and ?m = "q / power_of_two ?e"
  have P: "0 < ?P" by simp
  have "(2::rat) ^ 63 \<le> of_int \<lfloor>?m\<rfloor> * ?P"
  proof (cases "?e \<le> 63")
    case True
    define n where "n = nat (63 - ?e)"
    have eq: "(2::rat) ^ 63 = ?P * 2 ^ n"
      using power_of_two_add [of "63 - ?e" ?e] True by (simp add: power_of_two_def [of 63] n_def)
    then have "2 ^ n \<le> ?m" using assms P by (simp add: pos_le_divide_eq mult.commute)
    then have "(2 ^ n :: int) \<le> \<lfloor>?m\<rfloor>" by (simp add: le_floor_iff)
    then have le: "of_int (2 ^ n) * ?P \<le> of_int \<lfloor>?m\<rfloor> * ?P"
      using P by (intro mult_right_mono) (simp_all only: of_int_le_iff less_imp_le)
    have "(2::rat) ^ 63 = of_int (2 ^ n) * ?P" unfolding eq by (simp add: mult.commute)
    then show ?thesis using le by (rule ord_eq_le_trans)
  next
    case False
    then have e: "?e = binary_exponent q - 52" by simp
    have "?P \<le> power_of_two (binary_exponent q)" unfolding e by (simp add: power_of_two_le_iff)
    also have "\<dots> \<le> q" using q by (rule binary_exponent_le)
    finally have "1 \<le> ?m" using P by (simp add: pos_le_divide_eq)
    then have "(1 :: int) \<le> \<lfloor>?m\<rfloor>" by (simp add: le_floor_iff)
    then have "of_int 1 * ?P \<le> of_int \<lfloor>?m\<rfloor> * ?P"
      using P by (intro mult_right_mono) (simp_all only: of_int_le_iff less_imp_le)
    then have "?P \<le> of_int \<lfloor>?m\<rfloor> * ?P" by (simp only: of_int_1 mult_1)
    moreover have "power_of_two 63 \<le> ?P" using False by (simp add: power_of_two_le_iff)
    then have "(2::rat) ^ 63 \<le> ?P" by (simp add: power_of_two_def [of 63])
    ultimately show ?thesis by (rule order_trans [rotated])
  qed
  also have "\<dots> \<le> of_int (round_half_even ?m) * ?P"
    using P round_half_even_floor [of ?m] by (intro mult_right_mono) (simp_all only: of_int_le_iff less_imp_le)
  finally show ?thesis using q by (simp add: round_float_def Let_def)
qed

section \<open>Decimal texts\<close>

text \<open>\<open>strconv.AppendInt\<close> in base 10, and \<open>%d\<close> of an unsigned number.\<close>

fun show_nat :: "nat \<Rightarrow> string" where
  "show_nat n = (if n < 10 then [char_of (48 + n)] else show_nat (n div 10) @ [char_of (48 + n mod 10)])"

declare show_nat.simps [simp del]

definition show_int :: "int \<Rightarrow> string" where
  "show_int n = (if n < 0 then CHR ''-'' # show_nat (nat (- n)) else show_nat (nat n))"

text \<open>\<open>strconv.ParseUint\<close> in base 10: digits only, no sign.\<close>

definition parse_uint :: "nat \<Rightarrow> string \<Rightarrow> int option" where
  "parse_uint bits s =
     (if s \<noteq> [] \<and> list_all is_digit s \<and> digits_val s < 2 ^ bits then Some (digits_val s) else None)"

declare byte_char_of [simp]

lemma digits_val_snoc: "digits_val (s @ [c]) = 10 * digits_val s + digit_val c"
  by (simp add: digits_val_def)

lemma show_nat_digits: "list_all is_digit (show_nat n) \<and> show_nat n \<noteq> []"
proof (induction n rule: show_nat.induct)
  case (1 n)
  have "is_digit (char_of (48 + d))" if "d < 10" for d :: nat
    using that by (simp add: is_digit_def)
  then show ?case by (subst (1 2) show_nat.simps) (use 1 in auto)
qed

lemma digits_val_show [simp]: "digits_val (show_nat n) = int n"
proof (induction n rule: show_nat.induct)
  case (1 n)
  show ?case
  proof (cases "n < 10")
    case True
    then show ?thesis by (subst show_nat.simps) (simp add: digits_val_def digit_val_def)
  next
    case False
    then have "digits_val (show_nat n) = 10 * int (n div 10) + int (n mod 10)"
      by (subst show_nat.simps) (simp add: 1 digits_val_snoc digit_val_def)
    then show ?thesis using zdiv_int [of n 10] zmod_int [of n 10] by simp
  qed
qed

lemma show_nat_inj: "show_nat m = show_nat n \<Longrightarrow> m = n"
  by (metis digits_val_show of_nat_eq_iff)

lemma digit_plain: "is_digit c \<Longrightarrow> c \<noteq> CHR ''-'' \<and> c \<noteq> CHR ''+'' \<and> \<not> is_space_byte c \<and> is_ascii c"
  by (auto simp: is_digit_def is_space_byte_def is_ascii_def byte_def)

lemma atoi_show_int: "int64_range n \<Longrightarrow> atoi (show_int n) = Some n"
proof -
  assume n: "int64_range n"
  have hd: "is_digit (hd (show_nat m))" for m
    using show_nat_digits [of m] by (cases "show_nat m") auto
  show ?thesis
    using n show_nat_digits digit_plain [OF hd] by (simp add: atoi_def show_int_def Let_def)
qed

lemma digits_val_nonneg: "list_all is_digit s \<Longrightarrow> 0 \<le> digits_val s"
proof (induction s rule: rev_induct)
  case (snoc c s)
  then show ?case by (simp add: digits_val_snoc digit_val_def is_digit_def)
qed (simp add: digits_val_def)

lemma parse_uint_range: "parse_uint bits s = Some n \<Longrightarrow> n < 2 ^ bits"
  by (simp add: parse_uint_def split: if_splits)

end
