(* ===== verification/Config.thy ===== *)
theory Config
  imports Url_Validator Go_Numbers
begin

text \<open>
  \<open>internal/config/config.go\<close>: the configuration read from the environment. The environment is the
  function \<open>os.Getenv\<close> (the empty string for a variable that is not set). \<open>strconv.ParseFloat\<close> and
  \<open>time.ParseDuration\<close> are arguments, the fields of \<open>numlib\<close>; the text of their errors, and of those of
  \<open>strconv\<close>, is not part of the error values here.
\<close>

section \<open>Definitions\<close>

type_synonym environment = "string \<Rightarrow> string"

record numlib =
  parse_float :: "string \<Rightarrow> float64 option"
  parse_go_duration :: "string \<Rightarrow> duration option"

datatype config_error =
    Variable_Not_Set string
  | No_Tokens
  | Invalid_Variable string
  | Threshold_Negative
  | No_Hosts
  | Not_Greater_Than_Zero string
  | Port_Out_Of_Range

record config =
  github_pats :: "string list"
  api_usage_threshold :: int
  forwarded_allow_ips :: string
  allowed_upstream_hosts :: "string list"
  cache_policy :: policy
  config_port :: string

definition default_port :: string where
  "default_port = ''8000''"

definition default_allowed_upstream_hosts :: "string list" where
  "default_allowed_upstream_hosts =
     [''api.github.com'', ''uploads.github.com'', ''raw.githubusercontent.com'',
      ''codeload.github.com'', ''objects.githubusercontent.com'',
      ''github-releases.githubusercontent.com'']"

fun lower_trim_parts :: "golib \<Rightarrow> string list \<Rightarrow> string list" where
  "lower_trim_parts L [] = []"
| "lower_trim_parts L (part # parts) =
     (let trimmed = to_lower L (trim_space part)
      in if trimmed = [] then lower_trim_parts L parts else trimmed # lower_trim_parts L parts)"

definition parse_csv_lower_trim :: "golib \<Rightarrow> string \<Rightarrow> string list" where
  "parse_csv_lower_trim L value = lower_trim_parts L (split (CHR '','') value)"

fun dedup_parts :: "string list \<Rightarrow> string fset \<Rightarrow> string list" where
  "dedup_parts [] seen = []"
| "dedup_parts (part # parts) seen =
     (let token = trim_space part
      in if token = [] then dedup_parts parts seen
         else if token |\<in>| seen then dedup_parts parts seen
         else token # dedup_parts parts (finsert token seen))"

definition parse_csv_trim_deduplicated :: "string \<Rightarrow> string list" where
  "parse_csv_trim_deduplicated value = dedup_parts (split (CHR '','') value) {||}"

definition load_allowed_upstream_hosts :: "golib \<Rightarrow> environment \<Rightarrow> string list" where
  "load_allowed_upstream_hosts L env =
     (let raw = trim_space (env ''ALLOWED_UPSTREAM_HOSTS'')
      in if raw = [] then default_allowed_upstream_hosts else parse_csv_lower_trim L raw)"

definition validate_port :: "string \<Rightarrow> config_error option" where
  "validate_port raw =
     (case parse_uint 16 (trim_space raw) of
        None \<Rightarrow> Some Port_Out_Of_Range
      | Some port \<Rightarrow> if port = 0 then Some Port_Out_Of_Range else None)"

definition parse_env_positive_int :: "environment \<Rightarrow> string \<Rightarrow> int \<Rightarrow> config_error + int" where
  "parse_env_positive_int env name default_value =
     (let raw = trim_space (env name)
      in if raw = [] then Inr default_value
         else (case atoi raw of
                 None \<Rightarrow> Inl (Invalid_Variable name)
               | Some value \<Rightarrow> if value \<le> 0 then Inl (Not_Greater_Than_Zero name) else Inr value))"

text \<open>
  \<open>parseEnvPositiveInt64\<close> is the same function with \<open>strconv.ParseInt(raw, 10, 64)\<close> for \<open>strconv.Atoi\<close>, which
  agree on a 64-bit target.
\<close>

definition parse_env_positive_int64 :: "environment \<Rightarrow> string \<Rightarrow> int \<Rightarrow> config_error + int" where
  "parse_env_positive_int64 env name default_value = parse_env_positive_int env name default_value"

lemmas parse_env_positive_int64_simp [simp] = parse_env_positive_int64_def

text \<open>The test \<open>value <= 0\<close> is false for \<open>NaN\<close>.\<close>

definition float_not_positive :: "float64 \<Rightarrow> bool" where
  "float_not_positive x =
     (case x of Finite q \<Rightarrow> q \<le> 0 | Neg_Inf \<Rightarrow> True | Pos_Inf \<Rightarrow> False | Not_A_Number \<Rightarrow> False)"

definition parse_env_positive_float ::
  "numlib \<Rightarrow> environment \<Rightarrow> string \<Rightarrow> float64 \<Rightarrow> config_error + float64" where
  "parse_env_positive_float N env name default_value =
     (let raw = trim_space (env name)
      in if raw = [] then Inr default_value
         else (case parse_float N raw of
                 None \<Rightarrow> Inl (Invalid_Variable name)
               | Some value \<Rightarrow>
                   if float_not_positive value then Inl (Not_Greater_Than_Zero name) else Inr value))"

text \<open>
  A number of days too large for \<open>int64\<close> nanoseconds becomes what the conversion of \<open>float64\<close> gives on
  amd64, the least \<open>int64\<close> (see \<open>float_to_int64\<close>); on another target it may be another value.
\<close>

definition parse_duration :: "golib \<Rightarrow> numlib \<Rightarrow> string \<Rightarrow> duration option" where
  "parse_duration L N raw =
     (let value = trim_space (to_lower L raw)
      in if value \<noteq> [] \<and> last value = CHR ''d''
         then map_option (\<lambda>days. float_to_int64 (float_times days (of_int (24 * hour))))
                (parse_float N (trim_space (butlast value)))
         else parse_go_duration N value)"

definition parse_env_duration ::
  "golib \<Rightarrow> numlib \<Rightarrow> environment \<Rightarrow> string \<Rightarrow> duration \<Rightarrow> config_error + duration" where
  "parse_env_duration L N env name default_value =
     (let raw = trim_space (env name)
      in if raw = [] then Inr default_value
         else (case parse_duration L N raw of
                 None \<Rightarrow> Inl (Invalid_Variable name)
               | Some d \<Rightarrow> if d \<le> 0 then Inl (Not_Greater_Than_Zero name) else Inr d))"

text \<open>The early return on an error.\<close>

definition and_then :: "config_error + 'a \<Rightarrow> ('a \<Rightarrow> config_error + 'b) \<Rightarrow> config_error + 'b" where
  "and_then r f = (case r of Inl e \<Rightarrow> Inl e | Inr x \<Rightarrow> f x)"

definition load_cache_policy :: "golib \<Rightarrow> numlib \<Rightarrow> environment \<Rightarrow> config_error + policy" where
  "load_cache_policy L N env =
     (let p = default_policy in
      and_then (parse_env_duration L N env ''CACHE_HARD_TTL'' (hard_ttl p)) (\<lambda>hard.
      and_then (parse_env_duration L N env ''CACHE_NEGATIVE_TTL'' (negative_ttl p)) (\<lambda>negative.
      and_then (parse_env_duration L N env ''REVALIDATE_INTERVAL'' (revalidate_interval p)) (\<lambda>interval.
      and_then (parse_env_duration L N env ''REVALIDATE_LOOKBACK'' (revalidate_lookback p)) (\<lambda>lookback.
      and_then (parse_env_positive_int env ''REVALIDATE_WORKERS'' (revalidate_workers p)) (\<lambda>workers.
      and_then (parse_env_positive_int env ''REVALIDATE_PER_WORKER_RPS'' (revalidate_per_worker_rps p)) (\<lambda>rps.
      and_then (parse_env_positive_int env ''REFRESH_QUEUE_SIZE'' (refresh_queue_size p)) (\<lambda>queue.
      and_then (parse_env_positive_float N env ''CACHE_L1_MAX_GB'' (l1_max_gb p)) (\<lambda>gb.
      and_then (parse_env_positive_int64 env ''MAX_UPSTREAM_RESPONSE_BYTES''
                  (max_upstream_response_bytes p)) (\<lambda>bytes.
      and_then (parse_env_duration L N env ''SHUTDOWN_TIMEOUT'' (shutdown_timeout p)) (\<lambda>timeout.
        Inr \<lparr>hard_ttl = hard, negative_ttl = negative, revalidate_interval = interval,
             revalidate_lookback = lookback, revalidate_workers = workers,
             revalidate_per_worker_rps = rps, refresh_queue_size = queue, l1_max_gb = gb,
             max_upstream_response_bytes = bytes, shutdown_timeout = timeout\<rparr>)))))))))))"

definition load_config :: "golib \<Rightarrow> numlib \<Rightarrow> environment \<Rightarrow> config_error + config" where
  "load_config L N env =
     (case find (\<lambda>v. env v = []) [''GITHUB_PATS'', ''API_USAGE_THRESHOLD''] of
        Some v \<Rightarrow> Inl (Variable_Not_Set v)
      | None \<Rightarrow>
          (let pats = parse_csv_trim_deduplicated (env ''GITHUB_PATS'');
               hosts = load_allowed_upstream_hosts L env;
               trimmed = trim_space (env ''PORT'');
               port = (if trimmed = [] then default_port else trimmed)
           in if pats = [] then Inl No_Tokens
              else (case atoi (trim_space (env ''API_USAGE_THRESHOLD'')) of
                      None \<Rightarrow> Inl (Invalid_Variable ''API_USAGE_THRESHOLD'')
                    | Some threshold \<Rightarrow>
                        if threshold < 0 then Inl Threshold_Negative
                        else if hosts = [] then Inl No_Hosts
                        else and_then (load_cache_policy L N env) (\<lambda>p.
                          case validate_port port of
                            Some e \<Rightarrow> Inl e
                          | None \<Rightarrow>
                              Inr \<lparr>github_pats = pats, api_usage_threshold = threshold,
                                   forwarded_allow_ips = env ''FORWARDED_ALLOW_IPS'',
                                   allowed_upstream_hosts = hosts, cache_policy = p,
                                   config_port = port\<rparr>))))"

end
