(* ===== verification/Config_Properties.thy ===== *)
theory Config_Properties
  imports Config
begin

text \<open>
  What a loaded configuration satisfies: the lists parsed from comma-separated variables, the ranges of
  the numbers, the defaults, and durations given in days.
\<close>

section \<open>The parsers\<close>

lemmas and_then_simps [simp] = and_then_def [of "Inl e" f for e f] and_then_def [of "Inr x" f for x f]

lemma and_then_Inr [simp]: "and_then r f = Inr y \<longleftrightarrow> (\<exists>x. r = Inr x \<and> f x = Inr y)"
  by (simp add: and_then_def split: sum.splits)

lemma dedup_parts_set:
  "set (dedup_parts parts seen) = {t. t \<noteq> [] \<and> t |\<notin>| seen \<and> t \<in> trim_space ` set parts}"
  by (induction parts seen rule: dedup_parts.induct) (auto simp: Let_def)

lemma dedup_parts_distinct: "distinct (dedup_parts parts seen)"
  by (induction parts seen rule: dedup_parts.induct) (auto simp: Let_def dedup_parts_set)

lemma lower_trim_parts_set:
  "set (lower_trim_parts L parts) = {h. h \<noteq> [] \<and> h \<in> (\<lambda>p. to_lower L (trim_space p)) ` set parts}"
  by (induction L parts rule: lower_trim_parts.induct) (auto simp: Let_def)

lemma positive_int_env:
  "parse_env_positive_int env v d = Inr n \<Longrightarrow> 0 < d \<Longrightarrow> 0 < n"
  by (auto simp: parse_env_positive_int_def Let_def split: if_splits option.splits)

lemma duration_env: "parse_env_duration L N env v d = Inr n \<Longrightarrow> 0 < d \<Longrightarrow> 0 < n"
  by (auto simp: parse_env_duration_def Let_def split: if_splits option.splits)

lemma float_env:
  "parse_env_positive_float N env v d = Inr x \<Longrightarrow> \<not> float_not_positive d \<Longrightarrow> \<not> float_not_positive x"
  by (auto simp: parse_env_positive_float_def Let_def split: if_splits option.splits)

lemma blank_env [simp]:
  assumes "trim_space (env v) = []"
  shows "parse_env_positive_int env v n = Inr n" "parse_env_duration L N env v n = Inr n"
    "parse_env_positive_float N env v x = Inr x"
  using assms by (simp_all add: parse_env_positive_int_def parse_env_duration_def parse_env_positive_float_def)

section \<open>What a loaded configuration satisfies\<close>

definition policy_valid :: "policy \<Rightarrow> bool" where
  "policy_valid p \<longleftrightarrow>
     0 < hard_ttl p \<and> 0 < negative_ttl p \<and> 0 < revalidate_interval p \<and> 0 < revalidate_lookback p \<and>
     0 < revalidate_workers p \<and> 0 < revalidate_per_worker_rps p \<and> 0 < refresh_queue_size p \<and>
     \<not> float_not_positive (l1_max_gb p) \<and> 0 < max_upstream_response_bytes p \<and> 0 < shutdown_timeout p"

lemma default_policy_valid: "policy_valid default_policy"
  by (simp add: policy_valid_def default_policy_def float_not_positive_def)

lemma load_cache_policy_valid: "load_cache_policy L N env = Inr p \<Longrightarrow> policy_valid p"
  using default_policy_valid
  by (auto simp: load_cache_policy_def Let_def policy_valid_def
      dest!: positive_int_env duration_env float_env)

lemma validate_port_None:
  "validate_port port = None \<longleftrightarrow> (\<exists>n. parse_uint 16 (trim_space port) = Some n \<and> n \<noteq> 0)"
  by (auto simp: validate_port_def split: option.splits)

lemma load_config_Inr:
  "load_config L N env = Inr cfg \<longleftrightarrow>
     env ''GITHUB_PATS'' \<noteq> [] \<and> env ''API_USAGE_THRESHOLD'' \<noteq> [] \<and>
     github_pats cfg = parse_csv_trim_deduplicated (env ''GITHUB_PATS'') \<and> github_pats cfg \<noteq> [] \<and>
     atoi (trim_space (env ''API_USAGE_THRESHOLD'')) = Some (api_usage_threshold cfg) \<and>
     0 \<le> api_usage_threshold cfg \<and>
     forwarded_allow_ips cfg = env ''FORWARDED_ALLOW_IPS'' \<and>
     allowed_upstream_hosts cfg = load_allowed_upstream_hosts L env \<and> allowed_upstream_hosts cfg \<noteq> [] \<and>
     load_cache_policy L N env = Inr (cache_policy cfg) \<and>
     config_port cfg = (if trim_space (env ''PORT'') = [] then default_port else trim_space (env ''PORT'')) \<and>
     validate_port (config_port cfg) = None"
  by (cases cfg) (auto simp: load_config_def Let_def split: option.splits if_splits)

text \<open>
  C14. A configuration that loads is valid: at least one token, none blank and none twice; a threshold
  that is not negative; at least one upstream host and none blank; every duration, count and size of
  the cache policy greater than zero (the L1 size at least not comparably smaller); a port from 1 to
  65535.
\<close>

theorem loaded_config_valid:
  assumes "load_config L N env = Inr cfg"
  shows "github_pats cfg \<noteq> [] \<and> distinct (github_pats cfg) \<and>
     set (github_pats cfg) = {t. t \<noteq> [] \<and> t \<in> trim_space ` set (split (CHR '','') (env ''GITHUB_PATS''))} \<and>
     0 \<le> api_usage_threshold cfg \<and>
     allowed_upstream_hosts cfg \<noteq> [] \<and> [] \<notin> set (allowed_upstream_hosts cfg) \<and>
     policy_valid (cache_policy cfg) \<and>
     (\<exists>n. parse_uint 16 (config_port cfg) = Some n \<and> 1 \<le> n \<and> n < 65536)"
proof -
  note cfg = assms [unfolded load_config_Inr]
  have "distinct (github_pats cfg)"
    "set (github_pats cfg) = {t. t \<noteq> [] \<and> t \<in> trim_space ` set (split (CHR '','') (env ''GITHUB_PATS''))}"
    using cfg dedup_parts_distinct dedup_parts_set [of "split (CHR '','') (env ''GITHUB_PATS'')" "{||}"]
    by (simp_all add: parse_csv_trim_deduplicated_def)
  moreover have "[] \<notin> set (load_allowed_upstream_hosts L env)"
    by (simp add: load_allowed_upstream_hosts_def default_allowed_upstream_hosts_def Let_def
        parse_csv_lower_trim_def lower_trim_parts_set)
  moreover obtain n where n: "parse_uint 16 (trim_space (config_port cfg)) = Some n" "n \<noteq> 0"
    using cfg validate_port_None by blast
  have plain: "trim_space (config_port cfg) = config_port cfg"
    using cfg trim_space_plain [of default_port] by (simp add: default_port_def is_space_byte_def byte_def)
  have "0 \<le> n" using n(1) by (auto simp: parse_uint_def digits_val_nonneg split: if_splits)
  then have "1 \<le> n \<and> n < 65536" using n parse_uint_range [OF n(1)] by simp
  ultimately show ?thesis
    using cfg load_cache_policy_valid n(1) plain by auto
qed

lemma blank_cache_policy:
  assumes "\<And>v. v \<noteq> ''GITHUB_PATS'' \<Longrightarrow> v \<noteq> ''API_USAGE_THRESHOLD'' \<Longrightarrow> trim_space (env v) = []"
  shows "load_cache_policy L N env = Inr default_policy"
  by (simp add: load_cache_policy_def Let_def assms)

lemma default_port_valid: "validate_port default_port = None"
  using trim_space_plain [of default_port]
  by (simp add: validate_port_def default_port_def is_space_byte_def byte_def parse_uint_def
      is_digit_def digits_val_def digit_val_def)

text \<open>
  With only the two required variables set, everything else has its documented default: the six
  GitHub hosts, the default cache policy, port 8000 and no trusted proxy.
\<close>

theorem config_defaults:
  assumes "parse_csv_trim_deduplicated (env ''GITHUB_PATS'') \<noteq> []"
    and "atoi (trim_space (env ''API_USAGE_THRESHOLD'')) = Some n" and "0 \<le> n"
    and "\<And>v. v \<noteq> ''GITHUB_PATS'' \<Longrightarrow> v \<noteq> ''API_USAGE_THRESHOLD'' \<Longrightarrow> trim_space (env v) = []"
  shows "load_config L N env =
     Inr \<lparr>github_pats = parse_csv_trim_deduplicated (env ''GITHUB_PATS''), api_usage_threshold = n,
          forwarded_allow_ips = env ''FORWARDED_ALLOW_IPS'',
          allowed_upstream_hosts = [''api.github.com'', ''uploads.github.com'', ''raw.githubusercontent.com'',
            ''codeload.github.com'', ''objects.githubusercontent.com'', ''github-releases.githubusercontent.com''],
          cache_policy =
            \<lparr>hard_ttl = 24 * hour, negative_ttl = 5 * minute, revalidate_interval = minute,
             revalidate_lookback = 168 * hour, revalidate_workers = 2, revalidate_per_worker_rps = 1,
             refresh_queue_size = 256, l1_max_gb = Finite 1, max_upstream_response_bytes = 10485760,
             shutdown_timeout = 2 * second\<rparr>,
          config_port = ''8000''\<rparr>"
proof -
  have "env ''GITHUB_PATS'' \<noteq> []" "env ''API_USAGE_THRESHOLD'' \<noteq> []"
    using assms(1,2) trim_space_empty by (auto simp: parse_csv_trim_deduplicated_def Let_def atoi_def)
  moreover note blank_cache_policy [of env L N, OF assms(4)] default_port_valid
  ultimately show ?thesis
    using assms by (simp add: load_config_Inr load_allowed_upstream_hosts_def default_allowed_upstream_hosts_def
        default_port_def default_policy_def)
qed

section \<open>Durations in days\<close>

lemma digits_plain:
  assumes "list_all is_digit s" and "s \<noteq> []"
  shows "trim_space s = s" and "\<not> is_space_byte (hd s)"
proof -
  have "is_digit (hd s)" "is_digit (last s)" using assms by (auto simp: list_all_iff)
  then show "trim_space s = s" "\<not> is_space_byte (hd s)" using trim_space_plain digit_plain by auto
qed

lemma rat_trunc_int [simp]: "rat_trunc (of_int n) = n"
  by (simp add: rat_trunc_def flip: of_int_minus)

lemma days_product:
  assumes "1 \<le> n" and "n < 2 ^ 22"
  shows "float_times (Finite (of_int n)) (of_int (24 * hour)) = Finite (of_int (n * (24 * hour)))"
proof -
  have eq: "n * (24 * hour) = (n * 1318359375) * 2 ^ 16" by simp
  have "round_float (of_int (n * (24 * hour))) = Finite (of_int (n * (24 * hour)))"
    unfolding eq by (rule round_float_exact) (use assms in simp_all)
  then show ?thesis by (simp add: float_times_def)
qed

lemma large_to_int64:
  "x = Pos_Inf \<or> (\<exists>v. x = Finite v \<and> 2 ^ 63 \<le> v) \<Longrightarrow> float_to_int64 x = - (2 ^ 63)"
proof -
  have "\<not> int64_range (rat_trunc v)" if "2 ^ 63 \<le> v" for v
  proof -
    have "(2 ^ 63 :: int) \<le> \<lfloor>v\<rfloor>" using that by (simp add: le_floor_iff)
    moreover have "\<not> v < 0" using that by (simp add: not_less order_trans [OF _ that])
    ultimately show ?thesis by (simp add: rat_trunc_def int64_range_def)
  qed
  then show "x = Pos_Inf \<or> (\<exists>v. x = Finite v \<and> 2 ^ 63 \<le> v) \<Longrightarrow> float_to_int64 x = - (2 ^ 63)"
    by (auto simp: float_to_int64_def)
qed

lemma days_converted:
  assumes "1 \<le> n"
  shows "float_to_int64 (float_times (Finite (of_int n)) (of_int (24 * hour))) =
     (if n \<le> 106751 then n * (24 * hour) else - (2 ^ 63))"
proof (cases "n \<le> 106751")
  case True
  then have "n < 2 ^ 22" by simp
  from days_product [OF assms this] show ?thesis
    using True assms by (simp add: float_to_int64_def int64_range_def del: of_int_mult)
next
  case False
  then have "2 ^ 63 \<le> n * (24 * hour)" by simp
  then have "(2::rat) ^ 63 \<le> of_int (n * (24 * hour))"
    by (metis of_int_le_iff of_int_numeral of_int_power)
  from round_float_large [OF this] show ?thesis
    using False by (simp add: float_times_def large_to_int64)
qed

text \<open>
  C30. A whole number of days that a \<open>float64\<close> holds (as every one below \<open>2 ^ 53\<close>) is read exactly as
  long as its nanoseconds fit an \<open>int64\<close>: up to 106751 days the value is that many times 24 hours. From
  106752 on the product is out of the range of \<open>int64\<close>; Go leaves the result of that conversion to the
  implementation, and on amd64, where it is the least \<open>int64\<close>, the value is rejected (with the message
  for values that are not greater than zero).
\<close>

theorem days_read_exactly:
  assumes "trim_space (env v) = ds @ ''d''" and "ds \<noteq> []" and "list_all is_digit ds"
    and "parse_float N ds = Some (Finite (of_int (digits_val ds)))"
    and "1 \<le> digits_val ds"
  shows "parse_env_duration L N env v default_value =
     (if digits_val ds \<le> 106751 then Inr (digits_val ds * (24 * hour)) else Inl (Not_Greater_Than_Zero v))"
proof -
  have lower: "to_lower L (ds @ ''d'') = ds @ ''d''"
  proof -
    have "ascii_lower c = c" if "c \<in> set (ds @ ''d'')" for c
      using assms(3) that by (auto simp: list_all_iff is_digit_def ascii_lower_def is_upper_def byte_def)
    moreover have "list_all is_ascii (ds @ ''d'')"
      using assms(3) digit_plain by (auto simp: list_all_iff is_ascii_def byte_def)
    ultimately show ?thesis by (simp only: to_lower_def if_True map_idI)
  qed
  have plain: "trim_space (ds @ ''d'') = ds @ ''d''" using assms(1) trim_space_idem by metis
  have "parse_duration L N (ds @ ''d'') =
      Some (float_to_int64 (float_times (Finite (of_int (digits_val ds))) (of_int (24 * hour))))"
    using digits_plain [OF assms(3,2)] assms(4)
    by (simp add: parse_duration_def lower plain Let_def butlast_append)
  then show ?thesis
    using assms(1,5) unfolding days_converted [OF assms(5)] by (simp add: parse_env_duration_def)
qed

section \<open>Witnesses\<close>

text \<open>An environment with the required variables, and a library that reads digits.\<close>

definition sample_environment :: environment where
  "sample_environment = (\<lambda>_. [])(''GITHUB_PATS'' := ''t1,t2,t1'', ''API_USAGE_THRESHOLD'' := ''50'',
     ''CACHE_HARD_TTL'' := ''7d'', ''CACHE_NEGATIVE_TTL'' := ''200000d'')"

definition sample_numlib :: numlib where
  "sample_numlib = \<lparr>parse_float = (\<lambda>s. if s \<noteq> [] \<and> list_all is_digit s
       then Some (Finite (of_int (digits_val s))) else None), parse_go_duration = (\<lambda>_. None)\<rparr>"

definition empty_lib :: golib where
  "empty_lib = \<lparr>lib_lower = id, lib_equal_fold = (\<lambda>_ _. False), lib_parse = (\<lambda>_. None), lib_sha256 = id,
     lib_json_valid = (\<lambda>_. False), lib_json_decode = (\<lambda>_. None), lib_json_encode = (\<lambda>_. None)\<rparr>"

lemma sample_config_ok:
  "parse_csv_trim_deduplicated (sample_environment ''GITHUB_PATS'') = [''t1'', ''t2'']"
  "atoi (trim_space (sample_environment ''API_USAGE_THRESHOLD'')) = Some 50"
  by (simp_all add: sample_environment_def parse_csv_trim_deduplicated_def trim_space_plain is_space_byte_def
      byte_def atoi_def is_digit_def digits_val_def digit_val_def int64_range_def)

lemma sample_days:
  "digits_val ''7'' = 7" "list_all is_digit ''7''" "trim_space (sample_environment ''CACHE_HARD_TTL'') = ''7'' @ ''d''"
  "digits_val ''200000'' = 200000" "list_all is_digit ''200000''"
  "trim_space (sample_environment ''CACHE_NEGATIVE_TTL'') = ''200000'' @ ''d''"
  by (simp_all add: digits_val_def digit_val_def is_digit_def byte_def sample_environment_def
      trim_space_plain is_space_byte_def)

lemma days_read_exactly_witness:
  "parse_env_duration empty_lib sample_numlib sample_environment ''CACHE_HARD_TTL'' 1 = Inr (168 * hour) \<and>
   parse_env_duration empty_lib sample_numlib sample_environment ''CACHE_NEGATIVE_TTL'' 1 =
     Inl (Not_Greater_Than_Zero ''CACHE_NEGATIVE_TTL'')"
proof -
  have "parse_float sample_numlib ''7'' = Some (Finite (of_int (digits_val ''7'')))"
    "parse_float sample_numlib ''200000'' = Some (Finite (of_int (digits_val ''200000'')))"
    using sample_days(2,5) by (simp_all add: sample_numlib_def)
  then show ?thesis
    using days_read_exactly [of sample_environment "''CACHE_HARD_TTL''" "''7''" sample_numlib empty_lib 1]
      days_read_exactly [of sample_environment "''CACHE_NEGATIVE_TTL''" "''200000''" sample_numlib empty_lib 1]
      sample_days by simp
qed

text \<open>The same with every other variable blank.\<close>

definition minimal_environment :: environment where
  "minimal_environment = (\<lambda>_. [])(''GITHUB_PATS'' := ''t1,t2,t1'', ''API_USAGE_THRESHOLD'' := ''50'')"

lemma minimal_config_ok:
  "parse_csv_trim_deduplicated (minimal_environment ''GITHUB_PATS'') = [''t1'', ''t2'']"
  "atoi (trim_space (minimal_environment ''API_USAGE_THRESHOLD'')) = Some 50"
  using sample_config_ok by (simp_all add: minimal_environment_def sample_environment_def)

lemma minimal_blank:
  "v \<noteq> ''GITHUB_PATS'' \<Longrightarrow> v \<noteq> ''API_USAGE_THRESHOLD'' \<Longrightarrow> trim_space (minimal_environment v) = []"
  by (simp add: minimal_environment_def)

lemma config_defaults_witness:
  "\<exists>cfg. load_config empty_lib sample_numlib minimal_environment = Inr cfg \<and>
     config_port cfg = ''8000'' \<and> github_pats cfg = [''t1'', ''t2''] \<and> length (allowed_upstream_hosts cfg) = 6"
proof -
  have "parse_csv_trim_deduplicated (minimal_environment ''GITHUB_PATS'') \<noteq> []"
    by (simp add: minimal_config_ok(1))
  from config_defaults [of minimal_environment 50 empty_lib sample_numlib, OF this minimal_config_ok(2) _ minimal_blank]
  show ?thesis by (simp add: minimal_config_ok(1))
qed

lemma minimal_loads: "\<exists>cfg. load_config L N minimal_environment = Inr cfg"
proof
  show "load_config L N minimal_environment =
      Inr \<lparr>github_pats = [''t1'', ''t2''], api_usage_threshold = 50, forwarded_allow_ips = [],
        allowed_upstream_hosts = default_allowed_upstream_hosts, cache_policy = default_policy,
        config_port = default_port\<rparr>"
    using blank_cache_policy [of minimal_environment L N, OF minimal_blank] default_port_valid minimal_config_ok
    by (simp add: load_config_Inr load_allowed_upstream_hosts_def minimal_blank)
      (simp add: minimal_environment_def default_allowed_upstream_hosts_def)
qed

lemma loaded_config_valid_witness:
  "\<exists>cfg. load_config empty_lib sample_numlib minimal_environment = Inr cfg \<and>
     distinct (github_pats cfg) \<and> policy_valid (cache_policy cfg)"
  using minimal_loads [of empty_lib sample_numlib] loaded_config_valid by blast

end
