(* ===== verification/Http_Api.thy ===== *)
theory Http_Api
  imports Version_Handle Go_Numbers
begin

text \<open>
  Package \<open>internal/httpapi\<close>: the router and the four endpoints. The HTTP server (\<open>fasthttp\<close>) is a
  third-party package: a request is the record of the values its getters return, and a handler's
  effect on the response is the list of the calls it makes on the context, in order. \<open>status_set\<close>,
  \<open>header_set\<close> and \<open>body_written\<close> read such a list as the package documents its setters: a later
  status or header replaces an earlier one, and writes append.
\<close>

section \<open>Requests and calls on the response\<close>

record request_ctx =
  ctx_path :: string
  ctx_method :: string
  ctx_query_arg :: "string \<Rightarrow> string"
  ctx_header :: "string \<Rightarrow> string"
  ctx_protocol :: string
  ctx_remote_addr :: "string option"

datatype ctx_call =
    Set_Content_Type string
  | Set_Header string string
  | Set_Status int
  | Write_Body string
  | Set_Body string
  | Not_Found

definition is_get :: "request_ctx \<Rightarrow> bool" where
  "is_get ctx \<longleftrightarrow> ctx_method ctx = ''GET''"

fun status_after :: "int option \<Rightarrow> ctx_call list \<Rightarrow> int option" where
  "status_after st [] = st"
| "status_after st (Set_Status n # cs) = status_after (Some n) cs"
| "status_after st (Not_Found # cs) = status_after (Some 404) cs"
| "status_after st (c # cs) = status_after st cs"

definition status_set :: "ctx_call list \<Rightarrow> int option" where
  "status_set = status_after None"

fun header_after :: "string option \<Rightarrow> string \<Rightarrow> ctx_call list \<Rightarrow> string option" where
  "header_after v k [] = v"
| "header_after v k (Set_Header k' v' # cs) = header_after (if k' = k then Some v' else v) k cs"
| "header_after v k (Set_Content_Type t # cs) =
     header_after (if k = ''Content-Type'' then Some t else v) k cs"
| "header_after v k (c # cs) = header_after v k cs"

definition header_set :: "ctx_call list \<Rightarrow> string \<Rightarrow> string option" where
  "header_set cs k = header_after None k cs"

fun body_after :: "string \<Rightarrow> ctx_call list \<Rightarrow> string" where
  "body_after b [] = b"
| "body_after b (Write_Body s # cs) = body_after (b @ s) cs"
| "body_after b (Set_Body s # cs) = body_after s cs"
| "body_after b (c # cs) = body_after b cs"

definition body_written :: "ctx_call list \<Rightarrow> string" where
  "body_written = body_after []"

section \<open>JSON bodies\<close>

text \<open>\<open>json.NewEncoder(ctx).Encode\<close>: the text and a newline, or nothing on an error.\<close>

definition encode_json :: "golib \<Rightarrow> json \<Rightarrow> ctx_call list" where
  "encode_json L j = (case lib_json_encode L j of None \<Rightarrow> [] | Some t \<Rightarrow> [Write_Body (t @ newline)])"

text \<open>The fields of \<open>ErrorResponse\<close> with their tags.\<close>

definition error_json :: "error_response \<Rightarrow> json" where
  "error_json e =
     JObj ([(''error'', JStr (er_error e))] @
       (if er_detail e = [] then [] else [(''detail'', JStr (er_detail e))]) @
       (case er_message e of None \<Rightarrow> [] | Some m \<Rightarrow> [(''message'', m)]))"

text \<open>An empty raw message is the nil slice of an empty payload, which is encoded as \<open>null\<close>.\<close>

definition write_json :: "golib \<Rightarrow> int \<Rightarrow> resp_content \<Rightarrow> ctx_call list" where
  "write_json L status content =
     Set_Status status #
     (case content of
        Raw_Body b \<Rightarrow> if b \<noteq> [] then [Write_Body b, Write_Body newline] else encode_json L JNull
      | Error_Body e \<Rightarrow> encode_json L (error_json e)
      | Map_Body j \<Rightarrow> encode_json L j)"

section \<open>\<open>/version\<close>\<close>

definition upstream_status_header :: "int \<Rightarrow> ctx_call" where
  "upstream_status_header status =
     (if status = 0 then Set_Header ''X-Upstream-Status'' ''0''
      else Set_Header ''X-Upstream-Status'' (show_int status))"

definition version_request :: "golib \<Rightarrow> (request_ctx \<Rightarrow> string) option \<Rightarrow> request_ctx \<Rightarrow> request" where
  "version_request L resolve ctx =
     \<lparr>raw_url = ctx_query_arg ctx ''url'',
      client_ip = (case resolve of None \<Rightarrow> [] | Some f \<Rightarrow> f ctx),
      request_uri = ''/version'',
      force_refresh = equal_fold L (ctx_query_arg ctx ''refresh'') ''true''\<rparr>"

definition version_reply :: "golib \<Rightarrow> response \<Rightarrow> ctx_call list" where
  "version_reply L r =
     [Set_Header ''X-Cache'' (if cache_status r = [] then cache_status_bypass else cache_status r),
      Set_Header ''X-Cache-Key'' (cache_key r),
      upstream_status_header (upstream_status r)] @
     write_json L (if status_code r = 0 then 200 else status_code r) (resp_content r)"

definition handle_version ::
  "golib \<Rightarrow> (request \<Rightarrow> 's \<Rightarrow> response \<times> 's \<times> upstream_call list) option \<Rightarrow>
   (request_ctx \<Rightarrow> string) option \<Rightarrow> request_ctx \<Rightarrow> 's \<Rightarrow> ctx_call list \<times> 's \<times> upstream_call list" where
  "handle_version L service resolve ctx s =
     (case service of
        None \<Rightarrow>
          (Set_Content_Type ''application/json'' #
             write_json L 503 (error_body ''Service unavailable'' ''version service is not configured''), s, [])
      | Some h \<Rightarrow>
          (case h (version_request L resolve ctx) s of
             (r, s', calls) \<Rightarrow> (Set_Content_Type ''application/json'' # version_reply L r, s', calls)))"

section \<open>\<open>/ping\<close>, \<open>/healthz\<close> and \<open>/metrics\<close>\<close>

definition ping_calls :: "golib \<Rightarrow> ctx_call list" where
  "ping_calls L =
     Set_Content_Type ''application/json'' #
     encode_json L (JObj [(''status'', JStr ''ok''), (''message'', JStr ''Service is up and running'')])"

definition is_request_serving :: "bool option \<Rightarrow> bool" where
  "is_request_serving check = (case check of None \<Rightarrow> True | Some b \<Rightarrow> b)"

definition health_calls :: "golib \<Rightarrow> bool option \<Rightarrow> ctx_call list" where
  "health_calls L check =
     (let serving = is_request_serving check;
          dependency = (if serving then JObj [(''status'', JStr ''up'')]
                        else JObj [(''status'', JStr ''down''), (''error'', JStr ''request path is not ready'')])
      in [Set_Content_Type ''application/json'', Set_Status (if serving then 200 else 503)] @
         encode_json L
           (JObj [(''status'', JStr (if serving then ''healthy'' else ''unhealthy'')),
                  (''dependencies'', JObj [(''request_path'', dependency)])]))"

definition write_counter :: "string \<Rightarrow> string \<Rightarrow> 64 word \<Rightarrow> string" where
  "write_counter name help value =
     ''# HELP '' @ name @ '' '' @ help @ newline @
     ''# TYPE '' @ name @ '' counter'' @ newline @
     name @ '' '' @ show_nat (unat value) @ newline"

definition metric_counters :: "snapshot \<Rightarrow> (string \<times> string \<times> 64 word) list" where
  "metric_counters s =
     [(''svm_cache_hits_total'', ''Total number of cache hits.'', snap_cache_hits s),
      (''svm_cache_misses_total'', ''Total number of cache misses.'', snap_cache_misses s),
      (''svm_revalidate_runs_total'', ''Total number of revalidation runs.'', snap_revalidate_runs s),
      (''svm_upstream_requests_total'', ''Total number of upstream requests.'', snap_upstream_requests s),
      (''svm_upstream_errors_total'', ''Total number of upstream errors.'', snap_upstream_errors s),
      (''svm_refresh_updated_total'',
       ''Total number of background refreshes that updated cache records.'', snap_refresh_updated s),
      (''svm_refresh_not_modified_total'',
       ''Total number of background refreshes resolved by 304 Not Modified.'', snap_refresh_not_mod s),
      (''svm_refresh_skipped_total'',
       ''Total number of background refreshes skipped without an upstream call.'', snap_refresh_skipped s),
      (''svm_refresh_failed_total'', ''Total number of background refreshes that failed.'', snap_refresh_failed s),
      (''svm_refresh_processed_total'',
       ''Total number of background refresh queue jobs processed by workers.'', snap_refresh_processed s),
      (''svm_access_log_dropped_total'',
       ''Total number of access-log entries dropped due to queue backpressure.'', snap_access_log_dropped s)]"

definition metrics_page :: "snapshot \<Rightarrow> string" where
  "metrics_page s = concat (map (\<lambda>(name, help, value). write_counter name help value) (metric_counters s))"

definition metrics_calls :: "metrics option \<Rightarrow> ctx_call list" where
  "metrics_calls m =
     [Set_Status 200, Set_Content_Type ''text/plain; version=0.0.4; charset=utf-8'',
      Write_Body (metrics_page (metrics_snapshot m))]"

section \<open>Routing\<close>

definition method_not_allowed :: "ctx_call list" where
  "method_not_allowed = [Set_Header ''Allow'' ''GET'', Set_Status 405, Set_Body ''Method Not Allowed'']"

text \<open>A handler with its effect on the state behind the endpoints and the upstream calls it makes.\<close>

type_synonym 's handler = "request_ctx \<Rightarrow> 's \<Rightarrow> ctx_call list \<times> 's \<times> upstream_call list"

record 's handlers =
  hs_version :: "'s handler"
  hs_ping :: "'s handler"
  hs_health :: "'s handler"
  hs_metrics :: "'s handler"

definition only_get :: "'s handler \<Rightarrow> 's handler" where
  "only_get h ctx s = (if \<not> is_get ctx then (method_not_allowed, s, []) else h ctx s)"

definition new_router :: "'s handlers \<Rightarrow> 's handler" where
  "new_router routes ctx s =
     (if ctx_path ctx = ''/version'' then only_get (hs_version routes) ctx s
      else if ctx_path ctx = ''/ping'' then only_get (hs_ping routes) ctx s
      else if ctx_path ctx = ''/healthz'' then only_get (hs_health routes) ctx s
      else if ctx_path ctx = ''/metrics'' then only_get (hs_metrics routes) ctx s
      else ([Not_Found], s, []))"

text \<open>The hook sees the request and the calls already made on its response.\<close>

definition with_access_log ::
  "'s handler \<Rightarrow> (request_ctx \<Rightarrow> ctx_call list \<Rightarrow> 's \<Rightarrow> 's) option \<Rightarrow> 's handler" where
  "with_access_log next_handler hook ctx s =
     (case hook of
        None \<Rightarrow> next_handler ctx s
      | Some h \<Rightarrow> (case next_handler ctx s of (cs, s', calls) \<Rightarrow> (cs, h ctx cs s', calls)))"

end
