(* ===== verification/Http_Properties.thy ===== *)
theory Http_Properties
  imports Http_Api
begin

text \<open>
  What the endpoints write: the reply to a version request carries the service's response faithfully,
  and the metrics page can be read back line by line.
\<close>

section \<open>Reading the calls\<close>

lemma status_encode [simp]: "status_after st (encode_json L j) = st"
  by (simp add: encode_json_def split: option.splits)

lemma header_encode [simp]: "header_after v k (encode_json L j) = v"
  by (simp add: encode_json_def split: option.splits)

lemma write_json_reads [simp]:
  "status_after st (write_json L n c) = Some n" "header_after v k (write_json L n c) = v"
  by (simp_all add: write_json_def split: resp_content.splits)

lemma write_json_raw: "b \<noteq> [] \<Longrightarrow> body_after x (write_json L n (Raw_Body b)) = x @ b @ newline"
  by (simp add: write_json_def)

lemma upstream_status_text:
  "upstream_status_header n = Set_Header ''X-Upstream-Status'' (show_int n)"
proof -
  have "char_of (48 :: nat) = CHR ''0''" by (simp add: char_of_eq_iff)
  then show ?thesis by (simp add: upstream_status_header_def show_int_def show_nat.simps)
qed

section \<open>The version reply\<close>

text \<open>
  C25. A version request with a service configured is answered with the service's response: its
  status (200 when it has none), its cache status (\<open>BYPASS\<close> when it has none), its key, the upstream
  status as a decimal that reads back as the same number, and a raw payload byte for byte followed by
  a newline. The service is asked exactly once: for the query's \<open>url\<close>, on behalf of the resolved
  client address, and with a forced refresh exactly if the query's \<open>refresh\<close> is \<open>true\<close> up to case.
\<close>

theorem version_reply_faithful:
  assumes "handle_version L (Some h) resolve ctx s = (cs, s', calls)"
    and "h \<lparr>raw_url = ctx_query_arg ctx ''url'',
            client_ip = (case resolve of None \<Rightarrow> [] | Some f \<Rightarrow> f ctx), request_uri = ''/version'',
            force_refresh = equal_fold L (ctx_query_arg ctx ''refresh'') ''true''\<rparr> s = (r, s1, calls1)"
    and "int64_range (upstream_status r)"
  shows "s' = s1 \<and> calls = calls1 \<and>
     status_set cs = Some (if status_code r = 0 then 200 else status_code r) \<and>
     header_set cs ''X-Cache'' = Some (if cache_status r = [] then ''BYPASS'' else cache_status r) \<and>
     header_set cs ''X-Cache-Key'' = Some (cache_key r) \<and>
     (\<exists>t. header_set cs ''X-Upstream-Status'' = Some t \<and> atoi t = Some (upstream_status r)) \<and>
     (\<forall>b. resp_content r = Raw_Body b \<and> b \<noteq> [] \<longrightarrow> body_written cs = b @ newline)"
proof -
  have cs: "cs = Set_Content_Type ''application/json'' # version_reply L r" "s' = s1" "calls = calls1"
    using assms(1,2) by (simp_all add: handle_version_def version_request_def)
  have "body_written cs = b @ newline" if "resp_content r = Raw_Body b" "b \<noteq> []" for b
    using that write_json_raw [of b "[]"] unfolding cs(1)
    by (simp add: body_written_def version_reply_def upstream_status_text)
  then show ?thesis
    using atoi_show_int [OF assms(3)] unfolding cs
    by (simp add: status_set_def header_set_def version_reply_def upstream_status_text cache_status_bypass_def)
qed

text \<open>A request, and a service that answers every request with a hit on its URL.\<close>

definition sample_ctx :: "string \<Rightarrow> string \<Rightarrow> request_ctx" where
  "sample_ctx path method =
     \<lparr>ctx_path = path, ctx_method = method, ctx_query_arg = (\<lambda>a. if a = ''url'' then ''x'' else []),
      ctx_header = (\<lambda>_. []), ctx_protocol = ''HTTP/1.1'', ctx_remote_addr = None\<rparr>"

definition echo_hit :: "request \<Rightarrow> unit \<Rightarrow> response \<times> unit \<times> upstream_call list" where
  "echo_hit req u = (hit_response ''k'' 200 (empty_record\<lparr>payload := raw_url req\<rparr>), u, [])"

lemma version_reply_faithful_witness:
  "\<forall>L. \<exists>cs. handle_version L (Some echo_hit) None (sample_ctx ''/version'' ''GET'') () = (cs, (), []) \<and>
     status_set cs = Some 200 \<and> header_set cs ''X-Cache'' = Some ''HIT'' \<and> body_written cs = ''x'' @ newline"
proof
  fix L
  let ?ctx = "sample_ctx ''/version'' ''GET''" and ?r = "hit_response ''k'' 200 (empty_record\<lparr>payload := ''x''\<rparr>)"
  obtain cs where cs: "handle_version L (Some echo_hit) None ?ctx () = (cs, (), [])"
    by (simp add: handle_version_def echo_hit_def)
  have "echo_hit \<lparr>raw_url = ctx_query_arg ?ctx ''url'', client_ip = (case None of None \<Rightarrow> [] | Some f \<Rightarrow> f ?ctx),
      request_uri = ''/version'', force_refresh = equal_fold L (ctx_query_arg ?ctx ''refresh'') ''true''\<rparr> () =
      (?r, (), [])"
    by (simp add: echo_hit_def sample_ctx_def)
  from version_reply_faithful [OF cs this] cs
  show "\<exists>cs. handle_version L (Some echo_hit) None ?ctx () = (cs, (), []) \<and>
     status_set cs = Some 200 \<and> header_set cs ''X-Cache'' = Some ''HIT'' \<and> body_written cs = ''x'' @ newline"
    by (simp add: hit_response_def int64_range_def cache_status_hit_def)
qed

section \<open>The metrics page\<close>

definition counter_lines :: "string \<times> string \<times> 64 word \<Rightarrow> string list" where
  "counter_lines c =
     (case c of (name, help, value) \<Rightarrow>
        [''# HELP '' @ name @ '' '' @ help, ''# TYPE '' @ name @ '' counter'',
         name @ '' '' @ show_nat (unat value)])"

lemma split_line: "c \<notin> set l \<Longrightarrow> split c (l @ c # rest) = l # split c rest"
  by (induction l) (auto split: list.splits)

lemma split_lines:
  "c \<notin> set a \<Longrightarrow> c \<notin> set b \<Longrightarrow> c \<notin> set d \<Longrightarrow>
   split c (a @ c # b @ c # d @ c # rest) = [a, b, d] @ split c rest"
  by (simp add: split_line)

lemma show_nat_line: "CHR 0x0A \<notin> set (show_nat n)"
proof
  assume "CHR 0x0A \<in> set (show_nat n)"
  then have "is_digit (CHR 0x0A)" using show_nat_digits [of n] by (auto simp: list_all_iff)
  then show False by (simp add: is_digit_def byte_def)
qed

lemma counters_plain:
  "list_all (\<lambda>(name, help, value). CHR 0x0A \<notin> set name \<and> CHR 0x0A \<notin> set help) (metric_counters s)"
  by (simp add: metric_counters_def)

lemma split_counters:
  assumes "list_all (\<lambda>(name, help, value). CHR 0x0A \<notin> set name \<and> CHR 0x0A \<notin> set help) cs"
  shows "split (CHR 0x0A) (concat (map (\<lambda>(name, help, value). write_counter name help value) cs)) =
    concat (map counter_lines cs) @ [[]]"
  using assms
proof (induction cs)
  case (Cons c cs)
  obtain n h v where c: "c = (n, h, v)" by (cases c)
  have plain: "CHR 0x0A \<notin> set (''# HELP '' @ n @ '' '' @ h)" "CHR 0x0A \<notin> set (''# TYPE '' @ n @ '' counter'')"
    "CHR 0x0A \<notin> set (n @ '' '' @ show_nat (unat v))"
    using Cons.prems c show_nat_line by auto
  have "write_counter n h v @ rest =
      (''# HELP '' @ n @ '' '' @ h) @ CHR 0x0A # (''# TYPE '' @ n @ '' counter'') @ CHR 0x0A #
      (n @ '' '' @ show_nat (unat v)) @ CHR 0x0A # rest" for rest
    by (simp add: write_counter_def)
  then have "split (CHR 0x0A) (write_counter n h v @ rest) = counter_lines c @ split (CHR 0x0A) rest" for rest
    using split_lines [OF plain, of rest] by (simp add: counter_lines_def c)
  then show ?case using Cons c by simp
qed simp

lemma metrics_page_lines:
  "split (CHR 0x0A) (metrics_page s) = concat (map counter_lines (metric_counters s)) @ [[]]"
  unfolding metrics_page_def by (rule split_counters [OF counters_plain])

lemma metrics_body: "body_written (metrics_calls m) = metrics_page (metrics_snapshot m)"
  by (simp add: metrics_calls_def body_written_def)

text \<open>
  C34. The metrics page can be read back: of the lines of the page for the counters \<open>m\<close>, those that are
  no comments are the eleven names, each with the value of its own counter in decimal; each name is
  declared as a counter; and two states of the counters give the same page only if they agree in all
  eleven.
\<close>

theorem metrics_page_readable:
  "let page = (\<lambda>m. split (CHR 0x0A) (body_written (metrics_calls (Some m))));
       line = (\<lambda>(name, n). name @ '' '' @ show_nat (unat n));
       counters = (\<lambda>m :: metrics.
         [(''svm_cache_hits_total'', cache_hits m),
          (''svm_cache_misses_total'', cache_misses m),
          (''svm_revalidate_runs_total'', revalidate_runs m),
          (''svm_upstream_requests_total'', upstream_requests m),
          (''svm_upstream_errors_total'', upstream_errors m),
          (''svm_refresh_updated_total'', refresh_updated m),
          (''svm_refresh_not_modified_total'', refresh_not_mod m),
          (''svm_refresh_skipped_total'', refresh_skipped m),
          (''svm_refresh_failed_total'', refresh_failed m),
          (''svm_refresh_processed_total'', refresh_processed m),
          (''svm_access_log_dropped_total'', access_log_dropped m)])
   in filter (\<lambda>l. l \<noteq> [] \<and> take 1 l \<noteq> ''#'') (page m) = map line (counters m) \<and>
      filter (\<lambda>l. take 7 l = ''# TYPE '') (page m) =
        map (\<lambda>c. ''# TYPE '' @ fst c @ '' counter'') (counters m) \<and>
      (page m = page m' \<longleftrightarrow> counters m = counters m')"
proof -
  have lines: "split (CHR 0x0A) (body_written (metrics_calls (Some x))) =
      concat (map counter_lines (metric_counters (metrics_snapshot (Some x)))) @ [[]]" for x :: metrics
    by (simp add: metrics_body metrics_page_lines)
  show ?thesis
    unfolding lines Let_def
    by (auto simp: metric_counters_def counter_lines_def metrics_snapshot_def dest!: show_nat_inj
        simp: word_unat_eq_iff)
qed

end
