(* ===== verification/Access_Log.thy ===== *)
theory Access_Log
  imports Refresh_Queue Metrics
begin

text \<open>
  The access log of \<open>cmd/svm/main.go\<close>: request goroutines put entries into a bounded channel without
  blocking, one goroutine writes them, and the shutdown closes the channel. \<open>requestLogQueue\<close> is set
  to nil under the write lock in the same section that closes it, and is read and sent to under the
  read lock, so each of these sections is an atomic step.
\<close>

section \<open>State\<close>

record request_log_entry =
  log_client_ip :: string
  log_method :: string
  log_request_uri :: string
  log_upstream_url :: string
  log_proto :: string
  log_status :: int

text \<open>
  \<open>lg_queue_set\<close> says that \<open>app.requestLogQueue\<close> is not nil; \<open>lg_channel\<close> is the channel itself, which
  the writing goroutine holds too; \<open>lg_written\<close> the entries written so far; \<open>lg_done\<close> that the
  goroutine has returned and closed \<open>requestLogDone\<close>; \<open>lg_done_set\<close> that \<open>app.requestLogDone\<close> is not nil.
\<close>

record request_log =
  lg_queue_set :: bool
  lg_channel :: "request_log_entry chan"
  lg_metrics :: "metrics option"
  lg_written :: "request_log_entry list"
  lg_done :: bool
  lg_done_set :: bool

definition request_log_queue_size :: nat where
  "request_log_queue_size = 256"

definition new_request_log :: "metrics option \<Rightarrow> request_log" where
  "new_request_log m =
     \<lparr>lg_queue_set = True,
      lg_channel = \<lparr>ch_buf = [], ch_cap = request_log_queue_size, ch_closed = False\<rparr>,
      lg_metrics = m, lg_written = [], lg_done = False, lg_done_set = True\<rparr>"

section \<open>Steps\<close>

text \<open>The section of \<open>enqueueClientRequestLog\<close> under the read lock; \<open>None\<close> is a panic.\<close>

definition enqueue_request_log :: "request_log_entry \<Rightarrow> request_log \<Rightarrow> request_log option" where
  "enqueue_request_log entry g =
     (if \<not> lg_queue_set g then Some g
      else (case try_send (lg_channel g) entry of
              Sent c \<Rightarrow> Some (g\<lparr>lg_channel := c\<rparr>)
            | Full \<Rightarrow> Some (g\<lparr>lg_metrics := inc_access_log_dropped (lg_metrics g)\<rparr>)
            | Send_Panic \<Rightarrow> None))"

text \<open>
  One turn of \<open>processRequestLogs\<close>: the next entry is written, or the loop ends and closes \<open>done\<close>;
  no result while the receive blocks or after the goroutine has returned.
\<close>

definition process_request_log :: "request_log \<Rightarrow> request_log option" where
  "process_request_log g =
     (if lg_done g then None
      else (case receive (lg_channel g) of
              Received entry c \<Rightarrow> Some (g\<lparr>lg_channel := c, lg_written := lg_written g @ [entry]\<rparr>)
            | Drained \<Rightarrow> Some (g\<lparr>lg_done := True\<rparr>)
            | Blocks \<Rightarrow> None))"

text \<open>
  \<open>shutdownRequestLogs\<close>: the section under the write lock (and whether the call goes on to wait), then
  the wait, which ends when \<open>done\<close> is closed or, with a positive timeout, when the timer fires.
\<close>

definition close_request_log :: "request_log \<Rightarrow> (bool \<times> request_log) option" where
  "close_request_log g =
     (if \<not> lg_queue_set g then Some (False, g)
      else (case close_chan (lg_channel g) of
              None \<Rightarrow> None
            | Some c \<Rightarrow> Some (lg_done_set g, g\<lparr>lg_channel := c, lg_queue_set := False\<rparr>)))"

definition await_request_log :: "duration \<Rightarrow> bool \<Rightarrow> request_log \<Rightarrow> request_log option" where
  "await_request_log timeout fired g =
     (if lg_done g \<or> (timeout > 0 \<and> fired) then Some (g\<lparr>lg_done_set := False\<rparr>) else None)"

datatype log_event =
    LAccepted request_log_entry
  | LDropped request_log_entry
  | LIgnored request_log_entry
  | LWritten request_log_entry
  | LExit
  | LClosed
  | LWaited
  | LPanic

inductive log_step :: "request_log \<Rightarrow> log_event \<Rightarrow> request_log \<Rightarrow> bool" where
  admit: "enqueue_request_log entry g = Some g' \<Longrightarrow> lg_channel g' \<noteq> lg_channel g \<Longrightarrow>
    log_step g (LAccepted entry) g'"
| overflow: "enqueue_request_log entry g = Some g' \<Longrightarrow> lg_queue_set g \<Longrightarrow> lg_channel g' = lg_channel g \<Longrightarrow>
    log_step g (LDropped entry) g'"
| ignored: "enqueue_request_log entry g = Some g' \<Longrightarrow> \<not> lg_queue_set g \<Longrightarrow> log_step g (LIgnored entry) g'"
| send_panic: "enqueue_request_log entry g = None \<Longrightarrow> log_step g LPanic g"
| emit: "process_request_log g = Some g' \<Longrightarrow> lg_written g' = lg_written g @ [entry] \<Longrightarrow>
    log_step g (LWritten entry) g'"
| ends: "process_request_log g = Some g' \<Longrightarrow> lg_done g' \<Longrightarrow> log_step g LExit g'"
| shut: "close_request_log g = Some (go_on, g') \<Longrightarrow> log_step g LClosed g'"
| shut_panic: "close_request_log g = None \<Longrightarrow> log_step g LPanic g"
| waited: "await_request_log timeout fired g = Some g' \<Longrightarrow> log_step g LWaited g'"

inductive log_run :: "request_log \<Rightarrow> log_event list \<Rightarrow> request_log \<Rightarrow> bool" where
  log_nil: "log_run g [] g"
| log_snoc: "log_run g es g' \<Longrightarrow> log_step g' e g'' \<Longrightarrow> log_run g (es @ [e]) g''"

section \<open>Accounting\<close>

definition log_accepted :: "log_event list \<Rightarrow> request_log_entry list" where
  "log_accepted es = concat (map (\<lambda>e. case e of LAccepted x \<Rightarrow> [x] | _ \<Rightarrow> []) es)"

definition log_dropped :: "log_event list \<Rightarrow> request_log_entry list" where
  "log_dropped es = concat (map (\<lambda>e. case e of LDropped x \<Rightarrow> [x] | _ \<Rightarrow> []) es)"

definition dropped_count :: "request_log \<Rightarrow> 64 word option" where
  "dropped_count g = map_option access_log_dropped (lg_metrics g)"

text \<open>
  The flag and the channel agree; a goroutine that has returned left nothing behind; the buffer is
  within its capacity.
\<close>

definition log_inv :: "request_log \<Rightarrow> bool" where
  "log_inv g \<longleftrightarrow>
     ch_closed (lg_channel g) = (\<not> lg_queue_set g) \<and>
     length (ch_buf (lg_channel g)) \<le> ch_cap (lg_channel g) \<and>
     (lg_done g \<longrightarrow> ch_closed (lg_channel g) \<and> ch_buf (lg_channel g) = [])"

lemmas log_defs = enqueue_request_log_def process_request_log_def close_request_log_def
  await_request_log_def try_send_def receive_def close_chan_def

lemma new_request_log_inv: "log_inv (new_request_log m)"
  by (simp add: log_inv_def new_request_log_def)

lemma log_step_inv:
  assumes "log_step g e g'" and "log_inv g"
  shows "log_inv g' \<and> e \<noteq> LPanic \<and> ch_cap (lg_channel g') = ch_cap (lg_channel g)"
  using assms
  by (induction rule: log_step.induct) (auto simp: log_inv_def log_defs split: queue_splits)

lemma pushed_neq [simp]: "c\<lparr>ch_buf := ch_buf c @ [x]\<rparr> \<noteq> c"
proof
  assume "c\<lparr>ch_buf := ch_buf c @ [x]\<rparr> = c"
  then have "ch_buf c @ [x] = ch_buf c" by (metis chan.select_convs(1) chan.update_convs(1) chan.surjective)
  then show False by simp
qed

lemma log_step_account:
  assumes "log_step g e g'"
  shows "lg_written g @ ch_buf (lg_channel g) @ log_accepted [e] = lg_written g' @ ch_buf (lg_channel g')"
    and "dropped_count g' = map_option (\<lambda>n. n + of_nat (length (log_dropped [e]))) (dropped_count g)"
  using assms
  by (induction rule: log_step.induct)
    (auto simp: log_accepted_def log_dropped_def dropped_count_def log_defs inc_access_log_dropped_def
      option.map_comp comp_def option.map_ident split: queue_splits)

lemma log_events_append:
  "log_accepted (es @ fs) = log_accepted es @ log_accepted fs"
  "log_dropped (es @ fs) = log_dropped es @ log_dropped fs"
  by (simp_all add: log_accepted_def log_dropped_def)

lemma log_run_inv:
  assumes "log_run g es g'" and "log_inv g"
  shows "log_inv g' \<and> LPanic \<notin> set es"
  using assms
proof (induction rule: log_run.induct)
  case (log_snoc g es g' e g'')
  then show ?case using log_step_inv [OF log_snoc.hyps(2)] by auto
qed simp

lemma log_run_account:
  assumes "log_run g es g'"
  shows "lg_written g @ ch_buf (lg_channel g) @ log_accepted es = lg_written g' @ ch_buf (lg_channel g') \<and>
    dropped_count g' = map_option (\<lambda>n. n + of_nat (length (log_dropped es))) (dropped_count g)"
  using assms
proof (induction rule: log_run.induct)
  case (log_snoc g es g' e g'')
  have "lg_written g @ ch_buf (lg_channel g) @ log_accepted (es @ [e]) =
      (lg_written g' @ ch_buf (lg_channel g')) @ log_accepted [e]"
    using log_snoc.IH by (simp add: log_events_append flip: append_assoc)
  then show ?case
    using log_snoc.IH log_step_account [OF log_snoc.hyps(2)]
    by (simp add: log_events_append option.map_comp comp_def add.assoc)
qed (simp add: log_accepted_def log_dropped_def option.map_ident)

lemma log_run_cap:
  "log_run g es g' \<Longrightarrow> log_inv g \<Longrightarrow> ch_cap (lg_channel g') = ch_cap (lg_channel g)"
proof (induction rule: log_run.induct)
  case (log_snoc g es g' e g'')
  then show ?case using log_step_inv [OF log_snoc.hyps(2)] log_run_inv [OF log_snoc.hyps(1)] by simp
qed simp

lemma log_step_closed:
  "log_step g e g' \<Longrightarrow> log_inv g \<Longrightarrow> ch_closed (lg_channel g) \<or> e = LClosed \<Longrightarrow> ch_closed (lg_channel g')"
  by (induction rule: log_step.induct) (auto simp: log_inv_def log_defs split: queue_splits)

lemma log_run_closed:
  "log_run g es g' \<Longrightarrow> log_inv g \<Longrightarrow> LClosed \<in> set es \<Longrightarrow> ch_closed (lg_channel g')"
proof (induction rule: log_run.induct)
  case (log_snoc g es g' e g'')
  then show ?case using log_step_closed [OF log_snoc.hyps(2)] log_run_inv [OF log_snoc.hyps(1)] by auto
qed simp

lemma log_run_Cons: "log_step g e g1 \<Longrightarrow> log_run g1 es g2 \<Longrightarrow> log_run g (e # es) g2"
proof (rotate_tac, induction rule: log_run.induct)
  case (log_nil g1)
  then show ?case using log_snoc [OF log_run.log_nil] by force
next
  case (log_snoc g1 es g' f g'')
  then show ?case using log_run.log_snoc [of g "e # es" g' f g''] by simp
qed

text \<open>
  C13. The access log loses nothing silently and never crashes the program: however requests, the
  writing goroutine and shutdowns interleave, nothing is sent on a closed channel and none is closed
  twice; the entries accepted are, in order, those written and those still waiting; and the dropped
  counter counts exactly the entries that found the channel full.
\<close>

theorem access_log_accounting:
  assumes "log_run (new_request_log (Some new_metrics)) es g"
  shows "LPanic \<notin> set es \<and>
     log_accepted es = lg_written g @ ch_buf (lg_channel g) \<and>
     length (ch_buf (lg_channel g)) \<le> 256 \<and>
     (\<exists>m. lg_metrics g = Some m \<and> access_log_dropped m = of_nat (length (log_dropped es)))"
proof -
  have inv: "log_inv g" "LPanic \<notin> set es" using log_run_inv [OF assms new_request_log_inv] by simp_all
  have cap: "ch_cap (lg_channel g) = 256"
    using log_run_cap [OF assms new_request_log_inv] by (simp add: new_request_log_def request_log_queue_size_def)
  show ?thesis
    using log_run_account [OF assms] inv cap
    by (auto simp: log_inv_def new_request_log_def dropped_count_def new_metrics_def)
qed

section \<open>Draining\<close>

lemma drain_log:
  assumes "ch_closed (lg_channel g)" and "\<not> lg_done g"
  shows "\<exists>es g'. log_run g es g' \<and> length es = Suc (length (ch_buf (lg_channel g))) \<and> lg_done g' \<and>
     lg_written g' = lg_written g @ ch_buf (lg_channel g)"
  using assms
proof (induction "ch_buf (lg_channel g)" arbitrary: g)
  case Nil
  then have "process_request_log g = Some (g\<lparr>lg_done := True\<rparr>)"
    by (simp add: process_request_log_def receive_def)
  then have "log_step g LExit (g\<lparr>lg_done := True\<rparr>)" by (rule ends) simp
  then have "log_run g ([] @ [LExit]) (g\<lparr>lg_done := True\<rparr>)" by (rule log_snoc [OF log_nil])
  then show ?case using Nil by (intro exI [of _ "[LExit]"]) auto
next
  case (Cons x xs)
  let ?g = "g\<lparr>lg_channel := (lg_channel g)\<lparr>ch_buf := xs\<rparr>, lg_written := lg_written g @ [x]\<rparr>"
  have "process_request_log g = Some ?g"
    using Cons by (simp add: process_request_log_def receive_def flip: Cons.hyps(2))
  then have step: "log_step g (LWritten x) ?g" by (rule emit) simp
  obtain es g' where "log_run ?g es g'" "length es = Suc (length xs)" "lg_done g'"
    "lg_written g' = lg_written ?g @ xs"
    using Cons.hyps(1) [of ?g] Cons.prems by auto
  then show ?case using log_run_Cons [OF step] Cons.hyps(2) [symmetric]
    by (intro exI [of _ "LWritten x # es"]) auto
qed

text \<open>
  C35. A shutdown can always be completed: once the channel is closed, the writing goroutine ends after
  finitely many turns of its own with every accepted entry written, and only then has it returned.
\<close>

theorem access_log_drains:
  assumes "log_run (new_request_log m) es g" and "LClosed \<in> set es"
  shows "(lg_done g \<and> lg_written g = log_accepted es) \<or>
     (\<exists>fs g'. log_run g fs g' \<and> length fs = Suc (length (ch_buf (lg_channel g))) \<and>
        log_accepted fs = [] \<and> lg_done g' \<and> lg_written g' = log_accepted es)"
proof -
  have inv: "log_inv g" using log_run_inv [OF assms(1) new_request_log_inv] by simp
  have acc: "log_accepted es = lg_written g @ ch_buf (lg_channel g)"
    using log_run_account [OF assms(1)] by (simp add: new_request_log_def)
  have closed: "ch_closed (lg_channel g)"
    using log_run_closed [OF assms(1) new_request_log_inv assms(2)] .
  show ?thesis
  proof (cases "lg_done g")
    case True
    then show ?thesis using inv acc by (simp add: log_inv_def)
  next
    case False
    then obtain fs g' where fs: "log_run g fs g'" "length fs = Suc (length (ch_buf (lg_channel g)))"
      "lg_done g'" "lg_written g' = lg_written g @ ch_buf (lg_channel g)"
      using drain_log [OF closed] by blast
    moreover have "log_accepted fs = []"
    proof -
      have "log_inv g'" using log_run_inv [OF fs(1) inv] by simp
      then show ?thesis using log_run_account [OF fs(1)] fs(3,4) by (simp add: log_inv_def)
    qed
    ultimately show ?thesis using acc by metis
  qed
qed

section \<open>Witnesses\<close>

definition sample_entry :: request_log_entry where
  "sample_entry = \<lparr>log_client_ip = ''10.0.0.1'', log_method = ''GET'', log_request_uri = ''/ping'',
     log_upstream_url = [], log_proto = ''HTTP/1.1'', log_status = 200\<rparr>"

lemma sample_log_run:
  "\<exists>g. log_run (new_request_log (Some new_metrics)) [LAccepted sample_entry, LClosed] g \<and>
     lg_written g = [] \<and> ch_buf (lg_channel g) = [sample_entry]"
proof -
  let ?g = "new_request_log (Some new_metrics)"
  let ?h = "?g\<lparr>lg_channel := (lg_channel ?g)\<lparr>ch_buf := [sample_entry]\<rparr>\<rparr>"
  let ?k = "?h\<lparr>lg_channel := (lg_channel ?h)\<lparr>ch_closed := True\<rparr>, lg_queue_set := False\<rparr>"
  have "enqueue_request_log sample_entry ?g = Some ?h"
    by (simp add: enqueue_request_log_def try_send_def new_request_log_def request_log_queue_size_def)
  then have "log_step ?g (LAccepted sample_entry) ?h"
    by (rule admit) (simp add: new_request_log_def)
  then have "log_run ?g ([] @ [LAccepted sample_entry]) ?h" by (rule log_snoc [OF log_nil])
  moreover have "log_step ?h LClosed ?k"
    by (rule shut) (simp add: close_request_log_def close_chan_def new_request_log_def)
  ultimately have "log_run ?g (([] @ [LAccepted sample_entry]) @ [LClosed]) ?k" by (rule log_snoc)
  then show ?thesis by (intro exI [of _ ?k]) (simp add: new_request_log_def)
qed

lemma access_log_accounting_witness:
  "\<exists>g m. log_run (new_request_log (Some new_metrics)) [LAccepted sample_entry, LClosed] g \<and>
     lg_metrics g = Some m \<and> access_log_dropped m = 0"
proof -
  obtain g where g: "log_run (new_request_log (Some new_metrics)) [LAccepted sample_entry, LClosed] g"
    using sample_log_run by blast
  from access_log_accounting [OF this] g show ?thesis by (auto simp: log_dropped_def)
qed

lemma access_log_drains_witness:
  "\<exists>g fs g'. log_run g fs g' \<and> lg_done g' \<and> lg_written g' = [sample_entry] \<and> length fs = 2"
proof -
  obtain g where g: "log_run (new_request_log (Some new_metrics)) [LAccepted sample_entry, LClosed] g"
    "lg_written g = []" "ch_buf (lg_channel g) = [sample_entry]"
    using sample_log_run by blast
  have "LClosed \<in> set [LAccepted sample_entry, LClosed]" by simp
  from access_log_drains [OF g(1) this] g(2,3) obtain fs g' where
    "log_run g fs g'" "lg_done g'" "lg_written g' = [sample_entry]" "length fs = 2"
    by (auto simp: log_accepted_def)
  then show ?thesis by blast
qed

end
