(* ===== verification/Logger.thy ===== *)
theory Logger
  imports Go_Lib Go_Numbers Access_Log
begin

text \<open>
  \<open>internal/observability/logger.go\<close>: one JSON line per message, and the line of the access log in
  \<open>cmd/svm/main.go\<close>. A logger is the list of the lines it has written (\<open>None\<close> for a nil logger). The clock's
  text is an argument, as are \<open>%q\<close> of \<open>Printf\<close> (\<open>quote\<close>) and the text of an encoding error.
\<close>

section \<open>Definitions\<close>

record log_field =
  fd_key :: string
  fd_value :: json

definition string_field :: "string \<Rightarrow> string \<Rightarrow> log_field" where
  "string_field k v = \<lparr>fd_key = k, fd_value = JStr v\<rparr>"

definition int_field :: "string \<Rightarrow> int \<Rightarrow> log_field" where
  "int_field k v = \<lparr>fd_key = k, fd_value = JNum (show_int v)\<rparr>"

definition add_field :: "log_field \<Rightarrow> (string, json) fmap \<Rightarrow> (string, json) fmap" where
  "add_field f m = (if fd_key f = [] then m else fmupd (fd_key f) (fd_value f) m)"

definition log_record :: "string \<Rightarrow> string \<Rightarrow> string \<Rightarrow> log_field list \<Rightarrow> (string, json) fmap" where
  "log_record ts level msg fs =
     fold add_field fs
       (fmupd ''msg'' (JStr msg) (fmupd ''level'' (JStr level) (fmupd ''ts'' (JStr ts) fmempty)))"

text \<open>\<open>json.Marshal\<close> of a map writes its keys in order.\<close>

definition map_json :: "(string, json) fmap \<Rightarrow> json" where
  "map_json m = JObj (map (\<lambda>k. (k, the (fmlookup m k))) (sorted_list_of_fset (fmdom m)))"

definition log_line ::
  "golib \<Rightarrow> (json \<Rightarrow> string) \<Rightarrow> string \<Rightarrow> string \<Rightarrow> string \<Rightarrow> string \<Rightarrow> log_field list \<Rightarrow> string" where
  "log_line L quote err ts level msg fs =
     (let rec = log_record ts level msg fs
      in case lib_json_encode L (map_json rec) of
           Some t \<Rightarrow> t @ newline
         | None \<Rightarrow>
             ''{'' @ double_quote @ ''ts'' @ double_quote @ '':'' @ quote (the (fmlookup rec ''ts'')) @
             '','' @ double_quote @ ''level'' @ double_quote @ '':'' @ double_quote @ level @ double_quote @
             '','' @ double_quote @ ''msg'' @ double_quote @ '':'' @ double_quote @ ''log encoding error'' @
             double_quote @ '','' @ double_quote @ ''error'' @ double_quote @ '':'' @ quote (JStr err) @
             ''}'' @ newline)"

definition log_write ::
  "golib \<Rightarrow> (json \<Rightarrow> string) \<Rightarrow> string \<Rightarrow> string \<Rightarrow> string \<Rightarrow> string \<Rightarrow> log_field list \<Rightarrow>
   string list option \<Rightarrow> string list option" where
  "log_write L quote err ts level msg fs out =
     (case out of None \<Rightarrow> None | Some ls \<Rightarrow> Some (ls @ [log_line L quote err ts level msg fs]))"

text \<open>The fields of one access-log line.\<close>

definition access_fields :: "request_log_entry \<Rightarrow> log_field list" where
  "access_fields e =
     [string_field ''client_ip'' (log_client_ip e),
      string_field ''method'' (log_method e),
      string_field ''request_uri'' (log_request_uri e),
      string_field ''protocol'' (log_proto e),
      int_field ''status'' (log_status e)] @
     (if log_upstream_url e \<noteq> [] then [string_field ''upstream_url'' (log_upstream_url e)] else [])"

definition access_line :: "golib \<Rightarrow> (json \<Rightarrow> string) \<Rightarrow> string \<Rightarrow> string \<Rightarrow> request_log_entry \<Rightarrow> string" where
  "access_line L quote err ts e = log_line L quote err ts ''info'' ''request complete'' (access_fields e)"

section \<open>The record of a line\<close>

lemma add_field_lookup [simp]:
  "fmlookup (add_field f m) k = (if fd_key f = k \<and> k \<noteq> [] then Some (fd_value f) else fmlookup m k)"
  by (auto simp: add_field_def)

lemma fold_fields_lookup:
  "fmlookup (fold add_field fs m) k =
     (case filter (\<lambda>f. fd_key f = k \<and> k \<noteq> []) fs of [] \<Rightarrow> fmlookup m k | gs \<Rightarrow> Some (fd_value (last gs)))"
proof (induction fs rule: rev_induct)
  case (snoc f fs)
  then show ?case by (auto split: list.splits)
qed simp

lemma map_json_object:
  obtains obj where "map_json m = JObj obj" and "sorted (map fst obj)" and "distinct (map fst obj)"
    and "map_of obj = fmlookup m"
proof -
  let ?ks = "sorted_list_of_fset (fmdom m)"
  let ?obj = "map (\<lambda>k. (k, the (fmlookup m k))) ?ks"
  have keys: "map fst ?obj = ?ks" by (simp add: comp_def)
  have "map_of ?obj = fmlookup m"
    by (intro ext) (auto simp: map_of_map_restrict restrict_map_def fmlookup_dom_iff sorted_list_of_fset.rep_eq
        fmdom'_notI split: option.splits)
  moreover have "sorted ?ks" "distinct ?ks" by (simp_all add: sorted_list_of_fset.rep_eq)
  ultimately show ?thesis using that [of ?obj] keys by (simp add: map_json_def)
qed

text \<open>
  An access-log line carries its entry: with an encoder that accepts objects of strings and numbers,
  the line is the encoding of one object with its keys sorted and unique, in which each of the entry's
  fields stands under its own name as it was recorded, an absent upstream URL is left out, and the
  time, level and message are those of the call.
\<close>

theorem access_line_faithful:
  assumes "\<And>obj. lib_json_encode L (JObj obj) \<noteq> None"
  shows "\<exists>t obj. access_line L quote err ts e = t @ newline \<and> lib_json_encode L (JObj obj) = Some t \<and>
     sorted (map fst obj) \<and> distinct (map fst obj) \<and>
     map_of obj ''ts'' = Some (JStr ts) \<and> map_of obj ''level'' = Some (JStr ''info'') \<and>
     map_of obj ''msg'' = Some (JStr ''request complete'') \<and>
     map_of obj ''client_ip'' = Some (JStr (log_client_ip e)) \<and> map_of obj ''method'' = Some (JStr (log_method e)) \<and>
     map_of obj ''request_uri'' = Some (JStr (log_request_uri e)) \<and> map_of obj ''protocol'' = Some (JStr (log_proto e)) \<and>
     map_of obj ''status'' = Some (JNum (show_int (log_status e))) \<and>
     map_of obj ''upstream_url'' = (if log_upstream_url e = [] then None else Some (JStr (log_upstream_url e)))"
proof -
  let ?m = "log_record ts ''info'' ''request complete'' (access_fields e)"
  obtain obj where obj: "map_json ?m = JObj obj" "sorted (map fst obj)" "distinct (map fst obj)" "map_of obj = fmlookup ?m"
    by (rule map_json_object)
  obtain t where t: "lib_json_encode L (JObj obj) = Some t" using assms by blast
  have "access_line L quote err ts e = t @ newline"
    by (simp add: access_line_def log_line_def Let_def obj(1) t)
  moreover have "fmlookup ?m k =
      (case filter (\<lambda>f. fd_key f = k \<and> k \<noteq> []) (access_fields e) of
         [] \<Rightarrow> fmlookup (fmupd ''msg'' (JStr ''request complete'') (fmupd ''level'' (JStr ''info'') (fmupd ''ts'' (JStr ts) fmempty))) k
       | gs \<Rightarrow> Some (fd_value (last gs)))" for k
    by (simp add: log_record_def fold_fields_lookup)
  ultimately show ?thesis
    using obj t by (intro exI [of _ t] exI [of _ obj]) (simp add: access_fields_def string_field_def int_field_def)
qed

definition sample_codec :: golib where
  "sample_codec = \<lparr>lib_lower = id, lib_equal_fold = (=), lib_parse = (\<lambda>_. None), lib_sha256 = id,
     lib_json_valid = (\<lambda>_. True), lib_json_decode = (\<lambda>_. None),
     lib_json_encode = (\<lambda>j. case j of JObj obj \<Rightarrow> Some (concat (map fst obj)) | _ \<Rightarrow> None)\<rparr>"

lemma access_line_faithful_witness:
  "\<exists>t obj. access_line sample_codec (\<lambda>_. []) [] ''now'' sample_entry = t @ newline \<and>
     map_of obj ''status'' = Some (JNum ''200'')"
proof -
  have "lib_json_encode sample_codec (JObj obj) \<noteq> None" for obj by (simp add: sample_codec_def)
  from access_line_faithful [OF this, of "\<lambda>_. []" "[]" "''now''" sample_entry]
  have "\<exists>t obj. access_line sample_codec (\<lambda>_. []) [] ''now'' sample_entry = t @ newline \<and>
     map_of obj ''status'' = Some (JNum (show_int (log_status sample_entry)))" by blast
  moreover have "show_int (log_status sample_entry) = ''200''"
    by code_simp
  ultimately show ?thesis by simp
qed

end
