(* ===== verification/App.thy ===== *)
theory App
  imports Http_Api Config Access_Log Revalidate_Scheduler Refresh_Worker
begin

text \<open>
  \<open>cmd/svm/main.go\<close>: the application that ties the components together. The pointers that the Go
  components share (cache store, activity tracker, metrics) are kept once, in the service; the scheduler
  and the access log are given the current values and their changes are put back. \<open>net.ParseCIDR\<close>,
  \<open>net.ParseIP\<close> and \<open>net.SplitHostPort\<close> are the fields of \<open>netlib\<close>.
\<close>

section \<open>Construction\<close>

record netlib =
  parse_cidr :: "string \<Rightarrow> ip_net option"
  parse_ip :: "string \<Rightarrow> ip option"
  split_addr :: "string \<Rightarrow> (string \<times> string) option"

datatype app_error = Config_Error config_error | Invalid_CIDR string

text \<open>The fields of \<open>App\<close>; \<open>app_client_hosts\<close> is the upstream client with its redirect allowlist.\<close>

record app =
  app_port :: string
  app_cache_policy :: policy
  app_allowed_hosts :: "string list"
  app_trusted_networks :: "ip_net list"
  app_client_hosts :: "string list option"
  app_service :: "l1_store service"
  app_queue :: "refresh_queue option"
  app_workers :: "(int \<times> duration) option"
  app_log :: request_log

fun trusted_networks :: "netlib \<Rightarrow> string list \<Rightarrow> app_error + ip_net list" where
  "trusted_networks net [] = Inr []"
| "trusted_networks net (part # parts) =
     (let network = trim_space part
      in if network = [] then trusted_networks net parts
         else
           (let cidr = (if contains_byte (CHR ''/'') network then network
                        else if contains_byte (CHR '':'') network then network @ ''/128''
                        else network @ ''/32'')
            in case parse_cidr net cidr of
                 None \<Rightarrow> Inl (Invalid_CIDR cidr)
               | Some n \<Rightarrow>
                   (case trusted_networks net parts of Inl e \<Rightarrow> Inl e | Inr ns \<Rightarrow> Inr (n # ns))))"

definition app_new_service ::
  "golib \<Rightarrow> 's option \<Rightarrow> tracker option \<Rightarrow> token_provider option \<Rightarrow> string list \<Rightarrow> policy \<Rightarrow>
   metrics option \<Rightarrow> 's service" where
  "app_new_service L cache_store hit_recorder tokens hosts p m =
     set_metrics (new_service L cache_store hit_recorder tokens hosts p) m"

text \<open>\<open>startRevalidationRuntime\<close>: the queue and the workers, unless a collaborator is missing.\<close>

definition start_revalidation_runtime :: "app \<Rightarrow> app" where
  "start_revalidation_runtime a =
     (if sv_hit_recorder (app_service a) = None \<or> sv_cache (app_service a) = None then a
      else a\<lparr>app_queue := Some (new_refresh_queue (refresh_queue_size (app_cache_policy a))),
             app_workers := Some (normalize_worker_count (revalidate_workers (app_cache_policy a)),
               min_interval (revalidate_per_worker_rps (app_cache_policy a)))\<rparr>)"

definition new_app :: "golib \<Rightarrow> numlib \<Rightarrow> netlib \<Rightarrow> environment \<Rightarrow> app_error + app" where
  "new_app L N net env =
     (case load_config L N env of
        Inl e \<Rightarrow> Inl (Config_Error e)
      | Inr cfg \<Rightarrow>
          (case (if forwarded_allow_ips cfg = [] then Inr []
                 else trusted_networks net (split (CHR '','') (forwarded_allow_ips cfg))) of
             Inl e \<Rightarrow> Inl e
           | Inr networks \<Rightarrow>
               Inr (start_revalidation_runtime
                 \<lparr>app_port = config_port cfg,
                  app_cache_policy = cache_policy cfg,
                  app_allowed_hosts = allowed_upstream_hosts cfg,
                  app_trusted_networks = networks,
                  app_client_hosts = Some (allowed_upstream_hosts cfg),
                  app_service = app_new_service L
                    (Some (new_store (Some (new_cache_with_max_gb (l1_max_gb (cache_policy cfg))))))
                    (Some new_activity_tracker)
                    (Some (new_threshold_token_provider (github_pats cfg) (api_usage_threshold cfg)))
                    (allowed_upstream_hosts cfg) (cache_policy cfg) (Some new_metrics),
                  app_queue = None, app_workers = None,
                  app_log = new_request_log (Some new_metrics)\<rparr>)))"

definition can_serve_requests :: "app option \<Rightarrow> bool" where
  "can_serve_requests a =
     (case a of None \<Rightarrow> False
      | Some a \<Rightarrow> app_client_hosts a \<noteq> None \<and> sv_token_provider (app_service a) \<noteq> None)"

section \<open>The client's address\<close>

definition get_client_ip :: "netlib \<Rightarrow> ip_net list \<Rightarrow> request_ctx \<Rightarrow> string" where
  "get_client_ip net networks ctx =
     (let remote_addr = (case ctx_remote_addr ctx of None \<Rightarrow> [] | Some a \<Rightarrow> a)
      in if networks = [] then remote_addr
         else
           (let remote_ip = (case split_addr net remote_addr of None \<Rightarrow> remote_addr | Some (host, _) \<Rightarrow> host)
            in case parse_ip net remote_ip of
                 None \<Rightarrow> remote_addr
               | Some ip \<Rightarrow>
                   if list_ex (\<lambda>n. net_contains n ip) networks
                   then
                     (let forwarded = ctx_header ctx ''X-Forwarded-For'';
                          first = trim_space (hd (split (CHR '','') forwarded))
                      in if forwarded \<noteq> [] \<and> first \<noteq> [] then first else remote_addr)
                   else remote_addr))"

section \<open>The access log\<close>

definition sanitized_upstream_url :: "golib \<Rightarrow> request_ctx option \<Rightarrow> string" where
  "sanitized_upstream_url L ctx =
     (case ctx of
        None \<Rightarrow> []
      | Some c \<Rightarrow>
          if ctx_path c \<noteq> ''/version'' then []
          else (case lib_parse L (trim_space (ctx_query_arg c ''url'')) of
                  None \<Rightarrow> []
                | Some u \<Rightarrow>
                    if url_scheme u = [] \<or> url_host u = [] then []
                    else url_string (u\<lparr>url_user := None, url_raw_query := [], url_force_query := False,
                                       url_fragment := []\<rparr>)))"

text \<open>The response's status code is 200 as long as none is set.\<close>

definition request_log_entry_of ::
  "golib \<Rightarrow> netlib \<Rightarrow> ip_net list \<Rightarrow> request_ctx \<Rightarrow> ctx_call list \<Rightarrow> request_log_entry" where
  "request_log_entry_of L net networks ctx cs =
     \<lparr>log_client_ip = get_client_ip net networks ctx,
      log_method = ctx_method ctx,
      log_request_uri = ctx_path ctx,
      log_upstream_url = sanitized_upstream_url L (Some ctx),
      log_proto = (if ctx_protocol ctx = [] then ''HTTP/1.1'' else ctx_protocol ctx),
      log_status = (case status_set cs of None \<Rightarrow> 200 | Some n \<Rightarrow> if n = 0 then 200 else n)\<rparr>"

text \<open>The hook, with the shared metrics; a panic of the send leaves the state as it is.\<close>

definition access_log_hook :: "golib \<Rightarrow> netlib \<Rightarrow> request_ctx \<Rightarrow> ctx_call list \<Rightarrow> app \<Rightarrow> app" where
  "access_log_hook L net ctx cs a =
     (case enqueue_request_log (request_log_entry_of L net (app_trusted_networks a) ctx cs)
             ((app_log a)\<lparr>lg_metrics := sv_metrics (app_service a)\<rparr>) of
        None \<Rightarrow> a
      | Some g \<Rightarrow> a\<lparr>app_log := g, app_service := set_metrics (app_service a) (lg_metrics g)\<rparr>)"

section \<open>The request path\<close>

definition app_handle :: "golib \<Rightarrow> env \<Rightarrow> env \<Rightarrow> flight \<Rightarrow> request \<Rightarrow> app \<Rightarrow> response \<times> app \<times> upstream_call list" where
  "app_handle L e e' fl req a =
     (case handle L l1_store_ops e e' fl req (app_service a) of
        (r, s, calls) \<Rightarrow> (r, a\<lparr>app_service := s\<rparr>, calls))"

definition app_routes :: "golib \<Rightarrow> netlib \<Rightarrow> env \<Rightarrow> env \<Rightarrow> flight \<Rightarrow> app handlers" where
  "app_routes L net e e' fl =
     \<lparr>hs_version = (\<lambda>ctx a.
        handle_version L (Some (app_handle L e e' fl))
          (Some (get_client_ip net (app_trusted_networks a))) ctx a),
      hs_ping = (\<lambda>ctx a. (ping_calls L, a, [])),
      hs_health = (\<lambda>ctx a. (health_calls L (Some (can_serve_requests (Some a))), a, [])),
      hs_metrics = (\<lambda>ctx a. (metrics_calls (sv_metrics (app_service a)), a, []))\<rparr>"

definition serve_http :: "golib \<Rightarrow> netlib \<Rightarrow> env \<Rightarrow> env \<Rightarrow> flight \<Rightarrow> app handler" where
  "serve_http L net e e' fl =
     with_access_log (new_router (app_routes L net e e' fl)) (Some (access_log_hook L net))"

end
