(* ===== verification/App_Properties.thy ===== *)
theory App_Properties
  imports App Http_Properties Config_Properties Version_Properties
begin

text \<open>
  The application's request path: which requests reach the service, what the access log is given, whose
  address is logged, and what of the upstream URL is logged.
\<close>

section \<open>The client's address\<close>

definition remote_address :: "request_ctx \<Rightarrow> string" where
  "remote_address ctx = (case ctx_remote_addr ctx of None \<Rightarrow> [] | Some a \<Rightarrow> a)"

text \<open>The peer's own address parses and lies in a trusted network.\<close>

definition from_trusted :: "netlib \<Rightarrow> ip_net list \<Rightarrow> request_ctx \<Rightarrow> bool" where
  "from_trusted net networks ctx \<longleftrightarrow>
     (\<exists>n \<in> set networks. \<exists>p. net_contains n p \<and>
        parse_ip net (case split_addr net (remote_address ctx) of
          None \<Rightarrow> remote_address ctx | Some (host, _) \<Rightarrow> host) = Some p)"

text \<open>
  C26. A forwarded address is believed only from a trusted peer: the logged address is the first entry of
  \<open>X-Forwarded-For\<close> exactly when the peer's address lies in a trusted network and that entry is not
  blank, and the peer's own address otherwise, whatever the headers say.
\<close>

theorem forwarded_only_from_trusted:
  "get_client_ip net networks ctx =
     (let first = trim_space (hd (split (CHR '','') (ctx_header ctx ''X-Forwarded-For'')))
      in if from_trusted net networks ctx \<and> first \<noteq> [] then first else remote_address ctx)"
proof -
  have "first \<noteq> [] \<Longrightarrow> x \<noteq> []" if "first = trim_space (hd (split (CHR '','') x))" for first x
    using that by (cases x) auto
  then show ?thesis
    by (auto simp: get_client_ip_def from_trusted_def remote_address_def Let_def list_ex_iff
        split: option.splits)
qed

section \<open>The logged upstream URL\<close>

text \<open>
  C27. The access log shows no credentials, query or fragment of an upstream URL: what is logged depends
  on scheme, host and path of the parsed URL only, so that two requests whose URLs differ in anything
  else are logged alike.
\<close>

theorem access_log_hides_query:
  assumes "ctx_path c = ''/version''" and "ctx_path d = ''/version''"
    and "lib_parse L (trim_space (ctx_query_arg c ''url'')) = Some u"
    and "lib_parse L (trim_space (ctx_query_arg d ''url'')) = Some v"
    and "url_scheme u = url_scheme v" and "url_host u = url_host v" and "url_opaque u = url_opaque v"
    and "url_path u = url_path v" and "url_raw_path u = url_raw_path v" and "url_omit_host u = url_omit_host v"
  shows "sanitized_upstream_url L (Some c) = sanitized_upstream_url L (Some d)"
proof -
  let ?clean = "\<lambda>u. u\<lparr>url_user := None, url_raw_query := [], url_force_query := False, url_fragment := []\<rparr>"
  have "url_authority (?clean u) = url_authority (?clean v)" "escaped_path (?clean u) = escaped_path (?clean v)"
    using assms(5-10) by (simp_all add: url_authority_def escaped_path_def)
  then have "url_string (?clean u) = url_string (?clean v)"
    using assms(5-10) by (simp add: url_string_def Let_def)
  then show ?thesis using assms by (simp add: sanitized_upstream_url_def)
qed

section \<open>The request path\<close>

lemma hook_enqueues:
  assumes "log_inv (app_log a)" and "lg_queue_set (app_log a)"
  shows "if length (ch_buf (lg_channel (app_log a))) < ch_cap (lg_channel (app_log a))
     then ch_buf (lg_channel (app_log (access_log_hook L net ctx cs a))) =
         ch_buf (lg_channel (app_log a)) @ [request_log_entry_of L net (app_trusted_networks a) ctx cs] \<and>
       app_service (access_log_hook L net ctx cs a) = app_service a
     else ch_buf (lg_channel (app_log (access_log_hook L net ctx cs a))) = ch_buf (lg_channel (app_log a)) \<and>
       app_service (access_log_hook L net ctx cs a) =
         set_metrics (app_service a) (inc_access_log_dropped (sv_metrics (app_service a)))"
  using assms
  by (simp add: access_log_hook_def enqueue_request_log_def try_send_def log_inv_def set_metrics_def Let_def)

lemma hook_service:
  "app_service (access_log_hook L net ctx cs a) =
     set_metrics (app_service a) (sv_metrics (app_service (access_log_hook L net ctx cs a)))"
  by (simp add: access_log_hook_def set_metrics_def split: option.splits)

lemma drop_counted:
  "metric access_log_dropped (set_metrics s (inc_access_log_dropped (sv_metrics s))) =
     map_option (\<lambda>n. n + 1) (metric access_log_dropped s)"
  by (simp add: metric_def set_metrics_def inc_access_log_dropped_def option.map_comp comp_def)

lemma log_status_reply:
  "log_status (request_log_entry_of L net networks ctx cs) =
     (case status_set cs of None \<Rightarrow> 200 | Some n \<Rightarrow> if n = 0 then 200 else n)"
  by (simp add: request_log_entry_of_def)

lemma not_allowed_reply:
  "status_set method_not_allowed = Some 405" "header_set method_not_allowed ''Allow'' = Some ''GET''"
  "status_set [Not_Found] = Some 404"
  by (simp_all add: method_not_allowed_def status_set_def header_set_def)

text \<open>What the router leaves alone, what it replies, and what happens to the service.\<close>

lemma routed_frame:
  assumes "new_router (app_routes L net e e' fl) ctx a = (cs, a1, calls)"
  shows "app_log a1 = app_log a" and "app_trusted_networks a1 = app_trusted_networks a"
    and "metric access_log_dropped (app_service a1) = metric access_log_dropped (app_service a)"
  using assms
  by (auto simp: new_router_def only_get_def app_routes_def handle_version_def app_handle_def
      dest!: handle_dropped split: if_splits prod.splits)

lemma routed_replies:
  assumes "new_router (app_routes L net e e' fl) ctx a = (cs, a1, calls)"
  shows "ctx_path ctx \<notin> {''/version'', ''/ping'', ''/healthz'', ''/metrics''} \<longrightarrow> status_set cs = Some 404"
    and "ctx_path ctx \<in> {''/version'', ''/ping'', ''/healthz'', ''/metrics''} \<and> \<not> is_get ctx \<longrightarrow>
        status_set cs = Some 405 \<and> header_set cs ''Allow'' = Some ''GET''"
    and "ctx_path ctx = ''/ping'' \<and> is_get ctx \<longrightarrow> cs = ping_calls L"
    and "ctx_path ctx = ''/healthz'' \<and> is_get ctx \<longrightarrow> cs = health_calls L (Some (can_serve_requests (Some a)))"
    and "ctx_path ctx = ''/metrics'' \<and> is_get ctx \<longrightarrow> cs = metrics_calls (sv_metrics (app_service a))"
  using assms not_allowed_reply by (auto simp: new_router_def only_get_def app_routes_def)

lemma routed_service:
  assumes "new_router (app_routes L net e e' fl) ctx a = (cs, a1, calls)"
  shows "if ctx_path ctx = ''/version'' \<and> is_get ctx
     then \<exists>r s1.
       handle L l1_store_ops e e' fl
         \<lparr>raw_url = ctx_query_arg ctx ''url'', client_ip = get_client_ip net (app_trusted_networks a) ctx,
          request_uri = ''/version'', force_refresh = equal_fold L (ctx_query_arg ctx ''refresh'') ''true''\<rparr>
         (app_service a) = (r, s1, calls) \<and>
       cs = Set_Content_Type ''application/json'' # version_reply L r \<and> app_service a1 = s1
     else calls = [] \<and> app_service a1 = app_service a"
  using assms
  by (auto simp: new_router_def only_get_def app_routes_def handle_version_def app_handle_def
      version_request_def split: if_splits prod.splits)

text \<open>
  C12. While the access log is open, requests are dispatched as documented and logged once. An unknown
  path gets 404, and a known path with another method than GET gets 405 with \<open>Allow: GET\<close>. Of the GET
  requests \<open>/ping\<close> is answered by the ping handler, \<open>/healthz\<close> with the health of this application,
  \<open>/metrics\<close> with the page of its current counters, and \<open>/version\<close> with the reply of the service to
  the query's \<open>url\<close> and \<open>refresh\<close> and the client's address, which alone may call the upstream and
  change the service. Each request appends exactly one entry with its method, path and the reply's
  status to the access log; only when the log is full it is dropped instead, which is counted and is
  then the only other change of the service.
\<close>

theorem http_dispatch:
  assumes "serve_http L net e e' fl ctx a = (cs, a', calls)"
    and "log_inv (app_log a)" and "lg_queue_set (app_log a)"
  defines "buf \<equiv> \<lambda>x. ch_buf (lg_channel (app_log x))"
    and "room \<equiv> length (ch_buf (lg_channel (app_log a))) < ch_cap (lg_channel (app_log a))"
  defines "logged \<equiv> \<lambda>s. if room then s else set_metrics s (inc_access_log_dropped (sv_metrics s))"
  shows "(ctx_path ctx \<notin> {''/version'', ''/ping'', ''/healthz'', ''/metrics''} \<longrightarrow> status_set cs = Some 404) \<and>
     (ctx_path ctx \<in> {''/version'', ''/ping'', ''/healthz'', ''/metrics''} \<and> \<not> is_get ctx \<longrightarrow>
        status_set cs = Some 405 \<and> header_set cs ''Allow'' = Some ''GET'') \<and>
     (ctx_path ctx = ''/ping'' \<and> is_get ctx \<longrightarrow> cs = ping_calls L) \<and>
     (ctx_path ctx = ''/healthz'' \<and> is_get ctx \<longrightarrow> cs = health_calls L (Some (can_serve_requests (Some a)))) \<and>
     (ctx_path ctx = ''/metrics'' \<and> is_get ctx \<longrightarrow> cs = metrics_calls (sv_metrics (app_service a))) \<and>
     (if ctx_path ctx = ''/version'' \<and> is_get ctx
      then \<exists>r s1.
        handle L l1_store_ops e e' fl
          \<lparr>raw_url = ctx_query_arg ctx ''url'', client_ip = get_client_ip net (app_trusted_networks a) ctx,
           request_uri = ''/version'', force_refresh = equal_fold L (ctx_query_arg ctx ''refresh'') ''true''\<rparr>
          (app_service a) = (r, s1, calls) \<and>
        cs = Set_Content_Type ''application/json'' # version_reply L r \<and> app_service a' = logged s1
      else calls = [] \<and> app_service a' = logged (app_service a)) \<and>
     (if room
      then \<exists>entry. buf a' = buf a @ [entry] \<and> log_method entry = ctx_method ctx \<and>
        log_request_uri entry = ctx_path ctx \<and>
        log_status entry = (case status_set cs of None \<Rightarrow> 200 | Some n \<Rightarrow> if n = 0 then 200 else n)
      else buf a' = buf a \<and> metric access_log_dropped (app_service a') =
        map_option (\<lambda>n. n + 1) (metric access_log_dropped (app_service a)))"
proof -
  obtain a1 where r: "new_router (app_routes L net e e' fl) ctx a = (cs, a1, calls)"
    and a': "a' = access_log_hook L net ctx cs a1"
    using assms(1) by (auto simp: serve_http_def with_access_log_def split: prod.splits)
  note log = routed_frame [OF r]
  have hook: "app_service a' = logged (app_service a1) \<and>
      (if room then buf a' = buf a @ [request_log_entry_of L net (app_trusted_networks a) ctx cs]
       else buf a' = buf a)"
    using hook_enqueues [of a1 L net ctx cs, unfolded log(1,2), OF assms(2,3), folded a']
    by (simp add: logged_def room_def buf_def)
  have "(if room
      then \<exists>entry. buf a' = buf a @ [entry] \<and> log_method entry = ctx_method ctx \<and>
        log_request_uri entry = ctx_path ctx \<and>
        log_status entry = (case status_set cs of None \<Rightarrow> 200 | Some n \<Rightarrow> if n = 0 then 200 else n)
      else buf a' = buf a \<and> metric access_log_dropped (app_service a') =
        map_option (\<lambda>n. n + 1) (metric access_log_dropped (app_service a)))"
    using hook log_status_reply [of L net "app_trusted_networks a" ctx cs]
    by (auto simp: request_log_entry_of_def drop_counted logged_def log(3))
  with routed_replies [OF r] routed_service [OF r] hook show ?thesis by (auto split: if_splits)
qed

end
