(* ===== verification/App_Runs.thy ===== *)
theory App_Runs
  imports App_Properties Version_Runs
begin

text \<open>
  The whole program running: requests, scheduler sweeps, workers and the access log interleave over the
  shared state. The service's own steps are those of \<open>service_step\<close>; a sweep is one step; a worker takes
  a job and later asks for its refresh.
\<close>

section \<open>One allowlist\<close>

lemma add_hosts_member:
  "x |\<in>| add_hosts L acc hosts \<longleftrightarrow>
     x |\<in>| acc \<or> (x \<noteq> [] \<and> x \<in> (\<lambda>h. to_lower L (trim_space h)) ` set hosts)"
  by (induction L acc hosts rule: add_hosts.induct) (auto simp: Let_def)

lemma any_allowed_member: "any_allowed L x hosts \<longleftrightarrow> x \<in> (\<lambda>h. to_lower L (trim_space h)) ` set hosts"
  by (induction L x hosts rule: any_allowed.induct) auto

lemma ascii_lower_plain:
  assumes "list_all is_ascii s"
  shows "list_all is_ascii (map ascii_lower s)" "map (ascii_lower \<circ> ascii_lower) s = map ascii_lower s"
  using assms
  by (auto simp: list_all_iff is_ascii_def ascii_lower_def is_upper_def)

lemma ascii_lower_space: "is_space_byte (ascii_lower c) = is_space_byte c"
  by (auto simp: is_space_byte_def ascii_lower_def is_upper_def)

lemma normal_host:
  assumes "list_all is_ascii p"
  shows "to_lower L (trim_space (to_lower L (trim_space p))) = to_lower L (trim_space p)"
proof (cases "trim_space p = []")
  case False
  have ascii: "list_all is_ascii (trim_space p)"
    using assms trim_space_part [of p] by (auto simp: list_all_iff)
  let ?h = "map ascii_lower (trim_space p)"
  have "\<not> is_space_byte (hd ?h) \<and> \<not> is_space_byte (last ?h)"
    using trimmed_ascii_plain [OF _ ascii False] False
    by (simp add: hd_map last_map ascii_lower_space)
  then have "trim_space ?h = ?h" by (intro trim_space_plain) simp
  then show ?thesis using ascii ascii_lower_plain [OF ascii] by (simp add: to_lower_def)
qed (simp add: to_lower_def)

lemma split_part: "p \<in> set (split c s) \<Longrightarrow> set p \<subseteq> set s"
  by (induction c s arbitrary: p rule: split.induct) (fastforce split: list.splits if_splits)+

lemma loaded_hosts_normal:
  assumes "list_all is_ascii (env ''ALLOWED_UPSTREAM_HOSTS'')" and "h \<in> set (load_allowed_upstream_hosts L env)"
  shows "h \<noteq> [] \<and> to_lower L (trim_space h) = h"
proof (cases "trim_space (env ''ALLOWED_UPSTREAM_HOSTS'') = []")
  case True
  have "list_all is_ascii h \<and> map ascii_lower h = h \<and> h \<noteq> [] \<and> \<not> is_space_byte (hd h) \<and> \<not> is_space_byte (last h)"
    if "h \<in> set default_allowed_upstream_hosts" for h
    using that
    by (auto simp: default_allowed_upstream_hosts_def is_ascii_def byte_def ascii_lower_def is_upper_def
        is_space_byte_def)
  then show ?thesis
    using assms(2) True trim_space_plain [of h] by (simp add: load_allowed_upstream_hosts_def to_lower_def)
next
  case False
  let ?raw = "trim_space (env ''ALLOWED_UPSTREAM_HOSTS'')"
  obtain p where p: "p \<in> set (split (CHR '','') ?raw)" "h = to_lower L (trim_space p)" "h \<noteq> []"
    using assms(2) False
    by (auto simp: load_allowed_upstream_hosts_def parse_csv_lower_trim_def lower_trim_parts_set)
  have "list_all is_ascii p"
    using assms(1) split_part [OF p(1)] trim_space_part [of "env ''ALLOWED_UPSTREAM_HOSTS''"]
    by (auto simp: list_all_iff)
  then show ?thesis using p normal_host by simp
qed

lemma allowed_sets_agree:
  assumes "h \<in> set hosts" and "h \<noteq> []" and "to_lower L (trim_space h) = h"
  shows "is_allowed_host L (build_allowed_host_set L hosts) host = host_allowed L host hosts"
    and "build_allowed_host_set L hosts \<noteq> {||}"
proof -
  have ne: "hosts \<noteq> []" using assms(1) by auto
  have "h |\<in>| build_allowed_host_set L hosts"
    using assms ne by (force simp: build_allowed_host_set_def add_hosts_member)
  then show "build_allowed_host_set L hosts \<noteq> {||}" by auto
  then show "is_allowed_host L (build_allowed_host_set L hosts) host = host_allowed L host hosts"
    using ne by (simp add: is_allowed_host_def host_allowed_def build_allowed_host_set_def add_hosts_member
        any_allowed_member Let_def)
qed

text \<open>
  C29. The program's two allowlists agree: for a loaded configuration (with an ASCII host list) the set
  the service checks requests against admits exactly the hosts that the redirect check of the client
  admits; in particular the service never falls into the mode in which every host is allowed.
\<close>

theorem allowlists_agree:
  assumes "load_config L N env = Inr cfg" and "list_all is_ascii (env ''ALLOWED_UPSTREAM_HOSTS'')"
  shows "build_allowed_host_set L (allowed_upstream_hosts cfg) \<noteq> {||} \<and>
     is_allowed_host L (build_allowed_host_set L (allowed_upstream_hosts cfg)) host =
       host_allowed L host (allowed_upstream_hosts cfg)"
proof -
  have hosts: "allowed_upstream_hosts cfg = load_allowed_upstream_hosts L env" "allowed_upstream_hosts cfg \<noteq> []"
    using assms(1) load_config_Inr by blast+
  then obtain h where h: "h \<in> set (allowed_upstream_hosts cfg)" "h \<noteq> []" "to_lower L (trim_space h) = h"
    using loaded_hosts_normal [of env, OF assms(2)] by (metis list.set_intros(1) neq_Nil_conv)
  then show ?thesis using allowed_sets_agree by simp
qed

section \<open>Steps of the program\<close>

text \<open>The scheduler over the shared state, and that state after a sweep.\<close>

definition app_scheduler :: "app \<Rightarrow> (tracker option, l1_store, refresh_queue option) scheduler option" where
  "app_scheduler a =
     set_scheduler_metrics
       (Some (new_revalidate_scheduler (map_option Some (sv_hit_recorder (app_service a)))
          (sv_cache (app_service a)) (map_option Some (app_queue a)) (app_cache_policy a)))
       (sv_metrics (app_service a))"

definition after_sweep :: "app \<Rightarrow> (tracker option, l1_store, refresh_queue option) scheduler \<Rightarrow> app" where
  "after_sweep a r =
     a\<lparr>app_service := (app_service a)\<lparr>sv_hit_recorder := Option.bind (rs_active_keys r) id,
          sv_cache := rs_cache_store r, sv_metrics := rs_metrics r\<rparr>,
       app_queue := Option.bind (rs_queue r) id\<rparr>"

text \<open>
  A state is the application, the service's open tasks and the jobs the workers have taken. A worker's
  call of \<open>RefreshByKey\<close> claims the key, if it is free, for a task that \<open>service_step\<close> runs; the counter
  of processed jobs may be raised at any later time.
\<close>

type_synonym app_state = "app \<times> task list \<times> refresh_job list"

inductive app_step ::
  "golib \<Rightarrow> netlib \<Rightarrow> (tracker \<Rightarrow> string list) \<Rightarrow> app_state \<Rightarrow> upstream_call list \<Rightarrow> app_state \<Rightarrow> bool"
  for L :: golib and net :: netlib and order :: "tracker \<Rightarrow> string list" where
  serves: "service_step L l1_store_ops (app_service a, ts) calls (s, ts') \<Longrightarrow>
    app_step L net order (a, ts, js) calls (a\<lparr>app_service := s\<rparr>, ts', js)"
| logs: "app_step L net order (a, ts, js) [] (access_log_hook L net ctx cs a, ts, js)"
| writes: "process_request_log (app_log a) = Some g \<Longrightarrow>
    app_step L net order (a, ts, js) [] (a\<lparr>app_log := g\<rparr>, ts, js)"
| sweeps: "sweep (tracker_source ctx order) l1_store_ops try_enqueue now (app_scheduler a) = (res, Some r) \<Longrightarrow>
    app_step L net order (a, ts, js) [] (after_sweep a r, ts, js)"
| takes: "((job, True), q) \<in> set (dequeue (app_queue a) ctx_done) \<Longrightarrow>
    app_step L net order (a, ts, js) [] (a\<lparr>app_queue := q\<rparr>, ts, job # js)"
| works: "job \<in> set js \<Longrightarrow> job_key job \<noteq> [] \<Longrightarrow> refresh_start (job_key job) (app_service a) = (ok, s) \<Longrightarrow>
    app_step L net order (a, ts, js) []
      (a\<lparr>app_service := s\<rparr>, if ok then Refresh_Key (job_key job) # ts else ts, remove1 job js)"
| skips: "job \<in> set js \<Longrightarrow> job_key job = [] \<Longrightarrow>
    app_step L net order (a, ts, js) [] (a, ts, remove1 job js)"
| counts: "app_step L net order (a, ts, js) []
    (a\<lparr>app_service := count inc_refresh_processed (app_service a)\<rparr>, ts, js)"

inductive app_run ::
  "golib \<Rightarrow> netlib \<Rightarrow> (tracker \<Rightarrow> string list) \<Rightarrow> app_state \<Rightarrow> upstream_call list \<Rightarrow> app_state \<Rightarrow> bool"
  for L :: golib and net :: netlib and order :: "tracker \<Rightarrow> string list" where
  app_nil: "app_run L net order st [] st"
| app_snoc: "app_run L net order st calls st' \<Longrightarrow> app_step L net order st' calls' st'' \<Longrightarrow>
    app_run L net order st (calls @ calls') st''"

section \<open>Soundness of a run\<close>

definition app_sound :: "golib \<Rightarrow> app_state \<Rightarrow> bool" where
  "app_sound L st \<longleftrightarrow>
     (case st of (a, ts, js) \<Rightarrow> service_sound store_inv store_peek L (app_service a, ts))"

abbreviation state_hosts :: "app_state \<Rightarrow> string fset" where
  "state_hosts st \<equiv> sv_allowed_host_set (app_service (fst st))"

lemma same_store_sound:
  assumes "service_sound ok peek L (s, ts)" and "sv_allowed_host_set s' = sv_allowed_host_set s"
    and "sv_request_prep s' = sv_request_prep s" and "cache_ok ok s'" and "cache_view peek s' = cache_view peek s"
  shows "service_sound ok peek L (s', ts)"
  using assms by (simp add: service_sound_def urls_ok_def prep_ok_def service_prepare_def)

lemma metrics_sound: "service_sound ok peek L (set_metrics s m, ts) = service_sound ok peek L (s, ts)"
proof -
  have "cache_view peek (set_metrics s m) = cache_view peek s"
    by (intro ext) (simp add: cache_view_def set_metrics_def)
  moreover have "cache_ok ok (set_metrics s m) = cache_ok ok s" by (simp add: cache_ok_def set_metrics_def)
  moreover have "sv_allowed_host_set (set_metrics s m) = sv_allowed_host_set s"
    "sv_request_prep (set_metrics s m) = sv_request_prep s" by (simp_all add: set_metrics_def)
  ultimately show ?thesis by (simp add: service_sound_def urls_ok_def prep_ok_def service_prepare_def)
qed

lemma sweep_store:
  assumes "sweep ks l1_store_ops enq now (Some r) = (res, Some r')"
  shows "(rs_cache_store r = None \<longrightarrow> rs_cache_store r' = None) \<and>
     (\<forall>st. rs_cache_store r = Some st \<and> store_inv st \<longrightarrow>
        (\<exists>st'. rs_cache_store r' = Some st' \<and> store_inv st' \<and> store_peek st' = store_peek st))"
proof -
  have sel: "store_inv st' \<and> store_peek st' = store_peek st"
    if "select_due l1_store_ops now i keys st [] 0 = (due, n, st')" "store_inv st" for i keys due n st st'
    using l1.select_due_bounded [OF that(2), of l1_store_ops now i keys "[]" 0] that(1)
    by (auto simp: l1_store_ops_def)
  show ?thesis
  proof (cases "\<exists>x st q. rs_active_keys r = Some x \<and> rs_cache_store r = Some st \<and> rs_queue r = Some q")
    case False
    then have "rs_cache_store r' = rs_cache_store r"
      using assms by (auto simp: sweep_def Let_def split: option.splits)
    then show ?thesis by simp
  next
    case True
    then obtain x st q where f: "rs_active_keys r = Some x" "rs_cache_store r = Some st" "rs_queue r = Some q"
      by blast
    let ?since = "now - revalidate_lookback (rs_policy r)"
    let ?x = "case ks_prune ks of None \<Rightarrow> x | Some prune \<Rightarrow> snd (prune x ?since)"
    show ?thesis
    proof (cases "ks_active ks ?x ?since 0")
      case (Inl err)
      then have "rs_cache_store r' = Some st" using assms by (auto simp: sweep_def Let_def f)
      then show ?thesis using f(2) by simp
    next
      case (Inr keys)
      obtain due n st' where s: "select_due l1_store_ops now (revalidate_interval (rs_policy r)) keys st [] 0 = (due, n, st')"
        by (metis prod.exhaust)
      obtain yes no q' where e: "enqueue_all enq due q 0 0 = (yes, no, q')" by (metis prod.exhaust)
      have "rs_cache_store r' = Some st'" using assms by (auto simp: sweep_def Let_def f Inr s e)
      then show ?thesis using sel [OF s] f(2) by simp
    qed
  qed
qed

lemma sweep_sound:
  assumes "service_sound store_inv store_peek L (app_service a, ts)"
    and "sweep ks l1_store_ops enq now (app_scheduler a) = (res, Some r)"
  shows "service_sound store_inv store_peek L (app_service (after_sweep a r), ts) \<and>
     sv_allowed_host_set (app_service (after_sweep a r)) = sv_allowed_host_set (app_service a)"
proof -
  let ?s = "app_service a" and ?s' = "app_service (after_sweep a r)"
  obtain r0 where r0: "app_scheduler a = Some r0" "rs_cache_store r0 = sv_cache ?s"
    by (simp add: app_scheduler_def set_scheduler_metrics_def new_revalidate_scheduler_def)
  have cache: "sv_cache ?s' = rs_cache_store r" by (simp add: after_sweep_def)
  have ok: "cache_ok store_inv ?s" using assms(1) by (simp add: service_sound_def)
  note st = sweep_store [OF assms(2) [unfolded r0(1)], unfolded r0(2)]
  have "cache_ok store_inv ?s' \<and> cache_view store_peek ?s' = cache_view store_peek ?s"
  proof (cases "sv_cache ?s")
    case None
    then have "sv_cache ?s' = None" using st cache by simp
    then show ?thesis using None by (simp add: cache_ok_def cache_view_def fun_eq_iff)
  next
    case (Some c)
    then have "store_inv c" using ok by (simp add: cache_ok_def)
    then obtain c' where "sv_cache ?s' = Some c'" "store_inv c'" "store_peek c' = store_peek c"
      using st cache Some by metis
    then show ?thesis using Some by (simp add: cache_ok_def cache_view_def fun_eq_iff)
  qed
  moreover have "sv_allowed_host_set ?s' = sv_allowed_host_set ?s" "sv_request_prep ?s' = sv_request_prep ?s"
    by (simp_all add: after_sweep_def)
  ultimately show ?thesis using same_store_sound [OF assms(1)] by blast
qed

lemma claim_any_sound:
  assumes "service_sound store_inv store_peek L (s, ts)" and "refresh_start key s = (ok, s')"
  shows "service_sound store_inv store_peek L (s', if ok then Refresh_Key key # ts else ts) \<and>
     sv_allowed_host_set s' = sv_allowed_host_set s"
  using assms svc.claim_sound [of s L key ok s'] by (auto simp: service_sound_def)

lemma app_step_sound:
  assumes "app_step L net order st calls st'" and "app_sound L st"
  shows "app_sound L st' \<and> calls_safe L (state_hosts st) calls \<and> state_hosts st' = state_hosts st"
  using assms
proof (induction rule: app_step.induct)
  case (serves a ts calls s ts' js)
  then show ?case using svc.step_sound [OF serves.hyps] by (simp add: app_sound_def)
next
  case (logs a ts js ctx cs)
  let ?a = "access_log_hook L net ctx cs a"
  define m where "m = sv_metrics (app_service ?a)"
  have eq: "app_service ?a = set_metrics (app_service a) m" unfolding m_def by (rule hook_service)
  have "service_sound store_inv store_peek L (set_metrics (app_service a) m, ts)"
    using logs unfolding app_sound_def by (simp add: metrics_sound)
  then show ?case unfolding app_sound_def by (simp add: eq calls_safe_def set_metrics_def)
next
  case (sweeps ctx now a res r ts js)
  then show ?case using sweep_sound [of L a ts _ _ now res r] by (simp add: app_sound_def calls_safe_def)
next
  case (works job js a ok s ts)
  then show ?case using claim_any_sound [of L "app_service a" ts "job_key job" ok s]
    by (simp add: app_sound_def calls_safe_def)
next
  case (counts a ts js)
  then show ?case
    by (simp add: app_sound_def calls_safe_def service_sound_def svc.count_sound frame_simps)
qed (simp_all add: app_sound_def calls_safe_def)

lemma app_run_sound:
  assumes "app_run L net order st calls st'" and "app_sound L st"
  shows "app_sound L st' \<and> calls_safe L (state_hosts st) calls \<and> state_hosts st' = state_hosts st"
  using assms
proof (induction rule: app_run.induct)
  case (app_snoc st calls st' calls' st'')
  then show ?case using app_step_sound [OF app_snoc.hyps(2)] by (auto simp: calls_safe_def)
qed (simp add: calls_safe_def)

lemma new_app_service:
  assumes "new_app L N net env = Inr a"
  shows "\<exists>cfg. load_config L N env = Inr cfg \<and> app_allowed_hosts a = allowed_upstream_hosts cfg \<and>
     app_client_hosts a = Some (allowed_upstream_hosts cfg) \<and>
     app_service a = fresh_service L (float_to_int64 (float_scale (l1_max_gb (cache_policy cfg)) 30))
       (Some new_activity_tracker)
       (Some (new_threshold_token_provider (github_pats cfg) (api_usage_threshold cfg)))
       (allowed_upstream_hosts cfg) (cache_policy cfg) (Some new_metrics)"
  using assms
  by (auto simp: new_app_def start_revalidation_runtime_def app_new_service_def fresh_service_def
      new_cache_with_max_gb_def split: sum.splits if_splits)

text \<open>
  The whole program only ever calls allowed hosts: from an application that starts up (with an ASCII
  host list), however requests, sweeps, workers and logging interleave, every URL requested from the
  upstream is the printed form of a parsed https URL with a host, no userinfo and the default port, on
  the configured list.
\<close>

theorem app_calls_confined:
  assumes "new_app L N net env = Inr a" and "list_all is_ascii (env ''ALLOWED_UPSTREAM_HOSTS'')"
    and "app_run L net order (a, [], []) calls st" and "(url, token, tag) \<in> set calls"
  shows "\<exists>raw u. lib_parse L raw = Some u \<and> url = url_string u \<and> url_host u \<noteq> [] \<and>
     equal_fold L (url_scheme u) ''https'' \<and> url_user u = None \<and> url_port u \<in> {[], ''443''} \<and>
     host_allowed L (url_hostname u) (load_allowed_upstream_hosts L env)"
proof -
  obtain cfg where cfg: "load_config L N env = Inr cfg"
    "app_service a = fresh_service L (float_to_int64 (float_scale (l1_max_gb (cache_policy cfg)) 30))
       (Some new_activity_tracker)
       (Some (new_threshold_token_provider (github_pats cfg) (api_usage_threshold cfg)))
       (allowed_upstream_hosts cfg) (cache_policy cfg) (Some new_metrics)"
    using new_app_service [OF assms(1)] by blast
  let ?hosts = "allowed_upstream_hosts cfg"
  have hosts: "?hosts = load_allowed_upstream_hosts L env" using cfg(1) load_config_Inr by blast
  have "app_sound L (a, [], [])" using fresh_service_sound(1) cfg(2) by (simp add: app_sound_def)
  then have "calls_safe L (build_allowed_host_set L ?hosts) calls"
    using app_run_sound [OF assms(3)] cfg(2) by (simp add: fresh_service_fields)
  then have safe: "safe_target L (build_allowed_host_set L ?hosts) url"
    using assms(4) by (auto simp: calls_safe_def)
  obtain h where h: "h \<in> set ?hosts" "h \<noteq> []" "to_lower L (trim_space h) = h"
    using cfg(1) hosts loaded_hosts_normal [of env, OF assms(2), of _ L]
    by (metis list.set_intros(1) load_config_Inr neq_Nil_conv)
  show ?thesis
    using safe allowed_sets_agree [OF h] unfolding safe_target_def safe_url_def hosts by blast
qed

end
