(* ===== verification/Upstream_Exchange.thy ===== *)
theory Upstream_Exchange
  imports Upstream_Properties "HOL-Library.Sublist"
begin

text \<open>
  \<open>internal/upstream/github/client.go\<close>: the construction of the client and its transport, and the chain of
  requests one \<open>Get\<close> makes when the upstream redirects. Of \<open>net/http\<close> the documented behaviour is
  modelled: \<open>CheckRedirect\<close> decides each redirect (by default at most ten requests are made), the headers
  set on the first request are sent again, without the sensitive ones when the destination is neither
  the initial domain nor a subdomain of it, and a transport dials with its \<open>DialContext\<close>.
\<close>

section \<open>Construction\<close>

type_synonym dialer =
  "(string \<times> string) option \<Rightarrow> (string \<Rightarrow> string + ip list) \<Rightarrow> (ip \<Rightarrow> string option) \<Rightarrow> dial_error + ip"

record transport =
  tr_proxy :: bool
  tr_max_idle_conns :: int
  tr_max_idle_conns_per_host :: int
  tr_dial :: "dialer option"

record http_client =
  hc_timeout :: duration
  hc_transport :: "transport option"
  hc_check_redirect :: "(url option option \<Rightarrow> url list \<Rightarrow> client_error option) option"

definition default_timeout :: duration where
  "default_timeout = 30 * second"

definition default_max_idle_conns :: int where
  "default_max_idle_conns = 512"

definition default_max_idle_conns_per_host :: int where
  "default_max_idle_conns_per_host = 256"

text \<open>\<open>base\<close> is \<open>http.DefaultTransport\<close> if it is a non-nil \<open>*http.Transport\<close>.\<close>

definition new_default_transport :: "transport option \<Rightarrow> transport" where
  "new_default_transport base =
     (case base of
        None \<Rightarrow> \<lparr>tr_proxy = False, tr_max_idle_conns = default_max_idle_conns,
                 tr_max_idle_conns_per_host = default_max_idle_conns_per_host,
                 tr_dial = Some safe_dial_context\<rparr>
      | Some t \<Rightarrow> t\<lparr>tr_proxy := False, tr_max_idle_conns := default_max_idle_conns,
                    tr_max_idle_conns_per_host := default_max_idle_conns_per_host,
                    tr_dial := Some safe_dial_context\<rparr>)"

definition new_client_with_http_client :: "transport option \<Rightarrow> http_client option \<Rightarrow> http_client" where
  "new_client_with_http_client base c =
     (let c = (case c of
                 None \<Rightarrow> \<lparr>hc_timeout = default_timeout, hc_transport = Some (new_default_transport base),
                          hc_check_redirect = None\<rparr>
               | Some c \<Rightarrow> c)
      in if hc_transport c = None then c\<lparr>hc_transport := Some (new_default_transport base)\<rparr> else c)"

definition new_client_with_allowed_hosts :: "golib \<Rightarrow> transport option \<Rightarrow> string list \<Rightarrow> http_client" where
  "new_client_with_allowed_hosts L base hosts =
     new_client_with_http_client base
       (Some \<lparr>hc_timeout = default_timeout, hc_transport = Some (new_default_transport base),
              hc_check_redirect = Some (redirect_validator L hosts)\<rparr>)"

definition new_client :: "golib \<Rightarrow> transport option \<Rightarrow> http_client" where
  "new_client L base = new_client_with_allowed_hosts L base []"

section \<open>The requests of one Get\<close>

type_synonym sent = "url \<times> (string \<times> string) list"

text \<open>The request \<open>Get\<close> builds; \<open>None\<close> if the URL does not parse.\<close>

definition client_request :: "golib \<Rightarrow> string \<Rightarrow> string \<Rightarrow> string \<Rightarrow> sent option" where
  "client_request L raw token etag =
     map_option (\<lambda>u. (u, request_headers L u token etag)) (lib_parse L raw)"

definition same_domain :: "url \<Rightarrow> url \<Rightarrow> bool" where
  "same_domain u v \<longleftrightarrow>
     url_hostname v = url_hostname u \<or> suffix (CHR ''.'' # url_hostname u) (url_hostname v)"

definition redirect_headers :: "sent \<Rightarrow> url \<Rightarrow> (string \<times> string) list" where
  "redirect_headers first v =
     (if same_domain (fst first) v then snd first
      else filter (\<lambda>h. fst h \<noteq> ''Authorization'') (snd first))"

definition redirect_followed :: "http_client \<Rightarrow> url \<Rightarrow> url list \<Rightarrow> bool" where
  "redirect_followed c v via =
     (case hc_check_redirect c of
        None \<Rightarrow> length via < 10
      | Some check \<Rightarrow> check (Some (Some v)) via = None)"

text \<open>The requests sent so far; the upstream may answer any of them with a redirect to any URL.\<close>

inductive exchange :: "golib \<Rightarrow> http_client \<Rightarrow> string \<Rightarrow> string \<Rightarrow> string \<Rightarrow> sent list \<Rightarrow> bool"
  for L :: golib and c :: http_client and raw token etag :: string where
  sends: "client_request L raw token etag = Some r \<Longrightarrow> exchange L c raw token etag [r]"
| follows: "exchange L c raw token etag rs \<Longrightarrow> redirect_followed c v (map fst rs) \<Longrightarrow>
    exchange L c raw token etag (rs @ [(v, redirect_headers (hd rs) v)])"

text \<open>The address a connection of the client is made to.\<close>

definition client_dial :: "http_client \<Rightarrow> dialer option" where
  "client_dial c = Option.bind (hc_transport c) tr_dial"

section \<open>Lemmas\<close>

lemma new_client_fields [simp]:
  "hc_check_redirect (new_client_with_allowed_hosts L base hosts) = Some (redirect_validator L hosts)"
  "client_dial (new_client_with_allowed_hosts L base hosts) = Some safe_dial_context"
  "hc_timeout (new_client_with_allowed_hosts L base hosts) = default_timeout"
  by (simp_all add: new_client_with_allowed_hosts_def new_client_with_http_client_def client_dial_def
      new_default_transport_def split: option.splits)

lemma redirect_followed_allowed:
  "redirect_followed (new_client_with_allowed_hosts L base hosts) v via \<longleftrightarrow> redirect_url_allowed L (Some v) hosts"
  by (simp add: redirect_followed_def redirect_validator_def)

lemma exchange_first:
  "exchange L c raw token etag rs \<Longrightarrow> rs \<noteq> [] \<and> client_request L raw token etag = Some (hd rs)"
  by (induction rule: exchange.induct) auto

lemma exchange_redirected:
  assumes "exchange L (new_client_with_allowed_hosts L base hosts) raw token etag rs" and "r \<in> set (tl rs)"
  shows "redirect_url_allowed L (Some (fst r)) hosts"
  using assms
proof (induction rule: exchange.induct)
  case (follows rs v)
  then show ?case using exchange_first [OF follows.hyps(1)] by (auto simp: redirect_followed_allowed)
qed simp

lemma exchange_headers:
  assumes "exchange L c raw token etag rs" and "r \<in> set rs"
  shows "r = hd rs \<or> snd r = redirect_headers (hd rs) (fst r)"
  using assms
proof (induction rule: exchange.induct)
  case (follows rs v)
  then show ?case using exchange_first [OF follows.hyps(1)] by (auto simp: hd_append)
qed simp

lemma token_domain:
  assumes "exchange L c raw token etag rs" and "(u, hs) \<in> set rs" and "(''Authorization'', x) \<in> set hs"
  shows "x = ''token '' @ token \<and> token \<noteq> [] \<and> to_lower L (url_hostname (fst (hd rs))) = ''api.github.com'' \<and>
    same_domain (fst (hd rs)) u"
proof -
  obtain w where w: "hd rs = (w, request_headers L w token etag)"
    using exchange_first [OF assms(1)] by (auto simp: client_request_def dest: sym)
  have "hs = request_headers L w token etag \<and> u = w \<or> hs = redirect_headers (hd rs) u"
    using exchange_headers [OF assms(1,2)] w by auto
  then have "(''Authorization'', x) \<in> set (request_headers L w token etag) \<and> same_domain w u"
    using assms(3) w by (auto simp: redirect_headers_def same_domain_def split: if_splits)
  then show ?thesis
    by (auto simp: w request_headers_def should_authenticate_def authenticated_hosts_def split: if_splits)
qed

section \<open>Properties\<close>

text \<open>
  C31. A call stays within bounds through every redirect: whatever the upstream answers, each request
  after the first goes to an https URL without userinfo, on the default port and of an allowed host
  (if there is a list); a request carries the token only if the first one was for \<open>api.github.com\<close> and it
  goes to the same domain or a subdomain; and each connection is made to an address the resolver gave
  for the host, all of whose addresses are public.
\<close>

theorem exchange_confined:
  assumes "exchange L (new_client_with_allowed_hosts L base hosts) raw token etag rs"
  shows "(\<forall>(u, hs) \<in> set (tl rs). url_scheme u = ''https'' \<and> url_user u = None \<and> url_port u \<in> {[], ''443''} \<and>
       (hosts = [] \<or> host_allowed L (url_hostname u) hosts)) \<and>
     (\<forall>(u, hs) \<in> set rs. \<forall>x. (''Authorization'', x) \<in> set hs \<longrightarrow>
       x = ''token '' @ token \<and> to_lower L (url_hostname (fst (hd rs))) = ''api.github.com'' \<and>
       same_domain (fst (hd rs)) u) \<and>
     (\<forall>dial address resolve connect ip.
       client_dial (new_client_with_allowed_hosts L base hosts) = Some dial \<longrightarrow>
       dial address resolve connect = Inr ip \<longrightarrow>
       (\<exists>host port addresses. address = Some (host, port) \<and> resolve host = Inr addresses \<and>
          ip \<in> set addresses \<and> connect ip = None \<and> (\<forall>b \<in> set addresses. is_public_ip (Some b))))"
proof (intro conjI ballI allI impI; clarify?)
  fix u hs assume "(u, hs) \<in> set (tl rs)"
  then have "redirect_url_allowed L (Some u) hosts" using exchange_redirected [OF assms] by fastforce
  then show "url_scheme u = ''https'' \<and> url_user u = None \<and> url_port u \<in> {[], ''443''} \<and>
      (hosts = [] \<or> host_allowed L (url_hostname u) hosts)"
    by (auto simp: redirect_url_allowed_def split: if_splits)
next
  fix u hs x assume "(u, hs) \<in> set rs" "(''Authorization'', x) \<in> set hs"
  then show "x = ''token '' @ token \<and> to_lower L (url_hostname (fst (hd rs))) = ''api.github.com'' \<and>
      same_domain (fst (hd rs)) u"
    using token_domain [OF assms] by blast
next
  fix dial :: dialer and address resolve connect ip
  assume "client_dial (new_client_with_allowed_hosts L base hosts) = Some dial"
    "dial address resolve connect = Inr ip"
  then have "safe_dial_context address resolve connect = Inr ip" by simp
  from dial_only_public [OF this]
  show "\<exists>host port addresses. address = Some (host, port) \<and> resolve host = Inr addresses \<and>
      ip \<in> set addresses \<and> connect ip = None \<and> (\<forall>b \<in> set addresses. is_public_ip (Some b))" .
qed

text \<open>
  C32. Nothing bounds the number of redirects: if a URL's own redirect is allowed, a server that keeps
  redirecting to it is followed any number of times (until the client's timeout), because \<open>CheckRedirect\<close>
  replaces the limit of ten requests that holds without it.
\<close>

theorem redirects_unbounded:
  assumes "client_request L raw token etag = Some (u, hs)" and "redirect_url_allowed L (Some u) hosts"
  shows "(\<exists>rs. exchange L (new_client_with_allowed_hosts L base hosts) raw token etag rs \<and> length rs = Suc n \<and>
       fst ` set rs = {u}) \<and>
     (\<forall>c rs. hc_check_redirect c = None \<longrightarrow> exchange L c raw token etag rs \<longrightarrow> length rs \<le> 10)"
proof (intro conjI allI impI)
  let ?c = "new_client_with_allowed_hosts L base hosts"
  show "\<exists>rs. exchange L ?c raw token etag rs \<and> length rs = Suc n \<and> fst ` set rs = {u}"
  proof (induction n)
    case 0
    then show ?case using sends [OF assms(1)] by force
  next
    case (Suc n)
    then obtain rs where rs: "exchange L ?c raw token etag rs" "length rs = Suc n" "fst ` set rs = {u}" by blast
    have "redirect_followed ?c u (map fst rs)" using assms(2) by (simp add: redirect_followed_allowed)
    from follows [OF rs(1) this] show ?case
      using rs(2,3) by (intro exI [of _ "rs @ [(u, redirect_headers (hd rs) u)]"]) auto
  qed
  show "length rs \<le> 10" if "hc_check_redirect c = None" "exchange L c raw token etag rs" for c rs
    using that(2,1) by (induction rule: exchange.induct) (auto simp: redirect_followed_def)
qed

section \<open>Witnesses\<close>

text \<open>A URL of the API is redirected to itself once.\<close>

definition api_url :: url where
  "api_url = \<lparr>url_scheme = ''https'', url_opaque = [], url_user = None, url_host = ''api.github.com'',
     url_path = ''/'', url_raw_path = [], url_omit_host = False, url_force_query = False, url_raw_query = [],
     url_fragment = [], url_raw_fragment = []\<rparr>"

definition api_lib :: golib where
  "api_lib = \<lparr>lib_lower = id, lib_equal_fold = (=), lib_parse = (\<lambda>_. Some api_url),
     lib_sha256 = id, lib_json_valid = (\<lambda>_. True), lib_json_decode = (\<lambda>_. None),
     lib_json_encode = (\<lambda>_. None)\<rparr>"

lemma api_request:
  "client_request api_lib ''u'' ''t'' [] = Some (api_url, [(''Authorization'', ''token t'')])"
  by code_simp

lemma api_allowed: "redirect_url_allowed api_lib (Some api_url) []"
  by code_simp

lemma redirects_unbounded_witness:
  "\<exists>rs. exchange api_lib (new_client_with_allowed_hosts api_lib None []) ''u'' ''t'' [] rs \<and> length rs = 21"
  using redirects_unbounded [OF api_request api_allowed, of None 20] by auto

lemma exchange_confined_witness:
  "\<exists>u. (\<lambda>v. url_scheme v = ''https'' \<and> url_user v = None) u \<and> same_domain api_url u"
proof -
  let ?c = "new_client_with_allowed_hosts api_lib None []"
  have "redirect_followed ?c api_url (map fst [(api_url, [(''Authorization'', ''token t'')])])"
    using api_allowed by (simp add: redirect_followed_allowed)
  note run = follows [OF sends [OF api_request] this]
  from exchange_confined [OF run] show ?thesis
    by (intro exI [of _ api_url]) (auto simp: redirect_headers_def same_domain_def)
qed

end
