(* ===== verification/App_Outbound.thy ===== *)
theory App_Outbound
  imports App_Runs Upstream_Exchange
begin

text \<open>
  The program with its upstream client: what leaves the process when the service's calls are made by the
  client that \<open>NewApp\<close> constructs, every redirect included.
\<close>

text \<open>
  What is relied on of \<open>net/url\<close>: parsing the printed form of a parsed URL with a host and without userinfo
  gives back its scheme, userinfo and host.
\<close>

definition reparses :: "golib \<Rightarrow> bool" where
  "reparses L \<longleftrightarrow>
     (\<forall>raw u v. lib_parse L raw = Some u \<and> url_host u \<noteq> [] \<and> url_user u = None \<and>
        lib_parse L (url_string u) = Some v \<longrightarrow>
        url_scheme v = url_scheme u \<and> url_user v = None \<and> url_host v = url_host u)"

lemma same_host:
  "url_host v = url_host u \<Longrightarrow> url_hostname v = url_hostname u \<and> url_port v = url_port u"
  by (simp add: url_hostname_def url_port_def)

lemma equal_fold_https: "equal_fold L ''https'' ''https''"
  by (simp add: equal_fold_def is_ascii_def byte_def)

text \<open>
  C1. Nothing leaves the program for another place than the configured hosts, and no token for another
  than GitHub's API: from an application that starts up (with an ASCII host list), however requests,
  sweeps, workers and logging interleave and whatever redirects the upstream answers with, every request
  sent goes to an https URL without userinfo, on the default port and of a host on the list, and carries
  the service's token for the call only if the call is for \<open>api.github.com\<close> and stays in that domain.
\<close>

theorem outbound_confined:
  assumes "new_app L N net env = Inr a" and "list_all is_ascii (env ''ALLOWED_UPSTREAM_HOSTS'')"
    and "app_run L net order (a, [], []) calls st" and "(url, token, tag) \<in> set calls"
    and "app_client_hosts a = Some hosts"
    and "exchange L (new_client_with_allowed_hosts L base hosts) url token tag rs"
    and "reparses L" and "(u, hs) \<in> set rs"
  shows "equal_fold L (url_scheme u) ''https'' \<and> url_user u = None \<and> url_port u \<in> {[], ''443''} \<and>
     host_allowed L (url_hostname u) (load_allowed_upstream_hosts L env) \<and>
     (\<forall>x. (''Authorization'', x) \<in> set hs \<longrightarrow>
        x = ''token '' @ token \<and> to_lower L (url_hostname (fst (hd rs))) = ''api.github.com'' \<and>
        same_domain (fst (hd rs)) u)"
proof -
  have hosts: "hosts = load_allowed_upstream_hosts L env" "hosts \<noteq> []"
    using new_app_service [OF assms(1)] assms(5) load_config_Inr by force+
  obtain raw w where w: "lib_parse L raw = Some w" "url = url_string w" "url_host w \<noteq> []"
    "equal_fold L (url_scheme w) ''https''" "url_user w = None" "url_port w \<in> {[], ''443''}"
    "host_allowed L (url_hostname w) hosts"
    using app_calls_confined [OF assms(1-4)] hosts(1) by blast
  note first = exchange_first [OF assms(6)]
  have "equal_fold L (url_scheme u) ''https'' \<and> url_user u = None \<and> url_port u \<in> {[], ''443''} \<and>
      host_allowed L (url_hostname u) hosts"
  proof (cases "(u, hs) = hd rs")
    case True
    then have "lib_parse L (url_string w) = Some u"
      using first w(2) by (auto simp: client_request_def simp flip: True)
    then have "url_scheme u = url_scheme w" "url_user u = None" "url_host u = url_host w"
      using assms(7) w(1,3,5) unfolding reparses_def by blast+
    then show ?thesis using w(4,6,7) same_host [of u w] by simp
  next
    case False
    then have "(u, hs) \<in> set (tl rs)" using assms(8) first by (cases rs) auto
    from exchange_redirected [OF assms(6) this] hosts(2) show ?thesis
      by (auto simp: redirect_url_allowed_def equal_fold_https split: if_splits)
  qed
  then show ?thesis using token_domain [OF assms(6,8)] hosts(1) by blast
qed

end
