(* ===== verification/App_Witnesses.thy ===== *)
theory App_Witnesses
  imports App_Outbound Version_Witnesses
begin

text \<open>The application that starts from the minimal environment, on which its properties are exercised.\<close>

definition no_net :: netlib where
  "no_net = \<lparr>parse_cidr = (\<lambda>_. None), parse_ip = (\<lambda>_. None), split_addr = (\<lambda>_. None)\<rparr>"

lemma minimal_app:
  obtains a cfg where "new_app sample_net sample_numlib no_net minimal_environment = Inr a"
    and "load_config sample_net sample_numlib minimal_environment = Inr cfg"
    and "app_service a = fresh_service sample_net (float_to_int64 (float_scale (l1_max_gb (cache_policy cfg)) 30))
       (Some new_activity_tracker)
       (Some (new_threshold_token_provider (github_pats cfg) (api_usage_threshold cfg)))
       (allowed_upstream_hosts cfg) (cache_policy cfg) (Some new_metrics)"
    and "app_log a = new_request_log (Some new_metrics)" and "app_trusted_networks a = []"
proof -
  obtain cfg where cfg: "load_config sample_net sample_numlib minimal_environment = Inr cfg"
    using minimal_loads by blast
  then have "forwarded_allow_ips cfg = []"
    by (simp add: load_config_Inr) (simp add: minimal_environment_def)
  then obtain a where a: "new_app sample_net sample_numlib no_net minimal_environment = Inr a"
    "app_log a = new_request_log (Some new_metrics)" "app_trusted_networks a = []"
    by (simp add: new_app_def cfg start_revalidation_runtime_def)
  then show ?thesis using that [OF a(1) cfg _ a(2,3)] new_app_service [OF a(1)] cfg by auto
qed

lemma minimal_ascii: "list_all is_ascii (minimal_environment ''ALLOWED_UPSTREAM_HOSTS'')"
  by (simp add: minimal_environment_def)

lemma minimal_hosts: "load_allowed_upstream_hosts L minimal_environment = default_allowed_upstream_hosts"
  by (simp add: load_allowed_upstream_hosts_def minimal_blank)

lemma allowlists_agree_witness:
  "\<exists>cfg. load_config sample_net sample_numlib minimal_environment = Inr cfg \<and>
     is_allowed_host sample_net (build_allowed_host_set sample_net (allowed_upstream_hosts cfg)) ''evil.example'' =
       host_allowed sample_net ''evil.example'' (allowed_upstream_hosts cfg)"
proof -
  obtain cfg where "load_config sample_net sample_numlib minimal_environment = Inr cfg"
    using minimal_loads by blast
  with allowlists_agree [OF this minimal_ascii] show ?thesis by blast
qed

text \<open>A request of the sample URL on that application is fetched from the upstream.\<close>

lemma sample_prepared_any:
  assumes "is_allowed_host sample_net (sv_allowed_host_set s) ''api.github.com''"
  shows "prep_err (service_prepare sample_net s ''u'') = None"
    and "url_to_fetch (service_prepare sample_net s ''u'') = url_string (sample_url ''api.github.com'' ''/'' [])"
proof -
  have "url_hostname (sample_url ''api.github.com'' ''/'' []) = ''api.github.com''" by code_simp
  then show "prep_err (service_prepare sample_net s ''u'') = None"
    "url_to_fetch (service_prepare sample_net s ''u'') = url_string (sample_url ''api.github.com'' ''/'' [])"
    using assms by (simp_all add: service_prepare_def prepare_request_def sample_parse Let_def)
qed

lemma default_host_allowed:
  assumes "h \<in> {''api.github.com'', ''uploads.github.com''}"
  shows "host_allowed L h default_allowed_upstream_hosts"
proof -
  have "h \<in> set default_allowed_upstream_hosts" using assms by (auto simp: default_allowed_upstream_hosts_def)
  moreover have "trim_space h = h"
    by (rule trim_space_plain) (use assms in \<open>auto simp: is_space_byte_def byte_def\<close>)
  moreover have "to_lower L h = h"
    using assms by (auto simp: to_lower_def is_ascii_def byte_def ascii_lower_def is_upper_def)
  moreover have "h \<noteq> []" using assms by auto
  ultimately show ?thesis unfolding host_allowed_def any_allowed_iff Let_def by (metis (no_types))
qed

lemma sample_outgoing:
  obtains a calls st token where "new_app sample_net sample_numlib no_net minimal_environment = Inr a"
    and "app_client_hosts a = Some default_allowed_upstream_hosts"
    and "app_run sample_net no_net (\<lambda>_. []) (a, [], []) calls st"
    and "(url_string (sample_url ''api.github.com'' ''/'' []), token, []) \<in> set calls"
proof -
  obtain a cfg where a: "new_app sample_net sample_numlib no_net minimal_environment = Inr a"
    "load_config sample_net sample_numlib minimal_environment = Inr cfg"
    "app_service a = fresh_service sample_net (float_to_int64 (float_scale (l1_max_gb (cache_policy cfg)) 30))
       (Some new_activity_tracker)
       (Some (new_threshold_token_provider (github_pats cfg) (api_usage_threshold cfg)))
       (allowed_upstream_hosts cfg) (cache_policy cfg) (Some new_metrics)"
    by (rule minimal_app)
  let ?s = "app_service a" and ?e = "sample_env 100 200" and ?req = "sample_request False"
  let ?p = "service_prepare sample_net ?s ''u''"
  have hosts: "allowed_upstream_hosts cfg = default_allowed_upstream_hosts"
    using a(2) minimal_hosts load_config_Inr by metis
  have api: "to_lower sample_net (trim_space ''api.github.com'') = ''api.github.com''"
    "''api.github.com'' \<in> set default_allowed_upstream_hosts"
    using loaded_hosts_normal [of minimal_environment "''api.github.com''" sample_net] minimal_ascii
    by (simp_all add: minimal_hosts default_allowed_upstream_hosts_def)
  have "is_allowed_host sample_net (sv_allowed_host_set ?s) ''api.github.com''"
    using allowed_sets_agree(1) [OF api(2) _ api(1)] default_host_allowed [of "''api.github.com''"] hosts
    by (simp add: a(3) fresh_service_fields)
  note p = sample_prepared_any [OF this]
  have ok: "cache_ok store_inv ?s" "prep_ok sample_net ?s" "cache_view store_peek ?s k = None" for k
    unfolding a(3) by (rule fresh_service_ok)+
  have "fst (handle_lookup sample_net l1_store_ops ?e ?req ?s) = Inr (?p, empty_record, False)"
    using svc.lookup_result [OF ok(1,2), of ?e ?req] by (simp add: p ok(3) sample_request_def)
  then obtain s1 where look: "handle_lookup sample_net l1_store_ops ?e ?req ?s = (Inr (?p, empty_record, False), s1)"
    by (metis prod.collapse)
  let ?call = "(url_to_fetch ?p, fst (sv_next_token ?e s1), [])"
  let ?t = "Fetch ?req ?p empty_record False"
  define s2 where "s2 = snd (fetch_send ?e ?p empty_record False s1)"
  have sent: "fetch_send ?e ?p empty_record False s1 = (?call, s2)"
    by (simp add: s2_def prod_eq_iff send_call conditional_candidate_def)
  have "service_step sample_net l1_store_ops (s1, [?t]) [?call]
      (s2, Fetch_Sent ?req ?p empty_record False (fst (sv_next_token ?e s1)) # remove1 ?t [?t])"
    by (rule service_step.send [OF _ sent]) simp
  then have run: "app_run sample_net no_net (\<lambda>_. []) (a, [], []) (([] @ []) @ [?call])
      (a\<lparr>app_service := s1\<rparr>\<lparr>app_service := s2\<rparr>,
       Fetch_Sent ?req ?p empty_record False (fst (sv_next_token ?e s1)) # remove1 ?t [?t], [])"
    by (intro app_snoc [OF app_snoc [OF app_nil serves [OF await [OF look]]] serves]) simp
  have call: "(url_string (sample_url ''api.github.com'' ''/'' []), fst (sv_next_token ?e s1), []) \<in> set (([] @ []) @ [?call])"
    using p(2) by simp
  have "app_client_hosts a = Some default_allowed_upstream_hosts"
    using new_app_service [OF a(1)] a(2) hosts by force
  from that [OF a(1) this run call] show ?thesis .
qed

lemma sample_reparses: "reparses sample_net"
  by (simp add: reparses_def sample_net_def)

lemma sample_parses_printed:
  "lib_parse sample_net (url_string (sample_url ''api.github.com'' ''/'' [])) = Some (sample_url ''api.github.com'' ''/'' [])"
proof -
  have "lib_parse (L\<lparr>lib_parse := f\<rparr>) = f" for L :: golib and f by simp
  then show ?thesis unfolding sample_net_def by (simp only: simp_thms if_True)
qed

text \<open>The call for the sample URL, redirected to an upload host.\<close>

lemma outbound_confined_witness:
  "\<exists>u hs. host_allowed sample_net (url_hostname u) default_allowed_upstream_hosts \<and> hs = [] \<and>
     url_hostname u = ''uploads.github.com''"
proof -
  let ?api = "sample_url ''api.github.com'' ''/'' []" and ?up = "sample_url ''uploads.github.com'' ''/'' []"
  let ?c = "new_client_with_allowed_hosts sample_net None default_allowed_upstream_hosts"
  obtain a calls st token where a: "new_app sample_net sample_numlib no_net minimal_environment = Inr a"
    "app_client_hosts a = Some default_allowed_upstream_hosts"
    "app_run sample_net no_net (\<lambda>_. []) (a, [], []) calls st"
    "(url_string ?api, token, []) \<in> set calls"
    by (rule sample_outgoing)
  have request: "client_request sample_net (url_string ?api) token [] = Some (?api, request_headers sample_net ?api token [])"
    by (simp only: client_request_def sample_parses_printed option.map)
  have up: "url_hostname ?up = ''uploads.github.com''" "url_port ?up = []" by code_simp+
  then have "redirect_url_allowed sample_net (Some ?up) default_allowed_upstream_hosts"
    by (simp add: redirect_url_allowed_def default_host_allowed) (simp add: sample_url_def)
  then have "redirect_followed ?c ?up (map fst [(?api, request_headers sample_net ?api token [])])"
    by (simp add: redirect_followed_allowed)
  note run = follows [OF sends [OF request] this]
  have not_same: "\<not> same_domain ?api ?up" by code_simp
  then have hs: "redirect_headers (?api, request_headers sample_net ?api token []) ?up = []"
    by (simp add: redirect_headers_def request_headers_def)
  have "(?up, []) \<in> set ([(?api, request_headers sample_net ?api token [])] @
      [(?up, redirect_headers (hd [(?api, request_headers sample_net ?api token [])]) ?up)])"
    by (simp add: hs)
  from outbound_confined [OF a(1) minimal_ascii a(3,4,2) run sample_reparses this]
  have "host_allowed sample_net (url_hostname ?up) default_allowed_upstream_hosts"
    by (simp only: minimal_hosts)
  then show ?thesis using up(1) by blast
qed

lemma http_dispatch_witness:
  "\<exists>a a1 a2 cs1 cs2.
     serve_http sample_net no_net (sample_env 100 200) (sample_env 100 200) Leads
       (sample_ctx ''/ping'' ''POST'') a = (cs1, a1, []) \<and> status_set cs1 = Some 405 \<and>
     serve_http sample_net no_net (sample_env 100 200) (sample_env 100 200) Leads
       (sample_ctx ''/healthz'' ''GET'') a = (cs2, a2, []) \<and> status_set cs2 = Some 200 \<and>
     app_service a2 = app_service a"
proof -
  obtain a cfg where a: "new_app sample_net sample_numlib no_net minimal_environment = Inr a"
    "load_config sample_net sample_numlib minimal_environment = Inr cfg"
    "app_service a = fresh_service sample_net (float_to_int64 (float_scale (l1_max_gb (cache_policy cfg)) 30))
       (Some new_activity_tracker)
       (Some (new_threshold_token_provider (github_pats cfg) (api_usage_threshold cfg)))
       (allowed_upstream_hosts cfg) (cache_policy cfg) (Some new_metrics)"
    "app_log a = new_request_log (Some new_metrics)" "app_trusted_networks a = []"
    by (rule minimal_app)
  have log: "log_inv (app_log a)" "lg_queue_set (app_log a)"
    "length (ch_buf (lg_channel (app_log a))) < ch_cap (lg_channel (app_log a))"
    by (simp_all add: a(4) new_request_log_inv) (simp_all add: new_request_log_def request_log_queue_size_def)
  have up: "can_serve_requests (Some a)"
    using a(1,3) by (auto simp: new_app_def can_serve_requests_def start_revalidation_runtime_def
        fresh_service_def new_service_def set_metrics_def split: sum.splits if_splits)
  define run where "run ctx = serve_http sample_net no_net (sample_env 100 200) (sample_env 100 200) Leads ctx a" for ctx
  obtain cs1 a1 calls1 where r1: "run (sample_ctx ''/ping'' ''POST'') = (cs1, a1, calls1)" by (metis prod.collapse)
  obtain cs2 a2 calls2 where r2: "run (sample_ctx ''/healthz'' ''GET'') = (cs2, a2, calls2)" by (metis prod.collapse)
  have "status_set cs1 = Some 405" "calls1 = []"
    using http_dispatch [OF r1 [unfolded run_def] log(1,2)] by (simp_all add: sample_ctx_def is_get_def)
  moreover have "status_set cs2 = Some 200" "calls2 = []" "app_service a2 = app_service a"
    using http_dispatch [OF r2 [unfolded run_def] log(1,2)] log(3) up
    by (simp_all add: sample_ctx_def is_get_def health_calls_def is_request_serving_def status_set_def)
  ultimately show ?thesis using r1 r2 unfolding run_def by blast
qed

text \<open>A parser that takes its text as the credentials, the query and the fragment.\<close>

definition leaky_lib :: golib where
  "leaky_lib = sample_net\<lparr>lib_parse :=
     (\<lambda>x. Some ((sample_url ''h'' ''/'' x)\<lparr>url_user := Some x, url_fragment := x\<rparr>))\<rparr>"

lemma access_log_hides_query_witness:
  "sanitized_upstream_url leaky_lib (Some ((sample_ctx ''/version'' ''GET'')\<lparr>ctx_query_arg := (\<lambda>_. ''secret'')\<rparr>)) =
   sanitized_upstream_url leaky_lib (Some ((sample_ctx ''/version'' ''GET'')\<lparr>ctx_query_arg := (\<lambda>_. ''other'')\<rparr>))"
  by (rule access_log_hides_query [where u = "the (lib_parse leaky_lib (trim_space ''secret''))"
        and v = "the (lib_parse leaky_lib (trim_space ''other''))"])
    (simp_all add: sample_ctx_def leaky_lib_def sample_url_def)

end
