(* ===== verification/App_Lifecycle.thy ===== *)
theory App_Lifecycle
  imports App_Properties App_Witnesses Background
begin

text \<open>
  Stopping the program (\<open>cmd/svm/main.go\<close>): the time a shutdown may take, what it closes, and which
  outcome \<open>runServerWithLifecycle\<close> reports. What the closing goroutine does is the theory
  \<open>Background\<close>; here the instants at which it and the log writer are done are inputs (\<open>None\<close> for
  never). Running code takes no time of its own, only waiting does.
\<close>

section \<open>Waiting\<close>

text \<open>
  A \<open>select\<close> between an event and a timer of \<open>d\<close>: the instant it ends, and whether the event was
  there in time.
\<close>

definition select_timer :: "time \<Rightarrow> duration \<Rightarrow> time option \<Rightarrow> time \<times> bool" where
  "select_timer now d event =
     (case event of
        Some t \<Rightarrow> if t \<le> now + d then (max now t, True) else (now + d, False)
      | None \<Rightarrow> (now + d, False))"

definition shutdown_timeout_of :: "app option \<Rightarrow> duration" where
  "shutdown_timeout_of a =
     (case a of
        None \<Rightarrow> shutdown_timeout default_policy
      | Some a \<Rightarrow> if shutdown_timeout (app_cache_policy a) > 0 then shutdown_timeout (app_cache_policy a)
                  else shutdown_timeout default_policy)"

text \<open>
  The three functions return the instant at which they return (\<open>None\<close> if they do not, because a wait
  never ends or the close panics) and the application.
\<close>

definition shutdown_request_logs ::
  "time \<Rightarrow> duration \<Rightarrow> time option \<Rightarrow> app option \<Rightarrow> time option \<times> app option" where
  "shutdown_request_logs now timeout done_at a =
     (case a of
        None \<Rightarrow> (Some now, None)
      | Some a \<Rightarrow>
          (case close_request_log (app_log a) of
             None \<Rightarrow> (None, Some a)
           | Some (False, g) \<Rightarrow> (Some now, Some (a\<lparr>app_log := g\<rparr>))
           | Some (True, g) \<Rightarrow>
               (let stopped = Some (a\<lparr>app_log := g\<lparr>lg_done_set := False\<rparr>\<rparr>)
                in if timeout \<le> 0
                   then (case done_at of
                           None \<Rightarrow> (None, Some (a\<lparr>app_log := g\<rparr>))
                         | Some t \<Rightarrow> (Some (max now t), stopped))
                   else (Some (fst (select_timer now timeout done_at)), stopped))))"

definition shutdown_background ::
  "time \<Rightarrow> duration \<Rightarrow> time option \<Rightarrow> time option \<Rightarrow> app option \<Rightarrow> time option \<times> app option" where
  "shutdown_background now timeout closed_at done_at a =
     (if a = None then (Some now, None)
      else
        (let deadline = time_add now timeout;
             remaining = time_sub deadline now;
             t1 = (if remaining > 0 then fst (select_timer now remaining closed_at) else now)
         in shutdown_request_logs t1 (max (time_sub deadline t1) nanosecond) done_at a))"

text \<open>
  \<open>server\<close> is the server with the instant at which \<open>ShutdownWithContext\<close> returns and its error.
\<close>

definition shutdown_app ::
  "time \<Rightarrow> (time \<times> string option) option \<Rightarrow> time option \<Rightarrow> time option \<Rightarrow> app option \<Rightarrow>
   time option \<times> string option \<times> app option" where
  "shutdown_app now server closed_at done_at a =
     (if a = None then (Some now, None, None)
      else
        (let deadline = time_add now (shutdown_timeout_of a);
             (t0, server_err) = (case server of None \<Rightarrow> (now, None) | Some (t, err) \<Rightarrow> (t, err))
         in case shutdown_background t0 (max (time_sub deadline t0) 0) closed_at done_at a of
              (t, a') \<Rightarrow> (t, server_err, a')))"

section \<open>The server's lifecycle\<close>

text \<open>
  \<open>runServerWithLifecycle\<close>: when it returns (\<open>None\<close> if never), its error, and the application. \<open>listen\<close>
  is the instant at which the server's listen function returns with its error, \<open>signals\<close> is \<open>None\<close> for a
  nil channel and otherwise the instant of the first signal; when both are there at once the \<open>select\<close>
  may take either (\<open>signal_wins\<close>).
\<close>

definition signal_first :: "time option option \<Rightarrow> (time \<times> string option) option \<Rightarrow> bool \<Rightarrow> bool" where
  "signal_first signals listen signal_wins =
     (case signals of
        Some (Some ts) \<Rightarrow>
          (case listen of None \<Rightarrow> True | Some (te, _) \<Rightarrow> ts < te \<or> (ts = te \<and> signal_wins))
      | _ \<Rightarrow> False)"

definition run_server_with_lifecycle ::
  "time \<Rightarrow> app option \<Rightarrow> (time \<times> string option) option \<Rightarrow> time option option \<Rightarrow>
   (time \<times> string option) option option \<Rightarrow> bool \<Rightarrow> time option \<Rightarrow> time option \<Rightarrow>
   time option \<times> string option \<times> app option" where
  "run_server_with_lifecycle now a server signals listen_fn signal_wins closed_at done_at =
     (if a = None then (Some now, Some ''application is required'', None)
      else (case listen_fn of
              None \<Rightarrow> (Some now, Some ''listen function is required'', a)
            | Some listen \<Rightarrow>
                if signal_first signals listen signal_wins
                then (case shutdown_app (the (the signals)) server closed_at done_at a of
                        (None, _, a') \<Rightarrow> (None, None, a')
                      | (Some t, shutdown_err, a') \<Rightarrow>
                          (case listen of
                             None \<Rightarrow> (None, None, a')
                           | Some (te, listen_err) \<Rightarrow>
                               (Some (max t te),
                                if listen_err \<noteq> None then listen_err else shutdown_err, a')))
                else (case listen of
                        None \<Rightarrow> (None, None, a)
                      | Some (te, err) \<Rightarrow>
                          (case shutdown_app te None closed_at done_at a of
                             (t, _, a') \<Rightarrow> (t, if t = None then None else err, a')))))"

section \<open>A shutdown ends in time\<close>

lemma select_timer_bounds:
  "0 \<le> d \<Longrightarrow> now \<le> fst (select_timer now d event) \<and> fst (select_timer now d event) \<le> now + d"
  by (auto simp: select_timer_def split: option.splits)

lemma time_sub_small: "int64_range (t - u) \<Longrightarrow> time_sub t u = t - u"
  by (simp add: time_sub_def int64_range_def max_int64_def)

lemma shutdown_logs_ends:
  assumes "log_inv (app_log a)" and "0 < timeout"
  shows "\<exists>t a'. shutdown_request_logs now timeout done_at (Some a) = (Some t, Some a') \<and>
     now \<le> t \<and> t \<le> now + timeout \<and> \<not> lg_queue_set (app_log a') \<and> app_service a' = app_service a"
proof (cases "close_request_log (app_log a)")
  case None
  then show ?thesis using assms(1) by (auto simp: close_request_log_def close_chan_def log_inv_def split: if_splits)
next
  case (Some x)
  then have closed: "\<not> lg_queue_set (snd x)"
    by (auto simp: close_request_log_def close_chan_def split: if_splits)
  show ?thesis
    using assms(2) select_timer_bounds [of timeout now done_at] Some closed
    by (cases x; cases "fst x") (auto simp: shutdown_request_logs_def Let_def)
qed

lemma background_ends:
  assumes "log_inv (app_log a)" and "0 \<le> d" and "d < 2 ^ 62"
  shows "\<exists>t a'. shutdown_background now d closed_at done_at (Some a) = (Some t, Some a') \<and>
     now \<le> t \<and> t \<le> now + d + 1 \<and> \<not> lg_queue_set (app_log a') \<and> app_service a' = app_service a"
proof -
  define t1 where "t1 = (if 0 < d then fst (select_timer now d closed_at) else now)"
  have t1: "now \<le> t1" "t1 \<le> now + d" using select_timer_bounds [OF assms(2)] assms(2) by (auto simp: t1_def)
  have sub: "time_sub (now + d) now = d" "time_sub (now + d) t1 = now + d - t1"
    using assms(2,3) t1 by (simp_all add: time_sub_small int64_range_def)
  let ?rest = "max (now + d - t1) 1"
  have "shutdown_background now d closed_at done_at (Some a) = shutdown_request_logs t1 ?rest done_at (Some a)"
    unfolding shutdown_background_def Let_def time_add_def sub(1) t1_def [symmetric] sub(2) by simp
  then show ?thesis using shutdown_logs_ends [OF assms(1), of ?rest t1 done_at] t1 by fastforce
qed

text \<open>When the server's own shutdown is over, and its error; at once without a server.\<close>

definition server_end :: "time \<Rightarrow> (time \<times> string option) option \<Rightarrow> time" where
  "server_end now server = (case server of None \<Rightarrow> now | Some (t, _) \<Rightarrow> t)"

definition server_error :: "(time \<times> string option) option \<Rightarrow> string option" where
  "server_error server = (case server of None \<Rightarrow> None | Some (_, err) \<Rightarrow> err)"

lemma shutdown_ends:
  assumes "log_inv (app_log a)" and "shutdown_timeout (app_cache_policy a) < 2 ^ 62"
    and "now \<le> server_end now server" and "server_end now server \<le> now + shutdown_timeout_of (Some a)"
  shows "\<exists>t a'. shutdown_app now server closed_at done_at (Some a) = (Some t, server_error server, Some a') \<and>
     now \<le> t \<and> t \<le> now + shutdown_timeout_of (Some a) + 1 \<and>
     \<not> lg_queue_set (app_log a') \<and> app_service a' = app_service a"
proof -
  let ?T = "shutdown_timeout_of (Some a)" and ?t0 = "server_end now server"
  have T: "0 < ?T" "?T < 2 ^ 62"
    using assms(2) by (simp_all add: shutdown_timeout_of_def default_policy_def)
  let ?d = "now + ?T - ?t0"
  have sub: "max (time_sub (now + ?T) ?t0) 0 = ?d"
    using assms(3,4) T by (simp add: time_sub_small int64_range_def)
  have "shutdown_app now server closed_at done_at (Some a) =
      (case shutdown_background ?t0 ?d closed_at done_at (Some a) of (t, a') \<Rightarrow> (t, server_error server, a'))"
    using sub
    by (cases server) (auto simp: shutdown_app_def server_end_def server_error_def Let_def split: prod.splits)
  then show ?thesis
    using background_ends [OF assms(1), of ?d ?t0 closed_at done_at] assms(3,4) T by fastforce
qed

text \<open>
  C28. Stopping always ends, and in time: whatever the scheduler, the workers and the log writer do (never
  finishing included), once the listen function has returned or a signal has come the program is done
  within the configured timeout plus one nanosecond (and, after a signal, once listening has ended),
  provided the server keeps to the deadline of its context; the access log is closed then. The error
  is that of listening, or else, after a signal, that of the server's shutdown.
\<close>

theorem lifecycle_ends:
  assumes "log_inv (app_log a)" and "shutdown_timeout (app_cache_policy a) < 2 ^ 62"
    and "stop = (if signal_first signals (Some (te, err)) wins then the (the signals) else te)"
    and "stop \<le> server_end stop server" and "server_end stop server \<le> stop + shutdown_timeout_of (Some a)"
  shows "\<exists>t a'. run_server_with_lifecycle now (Some a) server signals (Some (Some (te, err))) wins closed_at done_at =
       (Some t,
        if err = None \<and> signal_first signals (Some (te, err)) wins then server_error server else err, Some a') \<and>
     t \<le> max te (stop + shutdown_timeout_of (Some a) + 1) \<and>
     \<not> lg_queue_set (app_log a') \<and> app_service a' = app_service a"
proof (cases "signal_first signals (Some (te, err)) wins")
  case True
  obtain t a' where "shutdown_app stop server closed_at done_at (Some a) = (Some t, server_error server, Some a')"
    "t \<le> stop + shutdown_timeout_of (Some a) + 1" "\<not> lg_queue_set (app_log a')" "app_service a' = app_service a"
    using shutdown_ends [OF assms(1,2,4,5)] by blast
  then show ?thesis using True assms(3) by (auto simp: run_server_with_lifecycle_def)
next
  case False
  have T: "0 < shutdown_timeout_of (Some a)" by (simp add: shutdown_timeout_of_def default_policy_def)
  obtain t a' where "shutdown_app te None closed_at done_at (Some a) = (Some t, server_error None, Some a')"
    "t \<le> te + shutdown_timeout_of (Some a) + 1" "\<not> lg_queue_set (app_log a')" "app_service a' = app_service a"
    using shutdown_ends [OF assms(1,2), of te None closed_at done_at] T by (auto simp: server_end_def)
  then show ?thesis using False assms(3) by (auto simp: run_server_with_lifecycle_def)
qed

text \<open>A signal, a log writer and workers that never finish, and a server that is slow but within its deadline.\<close>

lemma started_app: "\<exists>a :: app. app_log a = new_request_log (Some new_metrics)"
proof (rule minimal_app)
  fix a :: app
  assume "app_log a = new_request_log (Some new_metrics)"
  then show ?thesis by (rule exI)
qed

lemma lifecycle_ends_witness:
  "\<exists>a t a'. run_server_with_lifecycle 0 (Some a) (Some (200, Some ''slow'')) (Some (Some 100))
       (Some (Some (150, None))) False None None = (Some t, Some ''slow'', Some a') \<and> t \<le> 2000000101"
proof -
  obtain a :: app where a: "app_log a = new_request_log (Some new_metrics)"
    using started_app by (elim exE)
  let ?a = "a\<lparr>app_cache_policy := default_policy\<rparr>" and ?server = "Some (200, Some ''slow'')"
  have T: "shutdown_timeout (app_cache_policy ?a) = 2000000000" "shutdown_timeout_of (Some ?a) = 2000000000"
    by (simp_all add: shutdown_timeout_of_def default_policy_def)
  have first: "signal_first (Some (Some 100)) (Some (150, None)) False" by (simp add: signal_first_def)
  have "log_inv (app_log ?a)" "shutdown_timeout (app_cache_policy ?a) < 2 ^ 62"
    "100 = (if signal_first (Some (Some 100)) (Some (150, None)) False then the (the (Some (Some (100 :: time)))) else 150)"
    "100 \<le> server_end 100 ?server" "server_end 100 ?server \<le> 100 + shutdown_timeout_of (Some ?a)"
    unfolding T using first by (simp_all add: a new_request_log_inv server_end_def)
  from lifecycle_ends [OF this, of 0 None None] show ?thesis
    unfolding T using first by (auto simp: server_error_def)
qed

end
