(* ===== verification/Spec2Isabelle.thy ===== *)
theory Spec2Isabelle
  imports
    L1_Properties
    Key_Properties
    Upstream_Properties
    Version_Witnesses
    Single_Flight
    Revalidate_Scheduler
    Background_Queue
    Config_Properties
    Http_Properties
    Logger
    App_Lifecycle
begin

text \<open>
  A model of svm-go, a caching proxy in front of the GitHub API: \<open>GET /version?url=...\<close> answers with the
  JSON body behind an allowlisted https URL, from an in-memory cache when it can, and a background
  runtime keeps the recently used entries fresh.

  \<^bold>\<open>How the program works, and which theory models what.\<close> Paths are under \<open>src/internal\<close> unless they
  begin with \<open>cmd\<close>.

  \<^item> \<open>Prelude\<close>, \<open>Go_Lib\<close>, \<open>Go_Numbers\<close>, \<open>Go_Url\<close>, \<open>Query_Codec\<close>: time, 64-bit integers, Go maps, the string,
    number, URL and query functions of Go's standard library that the program uses.
  \<^item> \<open>Config\<close>, \<open>Config_Properties\<close> (\<open>config/config.go\<close>): \<open>load_config\<close> reads the environment once, each check of
    the code an \<open>Inl\<close>. A loaded configuration is well formed; a number of days is read exactly up to
    the range of a duration.
  \<^item> \<open>Cache_Policy\<close> (\<open>cache/record.go\<close>, \<open>policy.go\<close>, \<open>state.go\<close>): records, the policy, staleness.
  \<^item> \<open>Store_Interface\<close>: the locales \<open>bounded_store\<close> and \<open>capacity_store\<close> state what the program relies on in a
    \<open>CacheStore\<close>; \<open>L1_Cache\<close> (\<open>cache/l1\<close>) implements it by a byte-bounded LRU cache. \<open>L1_Lru\<close> has the abstract
    cache and interprets the locales on the store, \<open>L1_Properties\<close> the refinement and the accounting of bytes.
  \<^item> \<open>Url_Validator\<close> (\<open>security\<close>) checks a requested URL; \<open>Cache_Key\<close>, \<open>Key_Properties\<close> (\<open>cache/key.go\<close>)
    normalise it into a key; \<open>Prep_Cache\<close> (\<open>request_prep_cache.go\<close>) memoises both.
  \<^item> \<open>Token_Provider\<close>, \<open>Upstream_Client\<close>, \<open>Upstream_Properties\<close>, \<open>Upstream_Exchange\<close> (\<open>upstream/github\<close>): which token
    a call uses, which headers it has, which redirects are followed, which addresses are dialled, and the
    chain of requests (\<open>exchange\<close>) that one call of the client can become.
  \<^item> \<open>Version_Service\<close>, \<open>Version_Handle\<close> (\<open>service/version/service.go\<close>): the state of \<open>Service\<close> and its
    operations: \<open>handle\<close> is split into \<open>handle_lookup\<close> and \<open>handle_fetch\<close> where the code hands over to the
    shared call of \<open>Single_Flight\<close> (\<open>foregroundRequestGroup\<close>). \<open>Version_Facts\<close>, \<open>Version_Writes\<close>, \<open>Version_Runs\<close>,
    \<open>Version_Properties\<close> and \<open>Version_Witnesses\<close> hold its lemmas, its interleavings (\<open>service_step\<close>) and
    properties, proved in the locale \<open>service_store\<close> and used through its interpretation on \<open>l1_store\<close>.
  \<^item> \<open>Activity_Tracker\<close>, \<open>Refresh_Queue\<close>, \<open>Revalidate_Scheduler\<close>, \<open>Refresh_Worker\<close> (\<open>service/version\<close>): a sweep
    reads the recently hit keys of the tracker, looks them up in the store and enqueues the stale ones;
    workers take them from the queue and call \<open>RefreshByKey\<close> at a bounded rate. The scheduler relies on
    the locale \<open>job_queue\<close> only. The sweep over the program's own tracker, store and queue is below.
  \<^item> \<open>Background\<close>: the goroutines of scheduler and workers over the queue, and \<open>CloseOnShutdown\<close>
    (\<open>app/app.go\<close>) stopping them, as one step relation. \<open>Background_Queue\<close>: its runs are runs of the queue, and
    the keys a sweep offers reach the workers.
  \<^item> \<open>Metrics\<close> (\<open>observability/metrics.go\<close>): counters as 64-bit words; \<open>Logger\<close> (\<open>observability/logger.go\<close>): the
    record and line of a message; \<open>Access_Log\<close> (\<open>cmd/svm/main.go\<close>): the bounded channel of request log entries.
  \<^item> \<open>Http_Api\<close>, \<open>Http_Properties\<close> (\<open>httpapi\<close>): router and endpoints, as the calls they make on the response.
  \<^item> \<open>App\<close>, \<open>App_Properties\<close>, \<open>App_Runs\<close>, \<open>App_Witnesses\<close> (\<open>cmd/svm/main.go\<close>): construction from the
    environment, the path of a request through access log, router and service, and \<open>app_step\<close>, in which
    requests, sweeps, workers and the log writer interleave over the shared state.
    \<open>App_Outbound\<close>: the same with the client's redirects. \<open>App_Lifecycle\<close>: stopping, and when it ends.

  \<^bold>\<open>What is shown.\<close> For the whole program: whatever is requested, however its parts interleave and
  whatever redirects the upstream sends, every request goes to an https URL on port 443 of an allowlisted
  host, and the token to GitHub's API only (\<open>outbound_confined\<close>); routes, statuses and log entries are as documented (\<open>http_dispatch\<close>); background work stops in order and a
  shutdown ends in time (\<open>background_stops_in_order\<close>, \<open>background_shutdown_ends\<close>, \<open>lifecycle_ends\<close>). For the
  service: when a request is a hit, what each upstream reply writes to the cache, that a fetched body is
  served back, that a forced refresh always asks the upstream, that an expired record is revalidated with
  its tag and keeps its payload, and that concurrent requests of one key share one call, which serves
  each of them within three steps of its own and which nothing delays. For the cache: refinement of an abstract LRU cache and exact accounting. For
  queue and log channels: order, capacity, no loss without a count, no panic. The rest are equivalences
  with a reference (address classes, allowlists, key normalisation), bounds (body reading, worker rate,
  durations) and codecs (metrics page, queries).

  \<^bold>\<open>Modelling choices.\<close>

  \<^item> A section under a lock, an atomic operation and a channel operation are atomic steps. \<open>service_step\<close>,
    \<open>app_step\<close>, \<open>background_step\<close>, \<open>queue_step\<close>, \<open>log_step\<close> and the steps of \<open>Single_Flight\<close> interleave them. A
    request is three steps of \<open>service_step\<close> (lookup; choice of the token and sending of the call; receipt of
    the result and the write) and a refresh five (claim, lookup, sending, receipt, release), with any
    others in between, as the code holds no lock across them; the result received is arbitrary there. A
    sweep is one step in \<open>app_step\<close> and many in \<open>Background\<close>. \<open>handle_fetch\<close>, \<open>handle\<close> and
    \<open>refresh_cached_record\<close> run the steps of one request or refresh in sequence: the theorems about them
    are about the call itself, while the invariants of runs hold under every interleaving.
  \<^item> The outside is an argument: \<open>env\<close> has the clock readings and the upstream's reply to a call, \<open>golib\<close>
    (\<open>url.Parse\<close>, SHA-256, JSON codec, case mapping beyond ASCII), \<open>numlib\<close> (float and duration parsers) and
    \<open>netlib\<close> (address parsers) the library functions whose algorithms are not written out. Theorems
    hold for all of them unless a hypothesis names the behaviour used.
  \<^item> A panic is \<open>None\<close>, an error a value; a nil pointer is \<open>None\<close> where the code tests for it.
  \<^item> Lengths and byte counts are integers with \<open>wrap64\<close> where the code computes in 64 bits; counters are
    \<open>64 word\<close>; a \<open>float64\<close> is a rational or one of the special values, rounded to 53 bits where the code
    multiplies. Instants are unbounded integers of nanoseconds, durations are kept within 64 bits. The
    byte counts of the cache are unbounded: \<open>l1_usage_no_overflow\<close> shows that the code's 64-bit sums do not
    wrap while the budget and the record written together stay below \<open>2 ^ 63\<close>.
  \<^item> A \<open>float64\<close> out of the range of \<open>int64\<close> is converted as on amd64, to the least \<open>int64\<close>; Go leaves that
    result to the implementation. Only a duration of 106752 days or more and a cache of \<open>2 ^ 33\<close> GB or more
    (or one that is no number) depend on it.
  \<^item> Clocks of a run do not go back: what the worker's loop is given is the time that passes, and a timer
    may fire late but not early. \<open>next_token\<close> reads the clock once for each token it looks at.
  \<^item> All functions are total. Loops are structural, except \<open>evict_to_budget\<close> and \<open>strip_runes\<close>, whose
    termination is proved by the decreasing length, and the number printer; no fuel is used.

  \<^bold>\<open>Not modelled.\<close> \<open>net/http\<close> beyond its rules for redirects and headers, fasthttp's parsing
  and writing, the process entry (\<open>main\<close>, \<open>NewServer\<close>, \<open>ListenAndServe\<close>: constants and calls into libraries)
  and the Go scheduler; the log messages other than the access log (they do not influence the state); the
  interface types and the constructors' defaults for nil loggers and clocks, which have no counterpart
  here; test entry points (\<open>run\<close> over an injected ticker, \<open>autoStart = false\<close>).
\<close>

section \<open>A sweep over the program's own tracker, store and queue\<close>

lemma sorted_order: "iteration_order m (sorted_list_of_fset (fmdom m))"
  by (simp add: iteration_order_def sorted_list_of_fset.rep_eq)

text \<open>
  C11. A sweep enqueues exactly the keys that are due: the keys hit within the lookback window whose
  cached record was last checked at least one interval ago, each once, as long as the queue has room
  and dropping the rest; the cached records stay as they are.
\<close>

theorem sweep_enqueues_due:
  assumes "rs_active_keys s = Some (Some hits)" and "rs_cache_store s = Some st" and "rs_queue s = Some q"
    and "store_inv st" and "rq_inv_opt q" and "\<And>m. iteration_order m (order m)"
    and "sweep (tracker_source (\<lambda>_. None) order) l1_store_ops try_enqueue now (Some s) = (res, s')"
  shows "\<exists>due t st' q'. s' = Some t \<and> rs_cache_store t = Some st' \<and> rs_queue t = Some q' \<and> distinct due \<and>
     set due = {k. k \<noteq> [] \<and> (\<exists>h r. fmlookup hits k = Some h \<and>
        now - revalidate_lookback (rs_policy s) \<le> h \<and> store_peek st k = Some r \<and>
        last_checked_at r + revalidate_interval (rs_policy s) \<le> now)} \<and>
     rq_pending q' = rq_pending q @ map (\<lambda>k. \<lparr>job_key = k\<rparr>) (take (rq_room q) due) \<and>
     enqueued res = int (min (rq_room q) (length due)) \<and> dropped res = int (length due - rq_room q) \<and>
     store_peek st' = store_peek st"
proof -
  let ?since = "now - revalidate_lookback (rs_policy s)" and ?int = "revalidate_interval (rs_policy s)"
  obtain m where m: "prune_active_keys_before (Some hits) ?since = Some m"
    by (simp add: prune_active_keys_before_def)
  have look: "fmlookup m k = (case fmlookup hits k of None \<Rightarrow> None | Some h \<Rightarrow> if ?since \<le> h then Some h else None)" for k
    using prune_lookup [of hits ?since k] m by simp
  let ?keys = "map ak_key (sort (collect_active m ?since (order m)))"
  let ?due = "filter (due_now store_peek st now ?int) ?keys"
  have "set ?keys = {k. \<exists>h. fmlookup m k = Some h \<and> ?since \<le> h}"
    unfolding set_map set_sort collect_active_set [OF assms(6) [of m]] by force
  then have due: "set ?due = {k. k \<noteq> [] \<and> (\<exists>h r. fmlookup hits k = Some h \<and> ?since \<le> h \<and>
      store_peek st k = Some r \<and> last_checked_at r + ?int \<le> now)}"
    by (auto simp: look due_now_def is_revalidation_due_def split: option.splits if_splits)
  have "distinct (map ak_key (collect_active m ?since (order m)))"
    using collect_active_distinct assms(6) [of m] by (auto simp: iteration_order_def)
  then have dist: "distinct ?due"
    by (metis distinct_filter mset_map mset_sort mset_eq_imp_distinct_iff)
  have ne: "[] \<notin> set ?due" by (auto simp: due_now_def)
  obtain n st' where sel: "select_due l1_store_ops now ?int ?keys st [] 0 = (?due, n, st')"
    "store_peek st' = store_peek st"
    using l1.select_due_bounded [OF assms(4), of l1_store_ops now ?int ?keys "[]" 0]
    by (auto simp: l1_store_ops_def)
  obtain q' where enq: "enqueue_all try_enqueue ?due q 0 0 =
      (int (min (rq_room q) (length ?due)), int (length ?due - rq_room q), q')"
    "rq_pending q' = rq_pending q @ map (\<lambda>k. \<lparr>job_key = k\<rparr>) (take (rq_room q) ?due)"
    using rq.enqueue_all_bounded [OF assms(5) ne, of 0 0] by auto
  have act: "active_keys_since (Some m) (\<lambda>_. None) ?since 0 (order m) = Inr ?keys"
    by (simp add: active_keys_since_def Let_def copy_keys_running)
  have "\<exists>t. s' = Some t \<and> rs_cache_store t = Some st' \<and> rs_queue t = Some q' \<and>
      enqueued res = int (min (rq_room q) (length ?due)) \<and> dropped res = int (length ?due - rq_room q)"
    using assms(7) by (simp add: sweep_def assms(1-3) tracker_source_def m act sel(1) enq(1) Let_def) auto
  then show ?thesis using due dist enq(2) sel(2) by (intro exI [of _ ?due]) auto
qed

definition sample_store :: l1_store where
  "sample_store = snd (store_set (new_store (Some (new_cache_with_max_bytes 1000))) ''k'' empty_record)"

lemma sample_store_ok: "store_inv sample_store" "store_peek sample_store ''k'' = Some empty_record"
proof -
  show "store_inv sample_store"
    unfolding sample_store_def by (rule store_set_inv [OF new_store_inv])
  show "store_peek sample_store ''k'' = Some empty_record"
    unfolding sample_store_def
    by (rule store_set_peek(2) [OF new_store_inv])
      (simp_all add: store_fits_def new_store_def new_cache_with_max_bytes_def estimate_entry_usage_def
        record_metadata_overhead_bytes_def empty_record_def)
qed

lemma sweep_enqueues_due_witness:
  "\<exists>res t. sweep (tracker_source (\<lambda>_. None) (\<lambda>m. sorted_list_of_fset (fmdom m))) l1_store_ops try_enqueue
       (2 * minute) (Some (new_revalidate_scheduler (Some (Some (fmupd ''k'' minute fmempty)))
         (Some sample_store) (Some (Some (new_refresh_queue 1))) default_policy)) = (res, Some t) \<and>
     enqueued res = 1 \<and> dropped res = 0"
proof -
  obtain s where s: "s = new_revalidate_scheduler (Some (Some (fmupd ''k'' minute fmempty)))
    (Some sample_store) (Some (Some (new_refresh_queue 1))) default_policy" by blast
  have f: "rs_active_keys s = Some (Some (fmupd ''k'' minute fmempty))" "rs_cache_store s = Some sample_store"
    "rs_queue s = Some (Some (new_refresh_queue 1))" "rs_policy s = default_policy"
    by (simp_all add: s new_revalidate_scheduler_def scheduler_policy_def default_policy_def)
  obtain res s' where sw: "sweep (tracker_source (\<lambda>_. None) (\<lambda>m. sorted_list_of_fset (fmdom m))) l1_store_ops
      try_enqueue (2 * minute) (Some s) = (res, s')" by (metis prod.exhaust)
  have q: "rq_inv_opt (Some (new_refresh_queue 1))" "rq_room (Some (new_refresh_queue 1)) = 1"
    by (simp_all add: rq_inv_opt_def new_refresh_queue_inv rq_room_def) (simp_all add: new_refresh_queue_def)
  have keys: "{k. k \<noteq> [] \<and> (\<exists>h r. fmlookup (fmupd ''k'' minute fmempty) k = Some h \<and>
      2 * minute - revalidate_lookback default_policy \<le> h \<and> store_peek sample_store k = Some r \<and>
      last_checked_at r + revalidate_interval default_policy \<le> 2 * minute)} = {''k''}"
    using sample_store_ok(2) by (auto simp: default_policy_def empty_record_def split: if_splits)
  obtain due t where due: "s' = Some t" "distinct due" "set due = {''k''}"
    "enqueued res = int (min 1 (length due))" "dropped res = int (length due - 1)"
    using sweep_enqueues_due [OF f(1-3) sample_store_ok(1) q(1) sorted_order sw, unfolded f(4) q(2) keys]
    by blast
  have "length due = 1" using due(2,3) distinct_card [of due] by simp
  then show ?thesis using due sw unfolding s by auto
qed

end
